(* ===== verification/Prelude.thy ===== *)
theory Prelude
  imports
    Main
    "HOL-Library.Word"
    "HOL-Library.Multiset"
    "HOL-Library.Char_ord"
    "HOL-Library.List_Lexorder"
begin

text \<open>
  Shared vocabulary of the development: identifiers, instants, results of fallible Go
  functions, the byte strings of Go with the standard-library functions the sources call on
  them, and generic list lemmas.

  \<^item> \<^bold>\<open>uuid\<close>: \<^verbatim>\<open>uuid.UUID\<close> is a sixteen byte array, so a 128 bit word; \<^verbatim>\<open>uuid.Nil\<close> is 0.
  \<^item> \<^bold>\<open>time\<close>: a \<^verbatim>\<open>time.Time\<close> is compared by its instant everywhere in the modelled code; an
    instant is the number of nanoseconds since the Unix epoch. \<^verbatim>\<open>time.Now()\<close> and
    \<^verbatim>\<open>uuid.New()\<close> are arguments of the operations that call them.
  \<^item> \<^bold>\<open>results\<close>: a Go pair \<^verbatim>\<open>(value, error)\<close> is a sum, \<open>Inl\<close> for the error.
  \<^item> \<^bold>\<open>assertions\<close>: \<^verbatim>\<open>asserter.That(ctx, c, ...)\<close> returns an error exactly when \<open>c\<close> is
    false, \<^verbatim>\<open>NotEmpty\<close> when the string is empty and \<^verbatim>\<open>NotNil\<close> when the pointer is nil;
    the model writes these guards as conditions.
\<close>

type_synonym uuid = "128 word"
type_synonym time = int

section \<open>Named collections\<close>

named_theorems go_splits "case rules for option and sum results"
named_theorems frame "fields an operation leaves alone"

section \<open>Results\<close>

fun rbind :: "'e + 'a \<Rightarrow> ('a \<Rightarrow> 'e + 'b) \<Rightarrow> 'e + 'b" where
  "rbind (Inl e) f = Inl e"
| "rbind (Inr x) f = f x"

definition is_ok :: "'e + 'a \<Rightarrow> bool" where
  "is_ok r = (case r of Inl _ \<Rightarrow> False | Inr _ \<Rightarrow> True)"

section \<open>Time\<close>

text \<open>
  \<^verbatim>\<open>t.Sub(u)\<close> is a \<^verbatim>\<open>time.Duration\<close>, an int64 of nanoseconds that saturates at its extreme
  values; integer division of Go truncates towards zero.
\<close>

definition nanos_per_hour :: int where
  "nanos_per_hour = 3600000000000"

definition nanos_per_day :: int where
  "nanos_per_day = 24 * nanos_per_hour"

definition max_duration :: int where
  "max_duration = 2 ^ 63 - 1"

definition min_duration :: int where
  "min_duration = - (2 ^ 63)"

definition time_sub :: "time \<Rightarrow> time \<Rightarrow> int" where
  "time_sub t u = max min_duration (min max_duration (t - u))"

definition go_div :: "int \<Rightarrow> int \<Rightarrow> int" where
  "go_div a b = sgn a * sgn b * (\<bar>a\<bar> div \<bar>b\<bar>)"

text \<open>The zero \<^verbatim>\<open>time.Time\<close> is midnight UTC of January 1 of year 1.\<close>

definition zero_time :: time where
  "zero_time = -62135596800000000000"

section \<open>Strings\<close>

text \<open>
  A Go string is a byte sequence. \<^verbatim>\<open>strings.TrimSpace\<close> removes the code points of
  \<^verbatim>\<open>unicode.IsSpace\<close> from both ends: the six ASCII spaces and the listed UTF-8 sequences
  (U+0085, U+00A0, U+1680, U+2000 to U+200A, U+2028, U+2029, U+202F, U+205F, U+3000).
\<close>

definition bytes :: "nat list \<Rightarrow> string" where
  "bytes ns = map char_of ns"

definition ascii_space :: "char \<Rightarrow> bool" where
  "ascii_space c = (of_char c \<in> {9 :: nat, 10, 11, 12, 13, 32})"

definition wide_spaces :: "string list" where
  "wide_spaces =
     [bytes [194, 133], bytes [194, 160], bytes [225, 154, 128]] @
     map (\<lambda>n. bytes [226, 128, n]) ([128..<139] @ [168, 169, 175]) @
     [bytes [226, 129, 159], bytes [227, 128, 128]]"

definition starts_with :: "string \<Rightarrow> string \<Rightarrow> bool" where
  "starts_with p s = (take (length p) s = p)"

text \<open>The number of bytes the leading white space code point of \<open>s\<close> takes, 0 if there is none.\<close>

definition space_width :: "string list \<Rightarrow> string \<Rightarrow> nat" where
  "space_width wide s =
     (case s of [] \<Rightarrow> 0
      | c # _ \<Rightarrow> if ascii_space c then 1
                else (case find (\<lambda>p. starts_with p s) wide of
                        None \<Rightarrow> 0 | Some p \<Rightarrow> length p))"

function trim_left :: "string list \<Rightarrow> string \<Rightarrow> string" where
  "trim_left wide s =
     (if s = [] \<or> space_width wide s = 0 then s
      else trim_left wide (drop (space_width wide s) s))"
  by pat_completeness auto
termination
  by (relation "measure (\<lambda>(_, s). length s)") auto

declare trim_left.simps [simp del]

text \<open>Trimming the end is trimming the start of the reversed string by the reversed sequences.\<close>

definition TrimSpace :: "string \<Rightarrow> string" where
  "TrimSpace s = rev (trim_left (map rev wide_spaces) (rev (trim_left wide_spaces s)))"

text \<open>A visible ASCII character: one that trimming never removes.\<close>

definition visible :: "char \<Rightarrow> bool" where
  "visible c = (32 < (of_char c :: nat) \<and> (of_char c :: nat) < 128)"

definition is_ascii :: "string \<Rightarrow> bool" where
  "is_ascii s = (\<forall>c \<in> set s. of_char c < (128 :: nat))"

definition ascii_upper :: "char \<Rightarrow> char" where
  "ascii_upper c =
     (if 97 \<le> (of_char c :: nat) \<and> (of_char c :: nat) \<le> 122 then char_of (of_char c - 32 :: nat) else c)"

definition ascii_lower :: "char \<Rightarrow> char" where
  "ascii_lower c =
     (if 65 \<le> (of_char c :: nat) \<and> (of_char c :: nat) \<le> 90 then char_of (of_char c + 32 :: nat) else c)"

text \<open>\<^verbatim>\<open>strconv.FormatUint\<close> and \<^verbatim>\<open>strconv.FormatInt\<close> in base 10.\<close>

fun digits_of :: "nat \<Rightarrow> string" where
  "digits_of n =
     (if n < 10 then [char_of (48 + n)] else digits_of (n div 10) @ [char_of (48 + n mod 10)])"

declare digits_of.simps [simp del]

definition FormatInt :: "int \<Rightarrow> string" where
  "FormatInt i = (if i < 0 then CHR ''-'' # digits_of (nat (- i)) else digits_of (nat i))"

text \<open>\<^verbatim>\<open>utils.NormalizeOptionalText\<close>: nil stays nil, blank text becomes nil, other text is trimmed.\<close>

definition NormalizeOptionalText :: "string option \<Rightarrow> string option" where
  "NormalizeOptionalText v =
     (case v of None \<Rightarrow> None
      | Some s \<Rightarrow> (let t = TrimSpace s in if t = '''' then None else Some t))"

section \<open>Results: lemmas\<close>

lemma rbind_Inr_iff [simp]: "rbind m f = Inr y \<longleftrightarrow> (\<exists>x. m = Inr x \<and> f x = Inr y)"
  by (cases m) auto

lemma rbind_assoc: "rbind (rbind x f) g = rbind x (\<lambda>y. rbind (f y) g)"
  by (cases x) simp_all

lemma rbind_Inr_right: "rbind x (\<lambda>y. Inr y) = x"
  by (cases x) simp_all

lemma rbind_Inl_iff: "rbind m f = Inl e \<longleftrightarrow> m = Inl e \<or> (\<exists>x. m = Inr x \<and> f x = Inl e)"
  by (cases m) auto

lemma is_ok_simps [simp]: "is_ok (Inr x)" "\<not> is_ok (Inl e)"
  by (simp_all add: is_ok_def)

lemma is_ok_iff: "is_ok r \<longleftrightarrow> (\<exists>x. r = Inr x)"
  by (cases r) auto

lemmas [go_splits] = option.splits sum.splits if_splits

section \<open>Time: lemmas\<close>

lemma go_div_nonneg: "0 \<le> a \<Longrightarrow> 0 < b \<Longrightarrow> go_div a b = a div b"
  by (cases "a = 0") (auto simp: go_div_def)

lemma go_div_neg: "a \<le> 0 \<Longrightarrow> 0 < b \<Longrightarrow> go_div a b = - ((- a) div b)"
  by (cases "a = 0") (auto simp: go_div_def)

lemma go_div_minus: "go_div (- a) b = - go_div a b"
  by (simp add: go_div_def)

lemma time_sub_exact:
  "min_duration \<le> t - u \<Longrightarrow> t - u \<le> max_duration \<Longrightarrow> time_sub t u = t - u"
  by (simp add: time_sub_def)

lemma time_sub_bounds: "min_duration \<le> time_sub t u" "time_sub t u \<le> max_duration"
  by (auto simp: time_sub_def min_duration_def max_duration_def)

section \<open>Strings: lemmas\<close>

lemma trim_left_Nil [simp]: "trim_left w [] = []"
  by (simp add: trim_left.simps)

lemma trim_left_suffix: "\<exists>k. trim_left w s = drop k s"
proof (induction w s rule: trim_left.induct)
  case (1 w s)
  show ?case
  proof (cases "s = [] \<or> space_width w s = 0")
    case True
    then have "trim_left w s = drop 0 s" by (simp add: trim_left.simps [of w s])
    then show ?thesis ..
  next
    case False
    with 1 obtain k where "trim_left w (drop (space_width w s) s) = drop k (drop (space_width w s) s)"
      by auto
    with False have "trim_left w s = drop (k + space_width w s) s"
      by (simp add: trim_left.simps [of w s])
    then show ?thesis ..
  qed
qed

lemma trim_left_done: "trim_left w s = [] \<or> space_width w (trim_left w s) = 0"
proof (induction w s rule: trim_left.induct)
  case (1 w s)
  then show ?case
    by (cases "s = [] \<or> space_width w s = 0") (auto simp: trim_left.simps [of w s])
qed

lemma trim_left_fix: "space_width w s = 0 \<Longrightarrow> trim_left w s = s"
  by (simp add: trim_left.simps [of w s])

lemma trim_left_idem [simp]: "trim_left w (trim_left w s) = trim_left w s"
  using trim_left_done [of w s] trim_left_fix [of w "trim_left w s"] by auto

lemma TrimSpace_Nil [simp]: "TrimSpace [] = []"
  by (simp add: TrimSpace_def)

lemma NormalizeOptionalText_None [simp]: "NormalizeOptionalText None = None"
  by (simp add: NormalizeOptionalText_def)

lemma NormalizeOptionalText_not_empty: "NormalizeOptionalText v = Some t \<Longrightarrow> t \<noteq> []"
  by (auto simp: NormalizeOptionalText_def Let_def split: option.splits if_splits)

lemma length_TrimSpace: "length (TrimSpace s) \<le> length s"
proof -
  obtain k where k: "trim_left wide_spaces s = drop k s" using trim_left_suffix by blast
  obtain j where j: "trim_left (map rev wide_spaces) (rev (drop k s)) = drop j (rev (drop k s))"
    using trim_left_suffix by blast
  show ?thesis by (simp add: TrimSpace_def k j)
qed

lemma wide_spaces_high:
  "\<forall>p \<in> set wide_spaces. p \<noteq> [] \<and> 128 \<le> (of_char (hd p) :: nat) \<and> 128 \<le> (of_char (last p) :: nat)"
  by (simp add: wide_spaces_def bytes_def upt_rec del: upt_conv_Cons)

lemma space_width_visible:
  assumes "\<forall>p \<in> set w. p \<noteq> [] \<and> 128 \<le> (of_char (hd p) :: nat)" and "s \<noteq> []" and "visible (hd s)"
  shows "space_width w s = 0"
proof -
  have "\<not> starts_with p s" if "p \<in> set w" for p
  proof
    assume "starts_with p s"
    then have "hd p = hd s" using assms(1,2) that
      by (metis hd_take length_greater_0_conv starts_with_def)
    with assms(1,3) that show False by (auto simp: visible_def)
  qed
  then have "find (\<lambda>p. starts_with p s) w = None" by (auto simp: find_None_iff)
  with assms(2,3) show ?thesis
    by (auto simp: space_width_def ascii_space_def visible_def split: list.splits)
qed

lemma TrimSpace_visible:
  assumes "s \<noteq> []" "visible (hd s)" "visible (last s)"
  shows "TrimSpace s = s"
proof -
  have "trim_left wide_spaces s = s"
    using wide_spaces_high assms by (intro trim_left_fix space_width_visible) auto
  moreover have "trim_left (map rev wide_spaces) (rev s) = rev s"
    using wide_spaces_high assms
    by (intro trim_left_fix space_width_visible) (auto simp: hd_rev)
  ultimately show ?thesis by (simp add: TrimSpace_def)
qed

lemma starts_with_take: "starts_with p (take n s) \<Longrightarrow> starts_with p s"
proof -
  assume a: "starts_with p (take n s)"
  then have "length p \<le> n" unfolding starts_with_def by (metis length_take min.bounded_iff nat_le_linear take_all_iff)
  with a show "starts_with p s" by (simp add: starts_with_def min_def)
qed

lemma space_width_take:
  assumes "space_width w s = 0" "[] \<notin> set w"
  shows "space_width w (take n s) = 0"
proof (cases "take n s = [] \<or> find (\<lambda>p. starts_with p (take n s)) w = None")
  case True
  with assms(1) show ?thesis by (cases s; cases n) (auto simp: space_width_def split: if_splits)
next
  case False
  then obtain p where "p \<in> set w" "starts_with p s"
    using starts_with_take by (metis find_None_iff2)
  then obtain q where "find (\<lambda>p. starts_with p s) w = Some q" by (metis find_None_iff2 not_None_eq)
  moreover from this have "q \<noteq> []" using assms(2) by (metis find_Some_iff2 nth_mem)
  ultimately have False using assms(1) False by (cases s) (auto simp: space_width_def split: if_splits)
  then show ?thesis ..
qed

lemma TrimSpace_idem [simp]: "TrimSpace (TrimSpace s) = TrimSpace s"
proof -
  let ?t = "trim_left wide_spaces s" and ?r = "trim_left (map rev wide_spaces)"
  obtain k where "?r (rev ?t) = drop k (rev ?t)" using trim_left_suffix by blast
  then have u: "TrimSpace s = take (length ?t - k) ?t" by (simp add: TrimSpace_def rev_drop)
  have "[] \<notin> set wide_spaces" by (auto simp: wide_spaces_def bytes_def)
  then have "?t = [] \<or> space_width wide_spaces (TrimSpace s) = 0"
    using trim_left_done [of wide_spaces s] space_width_take u by metis
  then have "trim_left wide_spaces (TrimSpace s) = TrimSpace s"
    using u by (auto intro: trim_left_fix)
  then have "TrimSpace (TrimSpace s) = rev (?r (rev (TrimSpace s)))" by (simp add: TrimSpace_def)
  also have "\<dots> = TrimSpace s" by (simp add: TrimSpace_def [of s])
  finally show ?thesis .
qed

end
