(* ===== verification/Go_Sort.thy ===== *)
theory Go_Sort
  imports Prelude
begin

text \<open>
  \<^verbatim>\<open>sort.SliceStable(xs, lt)\<close>: the standard library sorts \<open>xs\<close> so that no element
  compares \<open>lt\<close> to one before it and elements that do not compare \<open>lt\<close> either way keep
  their order, provided \<open>lt\<close> is a strict weak order. The locale states that contract; each
  comparator of the sources is shown to satisfy it where it is defined, and the facts about
  the sorted slice follow from the interpretation.
\<close>

fun insert_stable :: "('a \<Rightarrow> 'a \<Rightarrow> bool) \<Rightarrow> 'a \<Rightarrow> 'a list \<Rightarrow> 'a list" where
  "insert_stable lt x [] = [x]"
| "insert_stable lt x (y # ys) =
     (if lt y x then y # insert_stable lt x ys else x # y # ys)"

definition SliceStable :: "('a \<Rightarrow> 'a \<Rightarrow> bool) \<Rightarrow> 'a list \<Rightarrow> 'a list" where
  "SliceStable lt xs = foldr (insert_stable lt) xs []"

lemma SliceStable_simps [simp]:
  "SliceStable lt [] = []"
  "SliceStable lt (x # xs) = insert_stable lt x (SliceStable lt xs)"
  by (simp_all add: SliceStable_def)

lemma mset_insert_stable [simp]: "mset (insert_stable lt x xs) = add_mset x (mset xs)"
  by (induction xs) auto

lemma mset_SliceStable [simp]: "mset (SliceStable lt xs) = mset xs"
  by (induction xs) auto

lemma set_insert_stable [simp]: "set (insert_stable lt x xs) = insert x (set xs)"
  by (metis mset_insert_stable set_mset_add_mset_insert set_mset_mset)

lemma set_SliceStable [simp]: "set (SliceStable lt xs) = set xs"
  by (metis mset_SliceStable set_mset_mset)

lemma length_SliceStable [simp]: "length (SliceStable lt xs) = length xs"
  by (metis mset_SliceStable size_mset)

lemma distinct_map_SliceStable [simp]: "distinct (map f (SliceStable lt xs)) = distinct (map f xs)"
  by (metis distinct_count_atmost_1 mset_SliceStable mset_map set_map set_SliceStable)

locale strict_weak_order =
  fixes lt :: "'a \<Rightarrow> 'a \<Rightarrow> bool"
  assumes irrefl: "\<not> lt x x"
    and trans: "lt x y \<Longrightarrow> lt y z \<Longrightarrow> lt x z"
    and incomparable_trans: "\<not> lt x y \<Longrightarrow> \<not> lt y z \<Longrightarrow> \<not> lt x z"
begin

lemma asym: "lt x y \<Longrightarrow> \<not> lt y x"
  using irrefl trans by blast

lemma sorted_insert_stable:
  "sorted_wrt (\<lambda>x y. \<not> lt y x) ys \<Longrightarrow> sorted_wrt (\<lambda>x y. \<not> lt y x) (insert_stable lt x ys)"
  by (induction ys) (auto dest: asym incomparable_trans)

lemma sorted: "sorted_wrt (\<lambda>x y. \<not> lt y x) (SliceStable lt xs)"
  by (induction xs) (auto intro: sorted_insert_stable)

lemma filter_insert_stable:
  assumes "\<And>y. P y \<Longrightarrow> P x \<Longrightarrow> \<not> lt y x"
  shows "filter P (insert_stable lt x ys) = filter P (x # ys)"
  using assms by (induction ys) auto

lemma stable:
  "filter (\<lambda>y. \<not> lt z y \<and> \<not> lt y z) (SliceStable lt xs)
   = filter (\<lambda>y. \<not> lt z y \<and> \<not> lt y z) xs"
proof (induction xs)
  case Nil
  then show ?case by simp
next
  case (Cons x xs)
  have "filter (\<lambda>y. \<not> lt z y \<and> \<not> lt y z) (insert_stable lt x (SliceStable lt xs))
        = filter (\<lambda>y. \<not> lt z y \<and> \<not> lt y z) (x # SliceStable lt xs)"
    by (rule filter_insert_stable) (blast dest: incomparable_trans)
  then show ?case using Cons.IH by auto
qed

lemma insert_stable_head:
  "\<forall>y \<in> set ys. \<not> lt y x \<Longrightarrow> insert_stable lt x ys = x # ys"
  by (cases ys) auto

lemma sorted_fixpoint:
  "sorted_wrt (\<lambda>x y. \<not> lt y x) xs \<Longrightarrow> SliceStable lt xs = xs"
  by (induction xs) (auto simp: insert_stable_head)

lemma idem: "SliceStable lt (SliceStable lt xs) = SliceStable lt xs"
  by (rule sorted_fixpoint) (rule sorted)

text \<open>
  Where elements that compare equal are equal, the sorted slice does not depend on the order
  of the input: the sort is deterministic on the multiset of its elements.
\<close>

lemma sorted_unique:
  assumes "sorted_wrt (\<lambda>x y. \<not> lt y x) xs" "sorted_wrt (\<lambda>x y. \<not> lt y x) ys"
    and "mset xs = mset ys"
    and "\<And>x y. x \<in> set xs \<Longrightarrow> y \<in> set xs \<Longrightarrow> \<not> lt x y \<Longrightarrow> \<not> lt y x \<Longrightarrow> x = y"
  shows "xs = ys"
  using assms
proof (induction xs arbitrary: ys)
  case Nil
  then show ?case by simp
next
  case (Cons x xs)
  from Cons.prems(3) obtain y zs where ys: "ys = y # zs"
    by (cases ys) auto
  have set_eq: "set (x # xs) = set (y # zs)"
    using Cons.prems(3) ys by (metis set_mset_mset)
  have y_in: "y \<in> set (x # xs)" and x_in: "x \<in> set (y # zs)" using set_eq by (metis list.set_intros(1))+
  have "\<not> lt y x" using Cons.prems(1) y_in irrefl by auto
  moreover have "\<not> lt x y" using Cons.prems(2) x_in irrefl unfolding ys by auto
  moreover note y_in
  ultimately have xy: "x = y" using Cons.prems(4) [of x y] by simp
  have "xs = zs"
    by (rule Cons.IH) (use Cons.prems ys xy in auto)
  with ys xy show ?case by simp
qed

lemma deterministic:
  assumes "mset xs = mset ys"
    and "\<And>x y. x \<in> set xs \<Longrightarrow> y \<in> set xs \<Longrightarrow> \<not> lt x y \<Longrightarrow> \<not> lt y x \<Longrightarrow> x = y"
  shows "SliceStable lt xs = SliceStable lt ys"
  by (rule sorted_unique [OF sorted sorted]) (use assms in auto)

end

text \<open>
  Comparators of the sources chain keys: the first key that differs decides. \<open>then_lt\<close> is
  that composition; it keeps the contract when the first comparison is by a key of a linear
  order.
\<close>

definition key_lt :: "('a \<Rightarrow> 'k::linorder) \<Rightarrow> 'a \<Rightarrow> 'a \<Rightarrow> bool" where
  "key_lt k x y = (k x < k y)"

definition then_lt :: "('a \<Rightarrow> 'k::linorder) \<Rightarrow> ('a \<Rightarrow> 'a \<Rightarrow> bool) \<Rightarrow> 'a \<Rightarrow> 'a \<Rightarrow> bool" where
  "then_lt k lt x y = (if k x \<noteq> k y then k x < k y else lt x y)"

lemma strict_weak_order_key: "strict_weak_order (key_lt k)"
  by unfold_locales (auto simp: key_lt_def)

lemma strict_weak_order_then:
  assumes "strict_weak_order lt"
  shows "strict_weak_order (then_lt k lt)"
proof -
  note l = strict_weak_order.irrefl [OF assms] strict_weak_order.trans [OF assms]
    strict_weak_order.incomparable_trans [OF assms]
  show ?thesis
  proof
    fix x y z
    show "\<not> then_lt k lt x x" using l(1) by (simp add: then_lt_def)
    show "then_lt k lt x z" if "then_lt k lt x y" "then_lt k lt y z"
      using that l(2) [of x y z] by (auto simp: then_lt_def split: if_splits)
    show "\<not> then_lt k lt x z" if "\<not> then_lt k lt x y" "\<not> then_lt k lt y z"
      using that l(3) [of x y z] by (auto simp: then_lt_def split: if_splits)
  qed
qed

end
