(* ===== verification/Externals.thy ===== *)
theory Externals
  imports Complex_Main Prelude
begin

text \<open>
  What the sources call outside the repository. The decimal package
  \<^verbatim>\<open>github.com/shopspring/decimal\<close> is a parameter of the model in two parts:
  \<^item> its numbers are an arbitrary ordered integral domain \<^typ>\<open>'d::linordered_idom\<close>, which is
    what its exact \<^verbatim>\<open>Add\<close>, \<^verbatim>\<open>Sub\<close>, \<^verbatim>\<open>Mul\<close>, \<^verbatim>\<open>Neg\<close>, \<^verbatim>\<open>Abs\<close> and comparisons give;
  \<^item> its rounding, division, parsing and printing are fields of the record \<open>ext\<close>.

  The record also carries the text form of a UUID and the two Unicode-table functions of the
  standard library. The locale \<open>externals\<close> names what the code relies on, and the decimals
  of \<^typ>\<open>rat\<close> at the end satisfy all of it.
\<close>

record 'd ext =
  dec_round :: "'d \<Rightarrow> int \<Rightarrow> 'd"
  dec_round_bank :: "'d \<Rightarrow> int \<Rightarrow> 'd"
  dec_round_floor :: "'d \<Rightarrow> int \<Rightarrow> 'd"
  dec_round_ceil :: "'d \<Rightarrow> int \<Rightarrow> 'd"
  dec_truncate :: "'d \<Rightarrow> int \<Rightarrow> 'd"
  dec_div :: "'d \<Rightarrow> 'd \<Rightarrow> 'd"
  dec_new :: "int \<Rightarrow> int \<Rightarrow> 'd"
  dec_from_string :: "string \<Rightarrow> 'd option"
  dec_string :: "'d \<Rightarrow> string"
  uuid_string :: "uuid \<Rightarrow> string"
  uuid_parse :: "string \<Rightarrow> uuid option"
  to_upper :: "string \<Rightarrow> string"
  equal_fold :: "string \<Rightarrow> string \<Rightarrow> bool"

text \<open>An instance on the rationals: the documented rounding rules, the canonical UUID text and
  the ASCII part of the case tables.\<close>

definition scale10 :: "int \<Rightarrow> rat" where
  "scale10 s = 10 ^ nat s"

definition rat_round :: "rat \<Rightarrow> int \<Rightarrow> rat" where
  "rat_round x s = sgn x * of_int \<lfloor>\<bar>x\<bar> * scale10 s + 1 / 2\<rfloor> / scale10 s"

definition rat_round_bank :: "rat \<Rightarrow> int \<Rightarrow> rat" where
  "rat_round_bank x s =
     (let y = x * scale10 s; f = \<lfloor>y\<rfloor>; r = y - of_int f in
      of_int (if r < 1 / 2 \<or> (r = 1 / 2 \<and> even f) then f else f + 1) / scale10 s)"

definition rat_round_floor :: "rat \<Rightarrow> int \<Rightarrow> rat" where
  "rat_round_floor x s = of_int \<lfloor>x * scale10 s\<rfloor> / scale10 s"

definition rat_round_ceil :: "rat \<Rightarrow> int \<Rightarrow> rat" where
  "rat_round_ceil x s = of_int \<lceil>x * scale10 s\<rceil> / scale10 s"

definition rat_truncate :: "rat \<Rightarrow> int \<Rightarrow> rat" where
  "rat_truncate x s = sgn x * of_int \<lfloor>\<bar>x\<bar> * scale10 s\<rfloor> / scale10 s"

definition rat_div :: "rat \<Rightarrow> rat \<Rightarrow> rat" where
  "rat_div x y = rat_round (x / y) 16"

definition rat_new :: "int \<Rightarrow> int \<Rightarrow> rat" where
  "rat_new m e = of_int m * scale10 e / scale10 (- e)"

definition digit_value :: "char \<Rightarrow> nat option" where
  "digit_value c =
     (if 48 \<le> (of_char c :: nat) \<and> (of_char c :: nat) \<le> 57 then Some (of_char c - 48) else None)"

fun parse_digits :: "nat \<Rightarrow> string \<Rightarrow> nat option" where
  "parse_digits acc [] = Some acc"
| "parse_digits acc (c # cs) =
     (case digit_value c of None \<Rightarrow> None | Some v \<Rightarrow> parse_digits (10 * acc + v) cs)"

definition rat_from_string :: "string \<Rightarrow> rat option" where
  "rat_from_string s =
     (let neg = (s \<noteq> [] \<and> hd s = CHR ''-''); u = (if neg then tl s else s);
          w = takeWhile (\<lambda>c. c \<noteq> CHR ''.'') u; f = drop (Suc (length w)) u in
      if w @ f = [] then None
      else map_option (\<lambda>n. (if neg then -1 else 1) * of_nat n / 10 ^ length f)
             (parse_digits 0 (w @ f)))"

fun fraction_digits :: "nat \<Rightarrow> rat \<Rightarrow> string" where
  "fraction_digits 0 x = ''''"
| "fraction_digits (Suc n) x =
     (if x = 0 then ''''
      else char_of (48 + nat \<lfloor>10 * x\<rfloor>) # fraction_digits n (10 * x - of_int \<lfloor>10 * x\<rfloor>))"

definition rat_string :: "rat \<Rightarrow> string" where
  "rat_string x =
     (let f = fraction_digits 16 (\<bar>x\<bar> - of_int \<lfloor>\<bar>x\<bar>\<rfloor>) in
      (if x < 0 then ''-'' else '''') @ FormatInt \<lfloor>\<bar>x\<bar>\<rfloor> @ (if f = '''' then '''' else CHR ''.'' # f))"

definition hex_digit :: "nat \<Rightarrow> char" where
  "hex_digit n = ''0123456789abcdef'' ! (n mod 16)"

definition uuid_digits :: "uuid \<Rightarrow> string" where
  "uuid_digits u = map (\<lambda>i. hex_digit (unat u div 16 ^ (31 - i))) [0..<32]"

definition uuid_text :: "uuid \<Rightarrow> string" where
  "uuid_text u =
     (let h = uuid_digits u in
      take 8 h @ ''-'' @ take 4 (drop 8 h) @ ''-'' @ take 4 (drop 12 h) @ ''-'' @
      take 4 (drop 16 h) @ ''-'' @ drop 20 h)"

definition rat_ext :: "rat ext" where
  "rat_ext = \<lparr>
     dec_round = rat_round,
     dec_round_bank = rat_round_bank,
     dec_round_floor = rat_round_floor,
     dec_round_ceil = rat_round_ceil,
     dec_truncate = rat_truncate,
     dec_div = rat_div,
     dec_new = rat_new,
     dec_from_string = rat_from_string,
     dec_string = rat_string,
     uuid_string = uuid_text,
     uuid_parse = (\<lambda>s. if s \<in> range uuid_text then Some (inv uuid_text s) else None),
     to_upper = map ascii_upper,
     equal_fold = (\<lambda>s t. map ascii_lower s = map ascii_lower t) \<rparr>"

section \<open>Integers inside an ordered domain\<close>

lemma Ints_close_eq:
  fixes a b :: "'d::linordered_idom"
  assumes "a \<in> \<int>" "b \<in> \<int>" "\<bar>a - b\<bar> < 1"
  shows "a = b"
proof -
  obtain i j where "a = of_int i" "b = of_int j" using assms(1,2) by (auto elim!: Ints_cases)
  moreover from this assms(3) have "\<bar>of_int (i - j) :: 'd\<bar> < of_int 1" by simp
  then have "\<bar>i - j\<bar> < 1" by (simp only: of_int_abs [symmetric] of_int_less_iff)
  ultimately show ?thesis by simp
qed

lemma Ints_less_add1:
  fixes a b :: "'d::linordered_idom"
  assumes "a \<in> \<int>" "b \<in> \<int>" "a < b + 1"
  shows "a \<le> b"
proof -
  obtain i j where ij: "a = of_int i" "b = of_int j" using assms(1,2) by (auto elim!: Ints_cases)
  have "(of_int i :: 'd) < of_int (j + 1)" using ij assms(3) by simp
  then have "i < j + 1" by (simp only: of_int_less_iff)
  with ij show ?thesis by simp
qed

section \<open>Rounding as an interface\<close>

text \<open>
  A rounding function puts a number on the grid of \<open>s\<close> decimal places, less than one grid
  step away. On-grid numbers are kept, order against on-grid numbers is kept, and so is sign.
\<close>

locale rounding =
  fixes f :: "'d::linordered_idom \<Rightarrow> int \<Rightarrow> 'd"
  assumes grid: "0 \<le> s \<Longrightarrow> f x s * 10 ^ nat s \<in> \<int>"
    and close: "0 \<le> s \<Longrightarrow> \<bar>f x s - x\<bar> * 10 ^ nat s < 1"
begin

lemma exact: "0 \<le> s \<Longrightarrow> x * 10 ^ nat s \<in> \<int> \<Longrightarrow> f x s = x"
proof -
  assume s: "0 \<le> s" and x: "x * 10 ^ nat s \<in> \<int>"
  have "\<bar>f x s * 10 ^ nat s - x * 10 ^ nat s\<bar> < 1"
    using close [OF s, of x] by (simp add: abs_mult flip: left_diff_distrib)
  then have "f x s * 10 ^ nat s = x * 10 ^ nat s"
    using grid [OF s] x by (rule Ints_close_eq [rotated 2])
  then show ?thesis by simp
qed

lemma zero: "0 \<le> s \<Longrightarrow> f 0 s = 0"
  by (rule exact) simp_all

lemma le_grid:
  assumes s: "0 \<le> s" and y: "y * 10 ^ nat s \<in> \<int>" and "x \<le> y"
  shows "f x s \<le> y"
proof -
  have p: "(0 :: 'd) < 10 ^ nat s" by simp
  have "(f x s - x) * 10 ^ nat s \<le> \<bar>f x s - x\<bar> * 10 ^ nat s"
    by (intro mult_right_mono) auto
  then have "f x s * 10 ^ nat s < x * 10 ^ nat s + 1"
    using close [OF s, of x] by (simp add: left_diff_distrib)
  also have "x * 10 ^ nat s + 1 \<le> y * 10 ^ nat s + 1"
    using \<open>x \<le> y\<close> by (simp add: mult_right_mono)
  finally have "f x s * 10 ^ nat s \<le> y * 10 ^ nat s"
    using grid [OF s] y by (intro Ints_less_add1)
  then show ?thesis using p by (simp add: mult_le_cancel_right)
qed

lemma ge_grid:
  assumes s: "0 \<le> s" and y: "y * 10 ^ nat s \<in> \<int>" and "y \<le> x"
  shows "y \<le> f x s"
proof -
  have p: "(0 :: 'd) < 10 ^ nat s" by simp
  have "(x - f x s) * 10 ^ nat s \<le> \<bar>f x s - x\<bar> * 10 ^ nat s"
    by (intro mult_right_mono) auto
  then have *: "x * 10 ^ nat s < f x s * 10 ^ nat s + 1"
    using close [OF s, of x] by (simp add: left_diff_distrib)
  have "y * 10 ^ nat s \<le> x * 10 ^ nat s"
    using \<open>y \<le> x\<close> by (simp add: mult_right_mono)
  from this * have "y * 10 ^ nat s < f x s * 10 ^ nat s + 1" by (rule le_less_trans)
  then have "y * 10 ^ nat s \<le> f x s * 10 ^ nat s"
    using grid [OF s] y by (intro Ints_less_add1)
  then show ?thesis using p by (simp add: mult_le_cancel_right)
qed

lemma nonneg: "0 \<le> s \<Longrightarrow> 0 \<le> x \<Longrightarrow> 0 \<le> f x s"
  using ge_grid [of s 0 x] by simp

lemma nonpos: "0 \<le> s \<Longrightarrow> x \<le> 0 \<Longrightarrow> f x s \<le> 0"
  using le_grid [of s 0 x] by simp

end

locale rounding_nearest = rounding +
  assumes nearest: "0 \<le> s \<Longrightarrow> 2 * (\<bar>f x s - x\<bar> * 10 ^ nat s) \<le> 1"

locale rounding_floor = rounding +
  assumes floor_le: "0 \<le> s \<Longrightarrow> f x s \<le> x"

locale rounding_ceil = rounding +
  assumes ceil_ge: "0 \<le> s \<Longrightarrow> x \<le> f x s"

locale rounding_truncate = rounding +
  assumes truncate_abs: "0 \<le> s \<Longrightarrow> \<bar>f x s\<bar> \<le> \<bar>x\<bar>"

section \<open>What the code relies on\<close>

locale externals =
  fixes E :: "'d::linordered_idom ext"
  assumes half_up: "rounding_nearest (dec_round E)"
    and bankers: "rounding_nearest (dec_round_bank E)"
    and floor_rounding: "rounding_floor (dec_round_floor E)"
    and ceil_rounding: "rounding_ceil (dec_round_ceil E)"
    and truncation: "rounding_truncate (dec_truncate E)"
    and div_close: "y \<noteq> 0 \<Longrightarrow> 2 * (\<bar>dec_div E x y * y - x\<bar> * 10 ^ 16) \<le> \<bar>y\<bar>"
    and new_exp: "0 \<le> n \<Longrightarrow> dec_new E m (- n) * 10 ^ nat n = of_int m"
    and parse_half: "\<exists>d. dec_from_string E ''0.50'' = Some d \<and> d * 100 = 50"
    and parse_half_percent: "\<exists>d. dec_from_string E ''0.005'' = Some d \<and> d * 1000 = 5"
    and uuid_parse_string: "uuid_parse E (uuid_string E u) = Some u"
    and to_upper_ascii: "is_ascii s \<Longrightarrow> to_upper E s = map ascii_upper s"
    and equal_fold_refl: "equal_fold E s s"
    and equal_fold_sym: "equal_fold E s t \<Longrightarrow> equal_fold E t s"
    and equal_fold_ascii: "is_ascii s \<Longrightarrow> is_ascii t \<Longrightarrow>
          equal_fold E s t = (map ascii_lower s = map ascii_lower t)"
begin

lemma uuid_string_inj: "inj (uuid_string E)"
  by (rule injI) (metis option.inject uuid_parse_string)

lemmas roundings =
  rounding_nearest.axioms(1) [OF half_up] rounding_nearest.axioms(1) [OF bankers]
  rounding_floor.axioms(1) [OF floor_rounding] rounding_ceil.axioms(1) [OF ceil_rounding]
  rounding_truncate.axioms(1) [OF truncation]

end

section \<open>The rationals satisfy it\<close>

lemma scale10_pos [simp]: "0 < scale10 s" "scale10 s \<noteq> 0" "0 \<le> scale10 s"
  by (simp_all add: scale10_def)

lemma scale10_power: "10 ^ nat s = scale10 s"
  by (simp add: scale10_def)

lemma abs_scale10: "\<bar>x\<bar> * scale10 s = \<bar>x * scale10 s\<bar>"
  by (simp add: abs_mult)

lemma on_grid: "of_int i / scale10 s * 10 ^ nat s \<in> \<int>"
  by (simp add: scale10_def)

lemma sgn_on_grid: "sgn x * of_int i / scale10 s * 10 ^ nat s \<in> \<int>" for x :: rat
  by (cases "x = 0"; cases "0 < x") (simp_all add: scale10_def sgn_if)

lemma floor_half_error: "\<bar>of_int \<lfloor>y + 1 / 2\<rfloor> - y\<bar> \<le> 1 / 2" for y :: rat
  by linarith

lemma rat_round_error: "2 * (\<bar>rat_round x s - x\<bar> * 10 ^ nat s) \<le> 1"
proof -
  let ?y = "\<bar>x\<bar> * scale10 s"
  have "rat_round x s * scale10 s = sgn x * of_int \<lfloor>?y + 1 / 2\<rfloor>"
    by (simp add: rat_round_def)
  moreover have "x * scale10 s = sgn x * ?y"
    by (simp add: mult.assoc [symmetric] sgn_mult_abs)
  ultimately have "(rat_round x s - x) * scale10 s = sgn x * (of_int \<lfloor>?y + 1 / 2\<rfloor> - ?y)"
    by (simp only: left_diff_distrib right_diff_distrib)
  then have "\<bar>rat_round x s - x\<bar> * scale10 s = \<bar>sgn x\<bar> * \<bar>of_int \<lfloor>?y + 1 / 2\<rfloor> - ?y\<bar>"
    by (metis abs_mult abs_scale10)
  also have "\<dots> \<le> 1 * (1 / 2)"
    by (intro mult_mono floor_half_error) (simp_all add: abs_sgn_eq)
  finally show ?thesis by (simp add: scale10_def)
qed

lemma bank_error:
  fixes y :: rat
  defines "r \<equiv> y - of_int \<lfloor>y\<rfloor>"
  shows "\<bar>of_int (if r < 1 / 2 \<or> (r = 1 / 2 \<and> even \<lfloor>y\<rfloor>) then \<lfloor>y\<rfloor> else \<lfloor>y\<rfloor> + 1) - y\<bar> \<le> 1 / 2"
proof -
  have r: "0 \<le> r" "r < 1" and y: "y = of_int \<lfloor>y\<rfloor> + r" unfolding r_def by linarith+
  show ?thesis
  proof (cases "r < 1 / 2 \<or> (r = 1 / 2 \<and> even \<lfloor>y\<rfloor>)")
    case True
    then have "r \<le> 1 / 2" by linarith
    moreover have "of_int \<lfloor>y\<rfloor> - y = - r" using y by linarith
    ultimately show ?thesis using r True by simp
  next
    case False
    then have "1 / 2 \<le> r" by linarith
    moreover have "of_int (\<lfloor>y\<rfloor> + 1) - y = 1 - r" using y by simp
    ultimately show ?thesis using r False by simp
  qed
qed

lemma rat_round_bank_error: "2 * (\<bar>rat_round_bank x s - x\<bar> * 10 ^ nat s) \<le> 1"
proof -
  have "\<bar>rat_round_bank x s - x\<bar> * scale10 s = \<bar>rat_round_bank x s * scale10 s - x * scale10 s\<bar>"
    by (simp add: abs_scale10 left_diff_distrib)
  also have "\<dots> \<le> 1 / 2"
    using bank_error [of "x * scale10 s"] by (simp add: rat_round_bank_def Let_def)
  finally show ?thesis by (simp add: scale10_def)
qed

lemma rat_truncate_eq:
  "rat_truncate x s = (if 0 \<le> x then rat_round_floor x s else - rat_round_floor (- x) s)"
  by (cases "x = 0") (auto simp: rat_truncate_def rat_round_floor_def)

lemma rat_floor_bounds:
  "rat_round_floor x s \<le> x" "(x - rat_round_floor x s) * 10 ^ nat s < 1"
  "0 \<le> x \<Longrightarrow> 0 \<le> rat_round_floor x s"
proof -
  have f: "rat_round_floor x s * scale10 s = of_int \<lfloor>x * scale10 s\<rfloor>"
    by (simp add: rat_round_floor_def)
  then have "rat_round_floor x s * scale10 s \<le> x * scale10 s" by simp
  then show "rat_round_floor x s \<le> x" by simp
  have "(x - rat_round_floor x s) * scale10 s = x * scale10 s - of_int \<lfloor>x * scale10 s\<rfloor>"
    using f by (simp add: left_diff_distrib)
  also have "\<dots> < 1" by linarith
  finally show "(x - rat_round_floor x s) * 10 ^ nat s < 1" by (simp add: scale10_def)
  show "0 \<le> rat_round_floor x s" if "0 \<le> x" using that by (simp add: rat_round_floor_def)
qed

lemma rat_ceil_eq: "rat_round_ceil x s = - rat_round_floor (- x) s"
  by (simp add: rat_round_ceil_def rat_round_floor_def ceiling_def)

lemma rat_rounding_floor: "rounding_floor rat_round_floor"
proof
  fix s :: int and x :: rat
  show "rat_round_floor x s * 10 ^ nat s \<in> \<int>" unfolding rat_round_floor_def by (rule on_grid)
  show "\<bar>rat_round_floor x s - x\<bar> * 10 ^ nat s < 1"
    using rat_floor_bounds(1,2) [of x s] by (simp add: abs_if)
  show "rat_round_floor x s \<le> x" by (rule rat_floor_bounds)
qed

lemma rat_rounding_ceil: "rounding_ceil rat_round_ceil"
proof
  fix s :: int and x :: rat
  show "rat_round_ceil x s * 10 ^ nat s \<in> \<int>" unfolding rat_round_ceil_def by (rule on_grid)
  show "\<bar>rat_round_ceil x s - x\<bar> * 10 ^ nat s < 1"
    using rat_floor_bounds(1,2) [of "- x" s] by (simp add: rat_ceil_eq abs_if algebra_simps)
  show "x \<le> rat_round_ceil x s" using rat_floor_bounds(1) [of "- x" s] by (simp add: rat_ceil_eq)
qed

lemma rat_rounding_truncate: "rounding_truncate rat_truncate"
proof
  fix s :: int and x :: rat
  show "rat_truncate x s * 10 ^ nat s \<in> \<int>" unfolding rat_truncate_def by (rule sgn_on_grid)
  show "\<bar>rat_truncate x s - x\<bar> * 10 ^ nat s < 1"
    using rat_floor_bounds(1,2) [of x s] rat_floor_bounds(1,2) [of "- x" s]
    by (auto simp: rat_truncate_eq abs_if algebra_simps)
  show "\<bar>rat_truncate x s\<bar> \<le> \<bar>x\<bar>"
    using rat_floor_bounds(1,3) [of x s] rat_floor_bounds(1,3) [of "- x" s]
    by (auto simp: rat_truncate_eq abs_if)
qed

lemma half_lt_one: "2 * (a :: rat) \<le> 1 \<Longrightarrow> a < 1"
  by linarith

lemma rat_rounding_half_up: "rounding_nearest rat_round"
proof
  fix s :: int and x :: rat
  show "rat_round x s * 10 ^ nat s \<in> \<int>" unfolding rat_round_def by (rule sgn_on_grid)
  show "2 * (\<bar>rat_round x s - x\<bar> * 10 ^ nat s) \<le> 1" by (rule rat_round_error)
  then show "\<bar>rat_round x s - x\<bar> * 10 ^ nat s < 1" by (rule half_lt_one)
qed

lemma rat_rounding_bank: "rounding_nearest rat_round_bank"
proof
  fix s :: int and x :: rat
  show "rat_round_bank x s * 10 ^ nat s \<in> \<int>"
    unfolding rat_round_bank_def Let_def by (rule on_grid)
  show "2 * (\<bar>rat_round_bank x s - x\<bar> * 10 ^ nat s) \<le> 1" by (rule rat_round_bank_error)
  then show "\<bar>rat_round_bank x s - x\<bar> * 10 ^ nat s < 1" by (rule half_lt_one)
qed

lemma rat_div_close: "y \<noteq> 0 \<Longrightarrow> 2 * (\<bar>rat_div x y * y - x\<bar> * 10 ^ 16) \<le> \<bar>y\<bar>"
proof -
  assume y: "y \<noteq> 0"
  have "\<bar>rat_div x y * y - x\<bar> = \<bar>rat_round (x / y) 16 - x / y\<bar> * \<bar>y\<bar>"
    using y by (simp add: rat_div_def abs_mult [symmetric] left_diff_distrib)
  then have "2 * (\<bar>rat_div x y * y - x\<bar> * 10 ^ 16)
      = (2 * (\<bar>rat_round (x / y) 16 - x / y\<bar> * 10 ^ nat 16)) * \<bar>y\<bar>"
    by simp
  also have "\<dots> \<le> 1 * \<bar>y\<bar>" by (intro mult_right_mono rat_round_error) simp
  finally show ?thesis by simp
qed

lemma rat_new_exp: "0 \<le> n \<Longrightarrow> rat_new m (- n) * 10 ^ nat n = of_int m"
  by (simp add: rat_new_def scale10_def)

lemma rat_parse_defaults:
  "\<exists>d. rat_from_string ''0.50'' = Some d \<and> d * 100 = 50"
  "\<exists>d. rat_from_string ''0.005'' = Some d \<and> d * 1000 = 5"
proof -
  have "rat_from_string ''0.50'' = Some (1 / 2) \<and> 1 / 2 * 100 = (50 :: rat)"
    "rat_from_string ''0.005'' = Some (1 / 200) \<and> 1 / 200 * 1000 = (5 :: rat)"
    by (simp_all add: rat_from_string_def digit_value_def Let_def)
  then show "\<exists>d. rat_from_string ''0.50'' = Some d \<and> d * 100 = 50"
    and "\<exists>d. rat_from_string ''0.005'' = Some d \<and> d * 1000 = 5"
    by blast+
qed

subsection \<open>The text form of a UUID determines it\<close>

lemma hex_digit_inj: "hex_digit m = hex_digit n \<Longrightarrow> m mod 16 = n mod 16"
proof -
  have "\<forall>a \<in> set [0..<16]. \<forall>b \<in> set [0..<16]. hex_digit a = hex_digit b \<longrightarrow> a = b"
    by (simp add: hex_digit_def upt_rec del: upt_conv_Cons)
  moreover assume "hex_digit m = hex_digit n"
  then have "hex_digit (m mod 16) = hex_digit (n mod 16)" by (simp add: hex_digit_def)
  ultimately show ?thesis by simp
qed

lemma hex_digit_not_dash: "hex_digit n \<noteq> CHR ''-''"
proof -
  have "\<forall>a \<in> set [0..<16]. hex_digit a \<noteq> CHR ''-''"
    by (simp add: hex_digit_def upt_rec del: upt_conv_Cons)
  then have "hex_digit (n mod 16) \<noteq> CHR ''-''" by simp
  then show ?thesis by (simp add: hex_digit_def)
qed

lemma base16_unique:
  assumes "\<And>i. i < k \<Longrightarrow> m div 16 ^ i mod 16 = n div 16 ^ i mod 16"
  shows "m mod 16 ^ k = (n :: nat) mod 16 ^ k"
  using assms
proof (induction k)
  case 0
  then show ?case by simp
next
  case (Suc k)
  have "m mod 16 ^ Suc k = 16 ^ k * (m div 16 ^ k mod 16) + m mod 16 ^ k"
    by (simp add: mod_mult2_eq [of m "16 ^ k" 16, symmetric] mult.commute)
  moreover have "n mod 16 ^ Suc k = 16 ^ k * (n div 16 ^ k mod 16) + n mod 16 ^ k"
    by (simp add: mod_mult2_eq [of n "16 ^ k" 16, symmetric] mult.commute)
  ultimately show ?case using Suc.IH Suc.prems by simp
qed

lemma uuid_digits_nth: "i < 32 \<Longrightarrow> uuid_digits u ! i = hex_digit (unat u div 16 ^ (31 - i))"
  unfolding uuid_digits_def by (subst nth_map) (simp_all only: length_upt nth_upt, simp_all)

lemma uuid_digits_inj: "uuid_digits u = uuid_digits v \<Longrightarrow> u = v"
proof -
  assume eq: "uuid_digits u = uuid_digits v"
  have "unat u mod 16 ^ 32 = unat v mod 16 ^ 32"
  proof (rule base16_unique)
    fix i :: nat assume "i < 32"
    then have "uuid_digits u ! (31 - i) = uuid_digits v ! (31 - i)" and "31 - (31 - i) = i"
      using eq by simp_all
    then show "unat u div 16 ^ i mod 16 = unat v div 16 ^ i mod 16"
      using \<open>i < 32\<close> by (intro hex_digit_inj) (simp add: uuid_digits_nth)
  qed
  moreover have "unat u < 16 ^ 32" "unat v < 16 ^ 32"
    using unsigned_less [of u] unsigned_less [of v] by simp_all
  ultimately have "unat u = unat v" by (simp only: mod_less)
  then show ?thesis by (simp only: word_unat_eq_iff)
qed

lemma take_drop_split: "drop k h = take n (drop k h) @ drop (k + n) h"
  by (metis add.commute append_take_drop_id drop_drop)

lemma uuid_text_digits: "filter (\<lambda>c. c \<noteq> CHR ''-'') (uuid_text u) = uuid_digits u"
proof -
  define h where "h = uuid_digits u"
  have no_dash: "c \<noteq> CHR ''-''" if "c \<in> set h" for c
  proof -
    from that have "c \<in> (\<lambda>i. hex_digit (unat u div 16 ^ (31 - i))) ` set [0..<32]"
      unfolding h_def uuid_digits_def set_map .
    then obtain i where "c = hex_digit (unat u div 16 ^ (31 - i))" by (rule imageE)
    then show ?thesis by (simp only: hex_digit_not_dash not_False_eq_True)
  qed
  have keep: "filter (\<lambda>c. c \<noteq> CHR ''-'') (take n (drop k h)) = take n (drop k h)"
    "filter (\<lambda>c. c \<noteq> CHR ''-'') (drop k h) = drop k h" for n k
    by (rule filter_True; use no_dash in \<open>blast dest: in_set_takeD in_set_dropD\<close>)+
  have "h = take 8 h @ take 4 (drop 8 h) @ take 4 (drop 12 h) @ take 4 (drop 16 h) @ drop 20 h"
    using take_drop_split [of 0 h 8] take_drop_split [of 8 h 4] take_drop_split [of 12 h 4]
      take_drop_split [of 16 h 4] by simp
  then show ?thesis
    using keep keep(1) [of 8 0] by (simp add: uuid_text_def Let_def flip: h_def)
qed

lemma uuid_text_inj: "inj uuid_text"
  by (rule injI) (metis uuid_text_digits uuid_digits_inj)

lemma rat_externals: "externals rat_ext"
  unfolding rat_ext_def
  by (rule externals.intro; unfold ext.simps)
    (rule rat_rounding_half_up rat_rounding_bank rat_rounding_floor rat_rounding_ceil
      rat_rounding_truncate rat_div_close rat_new_exp rat_parse_defaults
     | simp add: uuid_text_inj)+

interpretation rat_lib: externals rat_ext
  by (rule rat_externals)

end
