(* ===== verification/Fee_Structure.thy ===== *)
theory Fee_Structure
  imports Externals
begin

text \<open>
  Package \<^verbatim>\<open>internal/shared/domain/fee\<close>, the files \<^verbatim>\<open>errors.go\<close>, \<^verbatim>\<open>money.go\<close> and
  \<^verbatim>\<open>fee_structure.go\<close>: currencies, money and the three fee structures. The Go interface
  \<^verbatim>\<open>FeeStructure\<close> is the datatype \<open>FeeStructure\<close> of its three implementations; what every
  implementation promises to the schedule calculator is the locale \<open>fee_structure\<close>.
\<close>

datatype fee_error =
    ErrNilFeeStructure | ErrInvalidCurrency | ErrCurrencyMismatch | ErrNegativeAmount
  | ErrInvalidPercentageRate | ErrInvalidTieredDefinition | ErrToleranceNegative
  | ErrScheduleTenantIDRequired | ErrScheduleNameRequired | ErrScheduleNameTooLong
  | ErrScheduleItemsRequired | ErrDuplicateItemPriority | ErrInvalidApplicationOrder
  | ErrFeeInvalidRoundingScale | ErrFeeInvalidRoundingMode | ErrItemNameRequired
  | ErrNilSchedule | ErrGrossConvergenceFailed
  | ErrFeeRuleNameRequired | ErrFeeRuleNameTooLong | ErrFeeRuleScheduleIDRequired
  | ErrFeeRuleContextIDRequired | ErrFeeRuleNotFound | ErrFeeRulePriorityNegative
  | ErrInvalidMatchingSide | ErrInvalidPredicateOperator | ErrPredicateFieldRequired
  | ErrPredicateFieldTooLong | ErrPredicateValueRequired | ErrPredicateValueForbidden
  | ErrPredicateValueTooLong | ErrPredicateValuesRequired | ErrPredicateValuesForbidden
  | ErrPredicateValuesTooMany | ErrFeeRuleTooManyPredicates
  | FlatFeeAssertion

section \<open>Money\<close>

definition validCurrencies :: "string set" where
  "validCurrencies = set
     [''AED'', ''AFN'', ''ALL'', ''AMD'', ''ANG'', ''AOA'', ''ARS'', ''AUD'', ''AWG'', ''AZN'',
      ''BAM'', ''BBD'', ''BDT'', ''BGN'', ''BHD'', ''BIF'', ''BMD'', ''BND'', ''BOB'', ''BRL'',
      ''BSD'', ''BTN'', ''BWP'', ''BYN'', ''BZD'', ''CAD'', ''CDF'', ''CHF'', ''CLP'', ''CNY'',
      ''COP'', ''CRC'', ''CUP'', ''CVE'', ''CZK'', ''DJF'', ''DKK'', ''DOP'', ''DZD'', ''EGP'',
      ''ERN'', ''ETB'', ''EUR'', ''FJD'', ''FKP'', ''GBP'', ''GEL'', ''GHS'', ''GIP'', ''GMD'',
      ''GNF'', ''GTQ'', ''GYD'', ''HKD'', ''HNL'', ''HTG'', ''HUF'', ''IDR'', ''ILS'', ''INR'',
      ''IQD'', ''IRR'', ''ISK'', ''JMD'', ''JOD'', ''JPY'', ''KES'', ''KGS'', ''KHR'', ''KMF'',
      ''KPW'', ''KRW'', ''KWD'', ''KYD'', ''KZT'', ''LAK'', ''LBP'', ''LKR'', ''LRD'', ''LSL'',
      ''LYD'', ''MAD'', ''MDL'', ''MGA'', ''MKD'', ''MMK'', ''MNT'', ''MOP'', ''MRU'', ''MUR'',
      ''MVR'', ''MWK'', ''MXN'', ''MYR'', ''MZN'', ''NAD'', ''NGN'', ''NIO'', ''NOK'', ''NPR'',
      ''NZD'', ''OMR'', ''PAB'', ''PEN'', ''PGK'', ''PHP'', ''PKR'', ''PLN'', ''PYG'', ''QAR'',
      ''RON'', ''RSD'', ''RUB'', ''RWF'', ''SAR'', ''SBD'', ''SCR'', ''SDG'', ''SEK'', ''SGD'',
      ''SHP'', ''SLE'', ''SOS'', ''SRD'', ''SSP'', ''STN'', ''SVC'', ''SYP'', ''SZL'', ''THB'',
      ''TJS'', ''TMT'', ''TND'', ''TOP'', ''TRY'', ''TTD'', ''TWD'', ''TZS'', ''UAH'', ''UGX'',
      ''USD'', ''UYU'', ''UZS'', ''VES'', ''VND'', ''VUV'', ''WST'', ''XAF'', ''XCD'', ''XOF'',
      ''XPF'', ''YER'', ''ZAR'', ''ZMW'', ''ZWL'']"

record 'd Money =
  m_Amount :: 'd
  m_Currency :: string

definition NormalizeCurrency :: "'d ext \<Rightarrow> string \<Rightarrow> fee_error + string" where
  "NormalizeCurrency E currency =
     (let normalized = to_upper E (TrimSpace currency) in
      if normalized = '''' then Inl ErrInvalidCurrency
      else if normalized \<notin> validCurrencies then Inl ErrInvalidCurrency
      else Inr normalized)"

definition NewMoney :: "'d ext \<Rightarrow> 'd \<Rightarrow> string \<Rightarrow> fee_error + 'd Money" where
  "NewMoney E amount currency =
     rbind (NormalizeCurrency E currency)
       (\<lambda>normalized. Inr \<lparr> m_Amount = amount, m_Currency = normalized \<rparr>)"

section \<open>Fee structures\<close>

record 'd Tier =
  t_UpTo :: "'d option"
  t_Rate :: 'd

datatype 'd FeeStructure =
    FlatFee 'd
  | PercentageFee 'd
  | TieredFee "'d Tier list"

text \<open>The loop of \<^verbatim>\<open>TieredFee.Validate\<close>; the result is the error, \<open>None\<close> for nil.\<close>

fun validate_tiers :: "'d::linordered_idom \<Rightarrow> bool \<Rightarrow> 'd Tier list \<Rightarrow> fee_error option" where
  "validate_tiers prevUpper seenInfinite [] = None"
| "validate_tiers prevUpper seenInfinite (tier # tiers) =
     (if seenInfinite then Some ErrInvalidTieredDefinition
      else if t_Rate tier < 0 \<or> t_Rate tier > 1 then Some ErrInvalidTieredDefinition
      else case t_UpTo tier of
             None \<Rightarrow> validate_tiers prevUpper True tiers
           | Some upper \<Rightarrow>
               if upper \<le> 0 then Some ErrInvalidTieredDefinition
               else if upper \<le> prevUpper then Some ErrInvalidTieredDefinition
               else validate_tiers upper seenInfinite tiers)"

fun Validate :: "'d::linordered_idom FeeStructure \<Rightarrow> fee_error option" where
  "Validate (FlatFee amount) = (if amount < 0 then Some FlatFeeAssertion else None)"
| "Validate (PercentageFee rate) =
     (if rate < 0 then Some ErrInvalidPercentageRate
      else if rate > 1 then Some ErrInvalidPercentageRate
      else None)"
| "Validate (TieredFee tiers) =
     (if tiers = [] then Some ErrInvalidTieredDefinition else validate_tiers 0 False tiers)"

definition calculateTierCap :: "'d::linordered_idom Tier \<Rightarrow> 'd \<Rightarrow> 'd \<Rightarrow> 'd" where
  "calculateTierCap tier lower remaining =
     (case t_UpTo tier of
        None \<Rightarrow> remaining
      | Some upper \<Rightarrow>
          (let maxInBracket = upper - lower in
           if maxInBracket \<le> 0 then 0
           else if remaining > maxInBracket then maxInBracket
           else remaining))"

fun tier_loop :: "'d::linordered_idom \<Rightarrow> 'd \<Rightarrow> 'd \<Rightarrow> 'd Tier list \<Rightarrow> 'd" where
  "tier_loop remaining acc lower [] = acc"
| "tier_loop remaining acc lower (tier # tiers) =
     (if remaining \<le> 0 then acc
      else
        let tierCap = calculateTierCap tier lower remaining in
        if tierCap \<le> 0 then tier_loop remaining acc lower tiers
        else tier_loop (remaining - tierCap) (acc + tierCap * t_Rate tier)
               (case t_UpTo tier of None \<Rightarrow> lower | Some upper \<Rightarrow> upper) tiers)"

fun Calculate :: "'d::linordered_idom FeeStructure \<Rightarrow> 'd \<Rightarrow> fee_error + 'd" where
  "Calculate (FlatFee amount) baseAmount =
     (case Validate (FlatFee amount) of Some e \<Rightarrow> Inl e | None \<Rightarrow> Inr amount)"
| "Calculate (PercentageFee rate) baseAmount =
     (if baseAmount < 0 then Inl ErrNegativeAmount
      else case Validate (PercentageFee rate) of
             Some e \<Rightarrow> Inl e
           | None \<Rightarrow> Inr (baseAmount * rate))"
| "Calculate (TieredFee tiers) baseAmount =
     (if baseAmount < 0 then Inl ErrNegativeAmount
      else case Validate (TieredFee tiers) of
             Some e \<Rightarrow> Inl e
           | None \<Rightarrow> Inr (tier_loop baseAmount 0 0 tiers))"

text \<open>
  The reference for the tiered structure: every tier charges its rate on the part of the
  amount that lies in its bracket \<open>(lower, upper]\<close>.
\<close>

definition in_bracket :: "'d::linordered_idom \<Rightarrow> 'd option \<Rightarrow> 'd \<Rightarrow> 'd" where
  "in_bracket lower upper amount =
     max 0 ((case upper of None \<Rightarrow> amount | Some u \<Rightarrow> min amount u) - lower)"

fun marginal_fee :: "'d::linordered_idom \<Rightarrow> 'd Tier list \<Rightarrow> 'd \<Rightarrow> 'd" where
  "marginal_fee lower [] amount = 0"
| "marginal_fee lower (tier # tiers) amount =
     t_Rate tier * in_bracket lower (t_UpTo tier) amount +
     (case t_UpTo tier of None \<Rightarrow> 0 | Some upper \<Rightarrow> marginal_fee upper tiers amount)"

section \<open>Currencies\<close>

lemma validCurrencies_letters:
  "\<forall>c \<in> validCurrencies. c \<noteq> [] \<and> (\<forall>x \<in> set c. 65 \<le> (of_char x :: nat) \<and> of_char x \<le> (90 :: nat))"
  by (simp add: validCurrencies_def)

lemma NormalizeCurrency_ok:
  "NormalizeCurrency E c = Inr c' \<longleftrightarrow> c' = to_upper E (TrimSpace c) \<and> c' \<in> validCurrencies"
  using validCurrencies_letters by (auto simp: NormalizeCurrency_def Let_def)

lemma validCurrencies_fixed:
  assumes "c \<in> validCurrencies"
  shows "TrimSpace c = c" "map ascii_upper c = c" "is_ascii c"
proof -
  have c: "c \<noteq> []" "\<And>x. x \<in> set c \<Longrightarrow> 65 \<le> (of_char x :: nat) \<and> of_char x \<le> (90 :: nat)"
    using assms validCurrencies_letters by blast+
  have "visible x" if "x \<in> set c" for x using c(2) [OF that] by (simp add: visible_def)
  then show "TrimSpace c = c" using c(1) by (intro TrimSpace_visible) simp_all
  show "map ascii_upper c = c"
    using c(2) by (intro map_idI) (force simp: ascii_upper_def)
  show "is_ascii c" using c(2) by (force simp: is_ascii_def)
qed

context externals
begin

lemma NormalizeCurrency_valid: "c \<in> validCurrencies \<Longrightarrow> NormalizeCurrency E c = Inr c"
  using validCurrencies_fixed [of c] to_upper_ascii [of c] by (simp add: NormalizeCurrency_ok)

lemma NormalizeCurrency_idem: "NormalizeCurrency E c = Inr c' \<Longrightarrow> NormalizeCurrency E c' = Inr c'"
  by (rule NormalizeCurrency_valid) (auto simp: NormalizeCurrency_ok)

end

section \<open>Tiers\<close>

text \<open>A validated tier list from \<open>prev\<close> on: rates in \<open>[0, 1]\<close>, bounds strictly increasing,
  only the last one open.\<close>

lemma validate_tiers_Cons:
  "0 \<le> prev \<Longrightarrow> validate_tiers prev False (t # ts) = None \<longleftrightarrow>
     0 \<le> t_Rate t \<and> t_Rate t \<le> 1 \<and>
     (case t_UpTo t of None \<Rightarrow> ts = [] | Some u \<Rightarrow> prev < u \<and> validate_tiers u False ts = None)"
  by (cases ts) (auto split: option.splits)

declare validate_tiers.simps(2) [simp del]

lemma in_bracket_bounds:
  "0 \<le> in_bracket l u a" "in_bracket l u a \<le> max 0 (a - l)"
  by (auto simp: in_bracket_def split: option.splits)

lemma marginal_fee_below: "a \<le> lower \<Longrightarrow> validate_tiers lower False ts = None \<Longrightarrow> 0 \<le> lower \<Longrightarrow>
   marginal_fee lower ts a = 0"
proof (induction ts arbitrary: lower)
  case Nil
  then show ?case by simp
next
  case (Cons t ts)
  then have "in_bracket lower (t_UpTo t) a = 0"
    by (auto simp: in_bracket_def max_def min_def split: option.splits)
  with Cons show ?case by (auto simp: validate_tiers_Cons split: option.splits)
qed

text \<open>The loop of \<^verbatim>\<open>TieredFee.Calculate\<close> computes the marginal fee.\<close>

lemma tier_loop_marginal:
  "validate_tiers lower False ts = None \<Longrightarrow> 0 \<le> lower \<Longrightarrow> 0 \<le> r \<Longrightarrow>
   tier_loop r acc lower ts = acc + marginal_fee lower ts (lower + r)"
proof (induction ts arbitrary: r acc lower)
  case Nil
  then show ?case by simp
next
  case (Cons t ts)
  show ?case
  proof (cases "r = 0")
    case True
    then show ?thesis using Cons.prems marginal_fee_below [of lower lower "t # ts"] by simp
  next
    case False
    with Cons.prems have r: "0 < r" by simp
    show ?thesis
    proof (cases "t_UpTo t")
      case None
      with Cons.prems r show ?thesis
        by (auto simp: validate_tiers_Cons calculateTierCap_def in_bracket_def mult.commute)
    next
      case (Some u)
      with Cons.prems have u: "lower < u" "validate_tiers u False ts = None"
        by (auto simp: validate_tiers_Cons)
      then have "0 \<le> u" using Cons.prems by simp
      show ?thesis
      proof (cases "u - lower < r")
        case True
        with Some u r Cons.IH [of u "r - (u - lower)"] \<open>0 \<le> u\<close> show ?thesis
          by (simp add: calculateTierCap_def in_bracket_def mult.commute add.commute)
      next
        case False
        with Some u r Cons.IH [of u 0] \<open>0 \<le> u\<close> marginal_fee_below [of "lower + r" u ts]
          marginal_fee_below [of u u ts] show ?thesis
          by (simp add: calculateTierCap_def in_bracket_def mult.commute)
      qed
    qed
  qed
qed

text \<open>Between two amounts the marginal fee grows, and by no more than the amount does.\<close>

lemma marginal_fee_slope:
  "validate_tiers lower False ts = None \<Longrightarrow> 0 \<le> lower \<Longrightarrow> a \<le> b \<Longrightarrow>
   0 \<le> marginal_fee lower ts b - marginal_fee lower ts a \<and>
   marginal_fee lower ts b - marginal_fee lower ts a \<le> max 0 (b - lower) - max 0 (a - lower)"
proof (induction ts arbitrary: lower)
  case Nil
  then show ?case by (simp add: max_def)
next
  case (Cons t ts)
  let ?d = "in_bracket lower (t_UpTo t) b - in_bracket lower (t_UpTo t) a"
  from Cons.prems have rate: "0 \<le> t_Rate t" "t_Rate t \<le> 1" by (auto simp: validate_tiers_Cons)
  have d: "0 \<le> ?d" using Cons.prems(3)
    by (auto simp: in_bracket_def max_def min_def split: option.splits)
  have fee: "0 \<le> t_Rate t * ?d" "t_Rate t * ?d \<le> ?d"
    using rate d by (simp_all add: mult_left_le_one_le)
  show ?case
  proof (cases "t_UpTo t")
    case None
    with fee show ?thesis by (simp add: in_bracket_def right_diff_distrib)
  next
    case (Some u)
    with Cons.prems have u: "lower < u" "validate_tiers u False ts = None" "0 \<le> u"
      by (auto simp: validate_tiers_Cons)
    have "?d + (max 0 (b - u) - max 0 (a - u)) = max 0 (b - lower) - max 0 (a - lower)"
      using Some u(1) Cons.prems(3) by (simp add: in_bracket_def max_def min_def)
    with fee Cons.IH [OF u(2,3) Cons.prems(3)] Some show ?thesis
      by (simp add: right_diff_distrib)
  qed
qed

section \<open>The contract of a fee structure\<close>

text \<open>
  What \<^verbatim>\<open>FeeStructure\<close> gives its callers: a fee is returned only by a structure that
  validates; a validated structure charges every non-negative amount; the fee is
  non-negative and grows with the amount, but never faster than it.
\<close>

locale fee_structure =
  fixes calculate :: "'s \<Rightarrow> 'd::linordered_idom \<Rightarrow> 'e + 'd"
    and validate :: "'s \<Rightarrow> 'e option"
  assumes only_valid: "calculate s b = Inr f \<Longrightarrow> validate s = None"
    and charges: "validate s = None \<Longrightarrow> 0 \<le> b \<Longrightarrow> is_ok (calculate s b)"
    and fee_nonneg: "calculate s b = Inr f \<Longrightarrow> 0 \<le> f"
    and fee_mono: "calculate s a = Inr f \<Longrightarrow> calculate s b = Inr g \<Longrightarrow> a \<le> b \<Longrightarrow> f \<le> g"
    and net_mono: "calculate s a = Inr f \<Longrightarrow> calculate s b = Inr g \<Longrightarrow> a \<le> b \<Longrightarrow> a - f \<le> b - g"
begin

lemma charges_iff: "0 \<le> b \<Longrightarrow> is_ok (calculate s b) \<longleftrightarrow> validate s = None"
  using charges only_valid by (auto simp: is_ok_iff)

lemma fee_lipschitz:
  "calculate s a = Inr f \<Longrightarrow> calculate s b = Inr g \<Longrightarrow> \<bar>f - g\<bar> \<le> \<bar>a - b\<bar>"
  using fee_mono [of s a f b g] net_mono [of s a f b g] fee_mono [of s b g a f]
    net_mono [of s b g a f]
  by (cases "a \<le> b") (auto simp: abs_if)

end

lemma Calculate_only_valid: "Calculate s b = Inr f \<Longrightarrow> Validate s = None"
  by (cases s) (auto split: option.splits if_splits)

lemma Calculate_charges: "Validate s = None \<Longrightarrow> 0 \<le> b \<Longrightarrow> is_ok (Calculate s b)"
  by (cases s) (auto split: if_splits)

lemma Calculate_tiered:
  "Calculate (TieredFee ts) b = Inr f \<Longrightarrow>
   0 \<le> b \<and> validate_tiers 0 False ts = None \<and> f = marginal_fee 0 ts b"
  by (auto simp: tier_loop_marginal split: if_splits option.splits)

lemma Calculate_slope:
  assumes "Calculate s a = Inr f" "Calculate s b = Inr g" "a \<le> b"
  shows "f \<le> g \<and> a - f \<le> b - g"
proof (cases s)
  case (FlatFee x)
  with assms show ?thesis by (auto split: if_splits)
next
  case (PercentageFee r)
  with assms have r: "0 \<le> r" "r \<le> 1" "f = a * r" "g = b * r"
    by (auto split: if_splits)
  have "0 \<le> (b - a) * r" "(b - a) * r \<le> b - a"
    using r assms(3) by (simp_all add: mult_right_le_one_le)
  then show ?thesis using r by (simp add: left_diff_distrib)
next
  case (TieredFee ts)
  with assms have "0 \<le> a" "0 \<le> b" "validate_tiers 0 False ts = None"
      and fg: "f = marginal_fee 0 ts a" "g = marginal_fee 0 ts b"
    using Calculate_tiered by blast+
  with marginal_fee_slope [of 0 ts a b] assms(3) show ?thesis by simp
qed

lemma Calculate_nonneg: "Calculate s b = Inr f \<Longrightarrow> 0 \<le> f"
proof (cases s)
  case (TieredFee ts)
  assume "Calculate s b = Inr f"
  with TieredFee have "0 \<le> b" "validate_tiers 0 False ts = None" "f = marginal_fee 0 ts b"
    using Calculate_tiered by blast+
  with marginal_fee_slope [of 0 ts 0 b] marginal_fee_below [of 0 0 ts] show ?thesis by simp
qed (auto split: if_splits)

interpretation fee: fee_structure Calculate Validate
  by unfold_locales
    (auto intro: Calculate_only_valid Calculate_charges Calculate_nonneg dest: Calculate_slope)

section \<open>Properties\<close>

text \<open>
  C13: On a validated tiered structure and a non-negative amount, \<^verbatim>\<open>TieredFee.Calculate\<close> returns
  the marginal fee: each tier charges its rate on the part of the amount inside its bracket.
\<close>

theorem TieredFee_Calculate_marginal:
  assumes "Validate (TieredFee tiers) = None" "0 \<le> baseAmount"
  shows "Calculate (TieredFee tiers) baseAmount = Inr (marginal_fee 0 tiers baseAmount)"
  using assms by (auto simp: tier_loop_marginal split: if_splits)

theorem TieredFee_Calculate_marginal_witness:
  "Calculate (TieredFee [\<lparr> t_UpTo = Some 100, t_Rate = 1 / 10 \<rparr>, \<lparr> t_UpTo = None, t_Rate = 1 / 20 \<rparr>]) (300 :: rat)
   = Inr 20"
  using TieredFee_Calculate_marginal
    [of "[\<lparr> t_UpTo = Some 100, t_Rate = 1 / 10 \<rparr>, \<lparr> t_UpTo = None, t_Rate = 1 / 20 \<rparr>]" "300 :: rat"]
  by (simp add: validate_tiers.simps in_bracket_def)

text \<open>
  C30: Every validated fee structure charges every non-negative amount; the fee is not negative,
  and of two amounts the larger pays at least as much but never so much more that it would be
  left with less net.
\<close>

theorem Calculate_monotone_nonexpansive:
  assumes "Validate s = None" "0 \<le> a" "a \<le> b"
  shows "\<exists>f g. Calculate s a = Inr f \<and> Calculate s b = Inr g \<and> 0 \<le> f \<and> f \<le> g \<and> g - f \<le> b - a"
proof -
  obtain f g where fg: "Calculate s a = Inr f" "Calculate s b = Inr g"
    using fee.charges [of s a] fee.charges [of s b] assms by (auto simp: is_ok_iff)
  with fee.fee_nonneg [OF fg(1)] fee.fee_mono [OF fg assms(3)] fee.net_mono [OF fg assms(3)]
  show ?thesis by (auto simp: algebra_simps)
qed

theorem Calculate_monotone_nonexpansive_witness:
  "\<exists>f g. Calculate (PercentageFee (1 / 4)) (8 :: rat) = Inr f \<and>
         Calculate (PercentageFee (1 / 4)) (12 :: rat) = Inr g \<and> 0 \<le> f \<and> f \<le> g \<and> g - f \<le> 4"
  using Calculate_monotone_nonexpansive [of "PercentageFee (1 / 4)" 8 "12 :: rat"] by simp

end
