(* ===== verification/Fee_Schedule.thy ===== *)
theory Fee_Schedule
  imports Go_Sort Fee_Structure
begin

text \<open>
  Package \<^verbatim>\<open>internal/shared/domain/fee\<close>, the files \<^verbatim>\<open>fee_schedule.go\<close>,
  \<^verbatim>\<open>schedule_calculator.go\<close> and \<^verbatim>\<open>normalization.go\<close>: schedules of fee items, their
  application to a gross amount in parallel or in cascade, and the iteration that finds the
  gross amount behind a net amount. A schedule built by \<^verbatim>\<open>NewFeeSchedule\<close> satisfies
  \<open>schedule_wf\<close>, and every well-formed schedule can be applied to every non-negative amount in
  its currency.
\<close>

datatype ApplicationOrder =
  ApplicationOrderParallel | ApplicationOrderCascading | ApplicationOrderOther string

fun ApplicationOrder_IsValid :: "ApplicationOrder \<Rightarrow> bool" where
  "ApplicationOrder_IsValid ApplicationOrderParallel = True"
| "ApplicationOrder_IsValid ApplicationOrderCascading = True"
| "ApplicationOrder_IsValid (ApplicationOrderOther _) = False"

datatype FeeRoundingMode =
    RoundingModeHalfUp | RoundingModeBankers | RoundingModeFloor | RoundingModeCeil
  | RoundingModeTruncate | RoundingModeOther string

fun FeeRoundingMode_IsValid :: "FeeRoundingMode \<Rightarrow> bool" where
  "FeeRoundingMode_IsValid (RoundingModeOther _) = False"
| "FeeRoundingMode_IsValid _ = True"

datatype NormalizationMode =
  NormalizationModeNone | NormalizationModeNet | NormalizationModeGross | NormalizationModeOther string

fun NormalizationMode_IsValid :: "NormalizationMode \<Rightarrow> bool" where
  "NormalizationMode_IsValid (NormalizationModeOther _) = False"
| "NormalizationMode_IsValid _ = True"

record 'd FeeScheduleItem =
  fi_ID :: uuid
  fi_Name :: string
  fi_Priority :: int
  fi_Structure :: "'d FeeStructure option"
  fi_CreatedAt :: time
  fi_UpdatedAt :: time

record 'd FeeSchedule =
  fs_ID :: uuid
  fs_TenantID :: uuid
  fs_Name :: string
  fs_Currency :: string
  fs_ApplicationOrder :: ApplicationOrder
  fs_RoundingScale :: int
  fs_RoundingMode :: FeeRoundingMode
  fs_Items :: "'d FeeScheduleItem list"
  fs_CreatedAt :: time
  fs_UpdatedAt :: time

record 'd FeeScheduleItemInput =
  ii_Name :: string
  ii_Priority :: int
  ii_Structure :: "'d FeeStructure option"

record 'd NewFeeScheduleInput =
  si_TenantID :: uuid
  si_Name :: string
  si_Currency :: string
  si_ApplicationOrder :: ApplicationOrder
  si_RoundingScale :: int
  si_RoundingMode :: FeeRoundingMode
  si_Items :: "'d FeeScheduleItemInput list"

definition maxScheduleNameLength :: nat where
  "maxScheduleNameLength = 100"

definition maxRoundingScale :: int where
  "maxRoundingScale = 10"

section \<open>Construction\<close>

text \<open>\<open>newID i\<close> is what the \<open>i\<close>-th call of \<^verbatim>\<open>uuid.New()\<close> returns.\<close>

fun build_items :: "time \<Rightarrow> (nat \<Rightarrow> uuid) \<Rightarrow> nat \<Rightarrow> int set \<Rightarrow>
    'd::linordered_idom FeeScheduleItemInput list \<Rightarrow> fee_error + 'd FeeScheduleItem list" where
  "build_items now newID i seenPriorities [] = Inr []"
| "build_items now newID i seenPriorities (inp # inputs) =
     (if ii_Name inp = '''' then Inl ErrItemNameRequired
      else case ii_Structure inp of
             None \<Rightarrow> Inl ErrNilFeeStructure
           | Some structure \<Rightarrow>
               (case Validate structure of
                  Some e \<Rightarrow> Inl e
                | None \<Rightarrow>
                    if ii_Priority inp \<in> seenPriorities then Inl ErrDuplicateItemPriority
                    else rbind (build_items now newID (Suc i)
                                  (insert (ii_Priority inp) seenPriorities) inputs)
                           (\<lambda>items. Inr (\<lparr> fi_ID = newID i, fi_Name = ii_Name inp,
                                            fi_Priority = ii_Priority inp,
                                            fi_Structure = Some structure,
                                            fi_CreatedAt = now, fi_UpdatedAt = now \<rparr> # items))))"

definition buildScheduleItems :: "time \<Rightarrow> (nat \<Rightarrow> uuid) \<Rightarrow>
    'd::linordered_idom FeeScheduleItemInput list \<Rightarrow> fee_error + 'd FeeScheduleItem list" where
  "buildScheduleItems now newID inputs = build_items now newID 0 {} inputs"

definition NewFeeSchedule :: "'d::linordered_idom ext \<Rightarrow> time \<Rightarrow> time \<Rightarrow> (nat \<Rightarrow> uuid) \<Rightarrow> uuid \<Rightarrow>
    'd NewFeeScheduleInput \<Rightarrow> fee_error + 'd FeeSchedule" where
  "NewFeeSchedule E itemsNow now itemID newID input =
     (let trimmedName = TrimSpace (si_Name input) in
      if si_TenantID input = 0 then Inl ErrScheduleTenantIDRequired
      else if trimmedName = '''' then Inl ErrScheduleNameRequired
      else if length trimmedName > maxScheduleNameLength then Inl ErrScheduleNameTooLong
      else rbind (NormalizeCurrency E (si_Currency input)) (\<lambda>currency.
        if \<not> ApplicationOrder_IsValid (si_ApplicationOrder input) then Inl ErrInvalidApplicationOrder
        else if \<not> (0 \<le> si_RoundingScale input \<and> si_RoundingScale input \<le> maxRoundingScale)
          then Inl ErrFeeInvalidRoundingScale
        else if \<not> FeeRoundingMode_IsValid (si_RoundingMode input) then Inl ErrFeeInvalidRoundingMode
        else if si_Items input = [] then Inl ErrScheduleItemsRequired
        else rbind (buildScheduleItems itemsNow itemID (si_Items input)) (\<lambda>items.
          Inr \<lparr> fs_ID = newID, fs_TenantID = si_TenantID input, fs_Name = trimmedName,
                fs_Currency = currency, fs_ApplicationOrder = si_ApplicationOrder input,
                fs_RoundingScale = si_RoundingScale input, fs_RoundingMode = si_RoundingMode input,
                fs_Items = items, fs_CreatedAt = now, fs_UpdatedAt = now \<rparr>)))"

section \<open>Application to a gross amount\<close>

record 'd ItemFee =
  if_ItemID :: uuid
  if_ItemName :: string
  if_Fee :: "'d Money"
  if_BaseUsed :: "'d Money"

record 'd FeeBreakdown =
  fb_TotalFee :: "'d Money"
  fb_NetAmount :: "'d Money"
  fb_ItemFees :: "'d ItemFee list"

definition fee_roundAmount :: "'d ext \<Rightarrow> 'd \<Rightarrow> int \<Rightarrow> FeeRoundingMode \<Rightarrow> 'd" where
  "fee_roundAmount E amount scale mode =
     (let scale = (if scale < 0 then 0 else scale);
          scale = (if scale > maxRoundingScale then maxRoundingScale else scale) in
      case mode of
        RoundingModeHalfUp \<Rightarrow> dec_round E amount scale
      | RoundingModeBankers \<Rightarrow> dec_round_bank E amount scale
      | RoundingModeFloor \<Rightarrow> dec_round_floor E amount scale
      | RoundingModeCeil \<Rightarrow> dec_round_ceil E amount scale
      | RoundingModeTruncate \<Rightarrow> dec_truncate E amount scale
      | RoundingModeOther _ \<Rightarrow> dec_round E amount scale)"

text \<open>
  \<^verbatim>\<open>sort.Slice\<close> is not stable; on the distinct priorities of a well-formed schedule the sorted
  permutation is unique (\<open>sorted_items_unique\<close>), so the stable sort stands for it.
\<close>

definition sortItemsByPriority :: "'d FeeScheduleItem list \<Rightarrow> 'd FeeScheduleItem list" where
  "sortItemsByPriority items = SliceStable (key_lt fi_Priority) items"

fun parallel_loop :: "'d::linordered_idom ext \<Rightarrow> 'd \<Rightarrow> int \<Rightarrow> FeeRoundingMode \<Rightarrow> string \<Rightarrow>
    'd \<Rightarrow> 'd FeeScheduleItem list \<Rightarrow> fee_error + 'd \<times> 'd ItemFee list" where
  "parallel_loop E gross scale mode currency totalFee [] = Inr (totalFee, [])"
| "parallel_loop E gross scale mode currency totalFee (item # items) =
     (case fi_Structure item of
        None \<Rightarrow> Inl ErrNilFeeStructure
      | Some structure \<Rightarrow>
          rbind (Calculate structure gross) (\<lambda>itemFee.
            let roundedFee = fee_roundAmount E itemFee scale mode in
            rbind (parallel_loop E gross scale mode currency (totalFee + roundedFee) items)
              (\<lambda>(result, itemFees).
                Inr (result,
                     \<lparr> if_ItemID = fi_ID item, if_ItemName = fi_Name item,
                       if_Fee = \<lparr> m_Amount = roundedFee, m_Currency = currency \<rparr>,
                       if_BaseUsed = \<lparr> m_Amount = gross, m_Currency = currency \<rparr> \<rparr> # itemFees))))"

definition calculateParallel :: "'d::linordered_idom ext \<Rightarrow> 'd Money \<Rightarrow> 'd FeeScheduleItem list \<Rightarrow>
    int \<Rightarrow> FeeRoundingMode \<Rightarrow> string \<Rightarrow> fee_error + 'd FeeBreakdown" where
  "calculateParallel E gross items scale mode currency =
     rbind (parallel_loop E (m_Amount gross) scale mode currency 0 items) (\<lambda>(totalFee, itemFees).
       Inr \<lparr> fb_TotalFee = \<lparr> m_Amount = totalFee, m_Currency = currency \<rparr>,
             fb_NetAmount = \<lparr> m_Amount = m_Amount gross - totalFee, m_Currency = currency \<rparr>,
             fb_ItemFees = itemFees \<rparr>)"

fun cascading_loop :: "'d::linordered_idom ext \<Rightarrow> int \<Rightarrow> FeeRoundingMode \<Rightarrow> string \<Rightarrow>
    'd \<Rightarrow> 'd \<Rightarrow> 'd FeeScheduleItem list \<Rightarrow> fee_error + 'd \<times> 'd \<times> 'd ItemFee list" where
  "cascading_loop E scale mode currency currentBase totalFee [] = Inr (currentBase, totalFee, [])"
| "cascading_loop E scale mode currency currentBase totalFee (item # items) =
     (case fi_Structure item of
        None \<Rightarrow> Inl ErrNilFeeStructure
      | Some structure \<Rightarrow>
          rbind (Calculate structure currentBase) (\<lambda>fee.
            let roundedFee = fee_roundAmount E fee scale mode;
                nextBase = (if currentBase - roundedFee < 0 then 0 else currentBase - roundedFee) in
            rbind (cascading_loop E scale mode currency nextBase (totalFee + roundedFee) items)
              (\<lambda>(net, result, itemFees).
                Inr (net, result,
                     \<lparr> if_ItemID = fi_ID item, if_ItemName = fi_Name item,
                       if_Fee = \<lparr> m_Amount = roundedFee, m_Currency = currency \<rparr>,
                       if_BaseUsed = \<lparr> m_Amount = currentBase, m_Currency = currency \<rparr> \<rparr> # itemFees))))"

definition calculateCascading :: "'d::linordered_idom ext \<Rightarrow> 'd Money \<Rightarrow> 'd FeeScheduleItem list \<Rightarrow>
    int \<Rightarrow> FeeRoundingMode \<Rightarrow> string \<Rightarrow> fee_error + 'd FeeBreakdown" where
  "calculateCascading E gross items scale mode currency =
     rbind (cascading_loop E scale mode currency (m_Amount gross) 0 items)
       (\<lambda>(currentBase, totalFee, itemFees).
         Inr \<lparr> fb_TotalFee = \<lparr> m_Amount = totalFee, m_Currency = currency \<rparr>,
               fb_NetAmount = \<lparr> m_Amount = currentBase, m_Currency = currency \<rparr>,
               fb_ItemFees = itemFees \<rparr>)"

definition CalculateSchedule :: "'d::linordered_idom ext \<Rightarrow> 'd Money \<Rightarrow> 'd FeeSchedule option \<Rightarrow>
    fee_error + 'd FeeBreakdown" where
  "CalculateSchedule E gross sched =
     (case sched of
        None \<Rightarrow> Inl ErrNilSchedule
      | Some schedule \<Rightarrow>
          rbind (NormalizeCurrency E (m_Currency gross)) (\<lambda>grossCurrency.
          rbind (NormalizeCurrency E (fs_Currency schedule)) (\<lambda>scheduleCurrency.
            if grossCurrency \<noteq> scheduleCurrency then Inl ErrCurrencyMismatch
            else
              let sorted = sortItemsByPriority (fs_Items schedule) in
              case fs_ApplicationOrder schedule of
                ApplicationOrderParallel \<Rightarrow>
                  calculateParallel E gross sorted (fs_RoundingScale schedule)
                    (fs_RoundingMode schedule) grossCurrency
              | ApplicationOrderCascading \<Rightarrow>
                  calculateCascading E gross sorted (fs_RoundingScale schedule)
                    (fs_RoundingMode schedule) grossCurrency
              | ApplicationOrderOther _ \<Rightarrow> Inl ErrInvalidApplicationOrder)))"

section \<open>Gross from net\<close>

definition maxIterations :: nat where
  "maxIterations = 100"

definition convergencePrecision :: int where
  "convergencePrecision = 10"

text \<open>The loop of \<^verbatim>\<open>CalculateGrossFromNet\<close>; the first argument counts the iterations left.\<close>

fun gross_loop :: "nat \<Rightarrow> 'd::linordered_idom ext \<Rightarrow> 'd Money \<Rightarrow> 'd FeeSchedule \<Rightarrow> 'd \<Rightarrow>
    fee_error + 'd Money \<times> 'd FeeBreakdown" where
  "gross_loop 0 E net schedule grossEstimate = Inl ErrGrossConvergenceFailed"
| "gross_loop (Suc n) E net schedule grossEstimate =
     rbind (NewMoney E grossEstimate (m_Currency net)) (\<lambda>grossMoney.
     rbind (CalculateSchedule E grossMoney (Some schedule)) (\<lambda>breakdown.
       let impliedNet = grossEstimate - m_Amount (fb_TotalFee breakdown);
           diff = \<bar>impliedNet - m_Amount net\<bar> in
       if diff \<le> dec_new E 1 (- convergencePrecision) then Inr (grossMoney, breakdown)
       else gross_loop n E net schedule (m_Amount net + m_Amount (fb_TotalFee breakdown))))"

definition CalculateGrossFromNet :: "'d::linordered_idom ext \<Rightarrow> 'd Money \<Rightarrow> 'd FeeSchedule option \<Rightarrow>
    fee_error + 'd Money \<times> 'd FeeBreakdown" where
  "CalculateGrossFromNet E net sched =
     (case sched of
        None \<Rightarrow> Inl ErrNilSchedule
      | Some schedule \<Rightarrow>
          rbind (NormalizeCurrency E (m_Currency net)) (\<lambda>normNet.
          rbind (NormalizeCurrency E (fs_Currency schedule)) (\<lambda>normSched.
            if normNet \<noteq> normSched then Inl ErrCurrencyMismatch
            else gross_loop maxIterations E net schedule (m_Amount net))))"

text \<open>What \<^verbatim>\<open>NewFeeSchedule\<close> establishes.\<close>

definition item_wf :: "'d::linordered_idom FeeScheduleItem \<Rightarrow> bool" where
  "item_wf item = (\<exists>s. fi_Structure item = Some s \<and> Validate s = None)"

definition schedule_wf :: "'d::linordered_idom FeeSchedule \<Rightarrow> bool" where
  "schedule_wf s =
     (fs_TenantID s \<noteq> 0 \<and> fs_Name s \<noteq> '''' \<and> length (fs_Name s) \<le> maxScheduleNameLength \<and>
      fs_Currency s \<in> validCurrencies \<and> ApplicationOrder_IsValid (fs_ApplicationOrder s) \<and>
      0 \<le> fs_RoundingScale s \<and> fs_RoundingScale s \<le> maxRoundingScale \<and>
      FeeRoundingMode_IsValid (fs_RoundingMode s) \<and> fs_Items s \<noteq> [] \<and>
      (\<forall>i \<in> set (fs_Items s). item_wf i \<and> fi_Name i \<noteq> '''') \<and>
      distinct (map fi_Priority (fs_Items s)))"

text \<open>A schedule for the examples: a flat fee of 1 and 10 percent, in cascade, to the cent.\<close>

definition example_schedule :: "rat FeeSchedule" where
  "example_schedule = \<lparr>
     fs_ID = 1, fs_TenantID = 2, fs_Name = ''card'', fs_Currency = ''USD'',
     fs_ApplicationOrder = ApplicationOrderCascading, fs_RoundingScale = 2,
     fs_RoundingMode = RoundingModeHalfUp,
     fs_Items =
       [\<lparr> fi_ID = 3, fi_Name = ''mdr'', fi_Priority = 2, fi_Structure = Some (PercentageFee (1 / 10)),
          fi_CreatedAt = 0, fi_UpdatedAt = 0 \<rparr>,
        \<lparr> fi_ID = 4, fi_Name = ''fixed'', fi_Priority = 1, fi_Structure = Some (FlatFee 1),
          fi_CreatedAt = 0, fi_UpdatedAt = 0 \<rparr>],
     fs_CreatedAt = 0, fs_UpdatedAt = 0 \<rparr>"

section \<open>Construction: lemmas\<close>

lemma build_items_ok:
  "build_items now newID i seen inputs = Inr items \<Longrightarrow>
   length items = length inputs \<and>
   distinct (map fi_Priority items) \<and> fi_Priority ` set items \<inter> seen = {} \<and>
   (\<forall>x \<in> set items. item_wf x \<and> fi_Name x \<noteq> '''')"
proof (induction inputs arbitrary: i seen items)
  case Nil
  then show ?case by simp
next
  case (Cons inp inputs)
  then obtain s rest where s: "ii_Structure inp = Some s" "Validate s = None" "ii_Name inp \<noteq> ''''"
      "ii_Priority inp \<notin> seen"
      and rest: "build_items now newID (Suc i) (insert (ii_Priority inp) seen) inputs = Inr rest"
      and items: "items = \<lparr> fi_ID = newID i, fi_Name = ii_Name inp, fi_Priority = ii_Priority inp,
        fi_Structure = Some s, fi_CreatedAt = now, fi_UpdatedAt = now \<rparr> # rest"
    by (auto split: if_splits option.splits)
  from Cons.IH [OF rest] s show ?case unfolding items by (auto simp: item_wf_def)
qed

lemma NewFeeSchedule_ok:
  assumes "NewFeeSchedule E t1 t2 itemID newID input = Inr s"
  shows "schedule_wf s" "fs_CreatedAt s = t2" "fs_UpdatedAt s = t2" "fs_ID s = newID"
    "length (fs_Items s) = length (si_Items input)"
proof -
  obtain items where items: "build_items t1 itemID 0 {} (si_Items input) = Inr items"
      and s: "fs_Items s = items" "si_Items input \<noteq> []"
    using assms unfolding NewFeeSchedule_def Let_def
    by (auto simp: buildScheduleItems_def split: if_splits)
  note i = build_items_ok [OF items]
  from i s have "items \<noteq> []" by auto
  with assms i s show "schedule_wf s" "fs_CreatedAt s = t2" "fs_UpdatedAt s = t2" "fs_ID s = newID"
    "length (fs_Items s) = length (si_Items input)"
    unfolding NewFeeSchedule_def Let_def
    by (auto simp: schedule_wf_def NormalizeCurrency_ok split: if_splits)
qed

section \<open>Order of items\<close>

interpretation item_order: strict_weak_order "key_lt fi_Priority"
  by (rule strict_weak_order_key)

lemma set_sortItems [simp]: "set (sortItemsByPriority items) = set items"
  by (simp add: sortItemsByPriority_def)

lemma sorted_items_unique:
  assumes "distinct (map fi_Priority items)" "mset ys = mset items"
    and "sorted_wrt (\<lambda>x y. fi_Priority x \<le> fi_Priority y) ys"
  shows "sortItemsByPriority items = ys"
  unfolding sortItemsByPriority_def
proof (rule item_order.sorted_unique [OF item_order.sorted])
  show "sorted_wrt (\<lambda>x y. \<not> key_lt fi_Priority y x) ys"
    using assms(3) by (simp add: key_lt_def not_less)
  show "mset (SliceStable (key_lt fi_Priority) items) = mset ys" using assms(2) by simp
  fix x y
  assume "x \<in> set (SliceStable (key_lt fi_Priority) items)"
    "y \<in> set (SliceStable (key_lt fi_Priority) items)"
    "\<not> key_lt fi_Priority x y" "\<not> key_lt fi_Priority y x"
  with assms(1) show "x = y" by (auto simp: key_lt_def distinct_map dest: inj_onD)
qed

lemma sortItems_permutation:
  assumes "distinct (map fi_Priority items)" "mset ys = mset items"
  shows "sortItemsByPriority ys = sortItemsByPriority items"
proof -
  have "sorted_wrt (\<lambda>x y. fi_Priority x \<le> fi_Priority y) (sortItemsByPriority ys)"
    using item_order.sorted [of ys] by (simp add: sortItemsByPriority_def key_lt_def not_less)
  moreover have "mset (sortItemsByPriority ys) = mset items"
    using assms(2) by (simp add: sortItemsByPriority_def)
  ultimately show ?thesis using sorted_items_unique [OF assms(1)] by simp
qed

section \<open>Rounding\<close>

context externals
begin

lemma fee_round_nonneg: "0 \<le> x \<Longrightarrow> 0 \<le> fee_roundAmount E x scale mode"
  using roundings [THEN rounding.nonneg]
  by (auto simp: fee_roundAmount_def Let_def maxRoundingScale_def split: FeeRoundingMode.split)

end

section \<open>Parallel schedules\<close>

lemma parallel_loop_sum:
  "parallel_loop E g scale mode cur acc items = Inr (result, fees) \<Longrightarrow>
   result = acc + sum_list (map (m_Amount \<circ> if_Fee) fees) \<and>
   map if_ItemID fees = map fi_ID items \<and>
   (\<forall>f \<in> set fees. m_Amount (if_BaseUsed f) = g \<and> m_Currency (if_Fee f) = cur)"
proof (induction items arbitrary: acc result fees)
  case Nil
  then show ?case by simp
next
  case (Cons item items)
  then obtain f rest where
      rest: "parallel_loop E g scale mode cur (acc + fee_roundAmount E f scale mode) items
             = Inr (result, rest)"
      and fees: "fees = \<lparr> if_ItemID = fi_ID item, if_ItemName = fi_Name item,
        if_Fee = \<lparr> m_Amount = fee_roundAmount E f scale mode, m_Currency = cur \<rparr>,
        if_BaseUsed = \<lparr> m_Amount = g, m_Currency = cur \<rparr> \<rparr> # rest"
    by (auto simp: Let_def split: option.splits prod.splits)
  from Cons.IH [OF rest] show ?case unfolding fees by (auto simp: add.assoc)
qed

lemma parallel_loop_total:
  "\<forall>i \<in> set items. item_wf i \<Longrightarrow> 0 \<le> g \<Longrightarrow>
   \<exists>r. parallel_loop E g scale mode cur acc items = Inr r"
proof (induction items arbitrary: acc)
  case Nil
  then show ?case by simp
next
  case (Cons item items)
  then obtain s where s: "fi_Structure item = Some s" "Validate s = None" by (auto simp: item_wf_def)
  with Cons.prems obtain f where f: "Calculate s g = Inr f"
    using fee.charges [of s g] by (auto simp: is_ok_iff)
  from Cons obtain a b where "parallel_loop E g scale mode cur
      (acc + fee_roundAmount E f scale mode) items = Inr (a, b)" by force
  with s f show ?case by (simp add: Let_def)
qed

section \<open>Cascading schedules\<close>

text \<open>Without loss on the way, the base left is the gross minus the fees; once fees exceed it
  the base stays at zero.\<close>

context externals
begin

lemma cascading_loop_net:
  "cascading_loop E scale mode cur base acc items = Inr (net, result, fees) \<Longrightarrow> 0 \<le> base \<Longrightarrow>
   net = max 0 (base - (result - acc)) \<and> 0 \<le> result - acc \<and>
   result = acc + sum_list (map (m_Amount \<circ> if_Fee) fees) \<and>
   map if_ItemID fees = map fi_ID items"
proof (induction items arbitrary: base acc fees)
  case Nil
  then show ?case by simp
next
  case (Cons item items)
  then obtain s f rest where f: "Calculate s base = Inr f"
    and rest: "cascading_loop E scale mode cur
        (if base - fee_roundAmount E f scale mode < 0 then 0 else base - fee_roundAmount E f scale mode)
        (acc + fee_roundAmount E f scale mode) items = Inr (net, result, rest)"
    and fees: "fees = \<lparr> if_ItemID = fi_ID item, if_ItemName = fi_Name item,
        if_Fee = \<lparr> m_Amount = fee_roundAmount E f scale mode, m_Currency = cur \<rparr>,
        if_BaseUsed = \<lparr> m_Amount = base, m_Currency = cur \<rparr> \<rparr> # rest"
    by (auto simp: Let_def split: option.splits prod.splits)
  define r where "r = fee_roundAmount E f scale mode"
  have r: "0 \<le> r" using fee_round_nonneg fee.fee_nonneg [OF f] by (simp add: r_def)
  have "0 \<le> (if base - r < 0 then 0 else base - r)" by simp
  from Cons.IH [OF rest [folded r_def] this] r show ?case unfolding fees r_def [symmetric]
    by (auto simp: add.assoc max_def split: if_splits)
qed

lemma cascading_loop_total:
  "\<forall>i \<in> set items. item_wf i \<Longrightarrow> 0 \<le> base \<Longrightarrow>
   \<exists>r. cascading_loop E scale mode cur base acc items = Inr r"
proof (induction items arbitrary: base acc)
  case Nil
  then show ?case by simp
next
  case (Cons item items)
  then obtain s where s: "fi_Structure item = Some s" "Validate s = None" by (auto simp: item_wf_def)
  with Cons.prems obtain f where f: "Calculate s base = Inr f"
    using fee.charges [of s base] by (auto simp: is_ok_iff)
  define r where "r = fee_roundAmount E f scale mode"
  from Cons.IH [of "if base - r < 0 then 0 else base - r" "acc + r"] Cons.prems
  obtain a b c where "cascading_loop E scale mode cur (if base - r < 0 then 0 else base - r)
      (acc + r) items = Inr (a, b, c)" by force
  with s f show ?case by (auto simp: Let_def simp flip: r_def)
qed

end

section \<open>Both orders together\<close>

text \<open>The net amount each order of application leaves.\<close>

definition net_after :: "ApplicationOrder \<Rightarrow> 'd::linordered_idom \<Rightarrow> 'd \<Rightarrow> 'd" where
  "net_after order gross fees =
     (if order = ApplicationOrderCascading then max 0 (gross - fees) else gross - fees)"

context externals
begin

lemma parallel_loop_nonneg:
  "parallel_loop E g scale mode cur acc items = Inr (result, fees) \<Longrightarrow> acc \<le> result"
proof (induction items arbitrary: acc fees)
  case Nil
  then show ?case by simp
next
  case (Cons item items)
  then obtain s f rest where f: "Calculate s g = Inr f"
    and rest: "parallel_loop E g scale mode cur (acc + fee_roundAmount E f scale mode) items
             = Inr (result, rest)"
    by (auto simp: Let_def split: option.splits prod.splits)
  have "0 \<le> fee_roundAmount E f scale mode" using fee_round_nonneg fee.fee_nonneg [OF f] by simp
  with Cons.IH [OF rest] show ?case by simp
qed

lemma CalculateSchedule_breakdown:
  assumes "CalculateSchedule E gross (Some s) = Inr b" "0 \<le> m_Amount gross"
  shows "m_Amount (fb_NetAmount b)
         = net_after (fs_ApplicationOrder s) (m_Amount gross) (m_Amount (fb_TotalFee b))"
    and "m_Amount (fb_TotalFee b) = sum_list (map (m_Amount \<circ> if_Fee) (fb_ItemFees b))"
    and "0 \<le> m_Amount (fb_TotalFee b)"
    and "map if_ItemID (fb_ItemFees b) = map fi_ID (sortItemsByPriority (fs_Items s))"
proof -
  let ?items = "sortItemsByPriority (fs_Items s)"
  obtain cur where "calculateParallel E gross ?items (fs_RoundingScale s) (fs_RoundingMode s) cur = Inr b
        \<and> fs_ApplicationOrder s = ApplicationOrderParallel \<or>
      calculateCascading E gross ?items (fs_RoundingScale s) (fs_RoundingMode s) cur = Inr b
        \<and> fs_ApplicationOrder s = ApplicationOrderCascading"
    using assms(1)
    by (cases "fs_ApplicationOrder s") (auto simp: CalculateSchedule_def Let_def split: if_splits)
  then show "m_Amount (fb_NetAmount b)
         = net_after (fs_ApplicationOrder s) (m_Amount gross) (m_Amount (fb_TotalFee b))"
    "m_Amount (fb_TotalFee b) = sum_list (map (m_Amount \<circ> if_Fee) (fb_ItemFees b))"
    "0 \<le> m_Amount (fb_TotalFee b)"
    "map if_ItemID (fb_ItemFees b) = map fi_ID ?items"
    using assms(2)
    by (auto simp: calculateParallel_def calculateCascading_def net_after_def
        dest: parallel_loop_sum parallel_loop_nonneg cascading_loop_net)
qed

lemma CalculateSchedule_ok:
  assumes "schedule_wf s" "NormalizeCurrency E (m_Currency gross) = Inr (fs_Currency s)"
    and "0 \<le> m_Amount gross"
  shows "\<exists>b. CalculateSchedule E gross (Some s) = Inr b"
proof -
  have cur: "NormalizeCurrency E (fs_Currency s) = Inr (fs_Currency s)"
    using assms(1) by (intro NormalizeCurrency_valid) (simp add: schedule_wf_def)
  have wf: "\<forall>i \<in> set (sortItemsByPriority (fs_Items s)). item_wf i"
    using assms(1) by (simp add: schedule_wf_def)
  obtain p1 p2 where "parallel_loop E (m_Amount gross) (fs_RoundingScale s) (fs_RoundingMode s)
      (fs_Currency s) 0 (sortItemsByPriority (fs_Items s)) = Inr (p1, p2)"
    using parallel_loop_total [OF wf assms(3)] by force
  moreover obtain c1 c2 c3 where "cascading_loop E (fs_RoundingScale s) (fs_RoundingMode s)
      (fs_Currency s) (m_Amount gross) 0 (sortItemsByPriority (fs_Items s)) = Inr (c1, c2, c3)"
    using cascading_loop_total [OF wf assms(3)] by force
  moreover have "ApplicationOrder_IsValid (fs_ApplicationOrder s)"
    using assms(1) by (simp add: schedule_wf_def)
  ultimately show ?thesis using assms(2) cur
    by (cases "fs_ApplicationOrder s")
      (auto simp: CalculateSchedule_def calculateParallel_def calculateCascading_def)
qed

section \<open>Gross from net\<close>

lemma convergence_bound: "x \<le> dec_new E 1 (- convergencePrecision) \<longleftrightarrow> x * 10 ^ 10 \<le> 1"
proof -
  have "dec_new E 1 (- convergencePrecision) * 10 ^ 10 = 1"
    using new_exp [of 10 1] by (simp add: convergencePrecision_def)
  then show ?thesis
    using mult_le_cancel_right [of x "10 ^ 10" "dec_new E 1 (- convergencePrecision)"] by simp
qed

lemma gross_loop_ok:
  "gross_loop n E net s g0 = Inr (gross, b) \<Longrightarrow> 0 \<le> g0 \<Longrightarrow> 0 \<le> m_Amount net \<Longrightarrow>
   CalculateSchedule E gross (Some s) = Inr b \<and> 0 \<le> m_Amount gross \<and>
   \<bar>m_Amount gross - m_Amount (fb_TotalFee b) - m_Amount net\<bar> * 10 ^ 10 \<le> 1 \<and>
   NormalizeCurrency E (m_Currency net) = Inr (m_Currency gross)"
proof (induction n arbitrary: g0)
  case 0
  then show ?case by simp
next
  case (Suc n)
  then obtain c b' where c: "NormalizeCurrency E (m_Currency net) = Inr c"
      and b': "CalculateSchedule E \<lparr> m_Amount = g0, m_Currency = c \<rparr> (Some s) = Inr b'"
    by (auto simp: NewMoney_def)
  have "0 \<le> m_Amount net + m_Amount (fb_TotalFee b')"
    using CalculateSchedule_breakdown(3) [OF b'] Suc.prems by simp
  with Suc c b' show ?case
    by (auto simp: NewMoney_def Let_def convergence_bound split: if_splits)
qed

end

subsection \<open>Flat fees\<close>

text \<open>The fees of a schedule of flat items do not depend on the amount.\<close>

definition flat_fee :: "'d ext \<Rightarrow> int \<Rightarrow> FeeRoundingMode \<Rightarrow> 'd::linordered_idom FeeScheduleItem \<Rightarrow> 'd" where
  "flat_fee E scale mode item =
     (case fi_Structure item of Some (FlatFee a) \<Rightarrow> fee_roundAmount E a scale mode | _ \<Rightarrow> 0)"

definition flat_item :: "'d FeeScheduleItem \<Rightarrow> bool" where
  "flat_item item = (case fi_Structure item of Some (FlatFee _) \<Rightarrow> True | _ \<Rightarrow> False)"

lemma flat_itemE:
  assumes "flat_item item"
  obtains a where "fi_Structure item = Some (FlatFee a)"
  using assms by (auto simp: flat_item_def split: option.splits FeeStructure.splits)

lemma flat_parallel:
  "\<forall>i \<in> set items. flat_item i \<Longrightarrow> parallel_loop E g scale mode cur acc items = Inr (r, fees) \<Longrightarrow>
   r = acc + sum_list (map (flat_fee E scale mode) items)"
proof (induction items arbitrary: acc fees)
  case Nil
  then show ?case by simp
next
  case (Cons i items)
  then obtain a where a: "fi_Structure i = Some (FlatFee a)" by (auto elim: flat_itemE)
  with Cons.prems obtain rest where
    "parallel_loop E g scale mode cur (acc + fee_roundAmount E a scale mode) items = Inr (r, rest)"
    by (auto simp: Let_def split: if_splits)
  from Cons.IH [OF _ this] Cons.prems(1) a show ?case by (simp add: flat_fee_def add.assoc)
qed

lemma flat_cascading:
  "\<forall>i \<in> set items. flat_item i \<Longrightarrow> cascading_loop E scale mode cur base acc items = Inr (n, r, fees) \<Longrightarrow>
   r = acc + sum_list (map (flat_fee E scale mode) items)"
proof (induction items arbitrary: acc base fees)
  case Nil
  then show ?case by simp
next
  case (Cons i items)
  then obtain a where a: "fi_Structure i = Some (FlatFee a)" by (auto elim: flat_itemE)
  with Cons.prems obtain base' rest where
    "cascading_loop E scale mode cur base' (acc + fee_roundAmount E a scale mode) items = Inr (n, r, rest)"
    by (auto simp: Let_def split: if_splits)
  from Cons.IH [OF _ this] Cons.prems(1) a show ?case by (simp add: flat_fee_def add.assoc)
qed

lemma flat_total:
  assumes "\<forall>i \<in> set (fs_Items s). flat_item i" "CalculateSchedule E gross (Some s) = Inr b"
  shows "m_Amount (fb_TotalFee b)
    = sum_list (map (flat_fee E (fs_RoundingScale s) (fs_RoundingMode s)) (sortItemsByPriority (fs_Items s)))"
proof -
  have "\<forall>i \<in> set (sortItemsByPriority (fs_Items s)). flat_item i" using assms(1) by simp
  note f = flat_parallel [OF this] flat_cascading [OF this]
  show ?thesis
    using assms(2) f
    by (cases "fs_ApplicationOrder s")
      (fastforce simp: CalculateSchedule_def calculateParallel_def calculateCascading_def Let_def
        split: if_splits)+
qed

section \<open>Examples\<close>

definition flat_schedule :: "rat FeeSchedule" where
  "flat_schedule = example_schedule\<lparr> fs_Items := tl (fs_Items example_schedule) \<rparr>"

definition example_input :: "rat NewFeeScheduleInput" where
  "example_input = \<lparr>
     si_TenantID = 2, si_Name = ''card'', si_Currency = ''USD'',
     si_ApplicationOrder = ApplicationOrderParallel, si_RoundingScale = 2,
     si_RoundingMode = RoundingModeFloor,
     si_Items = [\<lparr> ii_Name = ''mdr'', ii_Priority = 1,
                   ii_Structure = Some (TieredFee [\<lparr> t_UpTo = Some 100, t_Rate = 1 / 50 \<rparr>,
                                                   \<lparr> t_UpTo = None, t_Rate = 1 / 100 \<rparr>]) \<rparr>] \<rparr>"

lemma usd_valid: "''USD'' \<in> validCurrencies"
  by (simp add: validCurrencies_def)

lemma usd_normalized: "NormalizeCurrency rat_ext ''USD'' = Inr ''USD''"
  by (rule rat_lib.NormalizeCurrency_valid [OF usd_valid])

lemma example_schedule_wf: "schedule_wf example_schedule"
  using usd_valid
  by (simp add: schedule_wf_def example_schedule_def item_wf_def maxScheduleNameLength_def
      maxRoundingScale_def)

lemma flat_schedule_wf: "schedule_wf flat_schedule"
  using usd_valid
  by (simp add: schedule_wf_def flat_schedule_def example_schedule_def item_wf_def
      maxScheduleNameLength_def maxRoundingScale_def)

lemma flat_schedule_rounding: "fee_roundAmount rat_ext 1 2 RoundingModeHalfUp = 1"
  using rounding.exact [OF rat_lib.roundings(1), of 2 1]
  by (simp add: fee_roundAmount_def maxRoundingScale_def)

lemma flat_schedule_total:
  "CalculateSchedule rat_ext \<lparr> m_Amount = g, m_Currency = ''USD'' \<rparr> (Some flat_schedule)
   = Inr \<lparr> fb_TotalFee = \<lparr> m_Amount = 1, m_Currency = ''USD'' \<rparr>,
           fb_NetAmount = \<lparr> m_Amount = (if g - 1 < 0 then 0 else g - 1), m_Currency = ''USD'' \<rparr>,
           fb_ItemFees = [\<lparr> if_ItemID = 4, if_ItemName = ''fixed'',
                            if_Fee = \<lparr> m_Amount = 1, m_Currency = ''USD'' \<rparr>,
                            if_BaseUsed = \<lparr> m_Amount = g, m_Currency = ''USD'' \<rparr> \<rparr>] \<rparr>"
  by (simp add: CalculateSchedule_def flat_schedule_def example_schedule_def usd_normalized
      sortItemsByPriority_def calculateCascading_def flat_schedule_rounding Let_def)

lemma flat_schedule_gross:
  "CalculateGrossFromNet rat_ext \<lparr> m_Amount = 10, m_Currency = ''USD'' \<rparr> (Some flat_schedule)
   = Inr (\<lparr> m_Amount = 11, m_Currency = ''USD'' \<rparr>,
          \<lparr> fb_TotalFee = \<lparr> m_Amount = 1, m_Currency = ''USD'' \<rparr>,
            fb_NetAmount = \<lparr> m_Amount = 10, m_Currency = ''USD'' \<rparr>,
            fb_ItemFees = [\<lparr> if_ItemID = 4, if_ItemName = ''fixed'',
                             if_Fee = \<lparr> m_Amount = 1, m_Currency = ''USD'' \<rparr>,
                             if_BaseUsed = \<lparr> m_Amount = 11, m_Currency = ''USD'' \<rparr> \<rparr>] \<rparr>)"
  (is "_ = Inr (?gross, ?b)")
proof -
  have cur: "fs_Currency flat_schedule = ''USD''"
    by (simp add: flat_schedule_def example_schedule_def)
  have "\<not> 1 \<le> dec_new rat_ext 1 (- convergencePrecision)"
    "0 \<le> dec_new rat_ext 1 (- convergencePrecision)"
    using rat_lib.convergence_bound [of 1] rat_lib.convergence_bound [of 0] by simp_all
  then have "gross_loop (Suc (Suc n)) rat_ext \<lparr> m_Amount = 10, m_Currency = ''USD'' \<rparr> flat_schedule 10
      = Inr (?gross, ?b)" for n
    by (simp add: usd_normalized NewMoney_def flat_schedule_total Let_def)
  from this [of 98] show ?thesis
    by (simp add: CalculateGrossFromNet_def usd_normalized cur maxIterations_def del: gross_loop.simps)
qed

section \<open>Properties\<close>

text \<open>
  A schedule accepted by \<^verbatim>\<open>NewFeeSchedule\<close> is well formed: tenant and name set, name at
  most 100 bytes, a known currency, valid order, rounding scale and mode, at least one item,
  every item named and with a valid fee structure, and no two items of the same priority.
\<close>

lemma NewFeeSchedule_wf:
  assumes "NewFeeSchedule E itemsNow now itemID newID input = Inr s"
  shows "schedule_wf s \<and> length (fs_Items s) = length (si_Items input)"
  using NewFeeSchedule_ok [OF assms] by simp

lemma NewFeeSchedule_wf_witness:
  "\<exists>s. NewFeeSchedule rat_ext 5 6 of_nat 7 example_input = Inr s \<and> schedule_wf s"
proof -
  have "TrimSpace ''card'' = ''card''" by (rule TrimSpace_visible) (simp_all add: visible_def)
  then have "\<exists>s. NewFeeSchedule rat_ext 5 6 of_nat 7 example_input = Inr s"
    by (simp add: NewFeeSchedule_def example_input_def usd_normalized maxScheduleNameLength_def
        maxRoundingScale_def buildScheduleItems_def validate_tiers.simps)
  then show ?thesis using NewFeeSchedule_wf by blast
qed



text \<open>
  The order in which the items of a well-formed schedule are stored has no effect on the
  breakdown, although the items are sorted with the unstable \<^verbatim>\<open>sort.Slice\<close>.
\<close>

lemma CalculateSchedule_item_order:
  assumes "schedule_wf s" "mset items = mset (fs_Items s)"
  shows "CalculateSchedule E gross (Some (s\<lparr> fs_Items := items \<rparr>)) = CalculateSchedule E gross (Some s)"
proof -
  have "sortItemsByPriority items = sortItemsByPriority (fs_Items s)"
    using assms by (intro sortItems_permutation) (auto simp: schedule_wf_def)
  then show ?thesis
    by (cases "fs_ApplicationOrder s") (simp_all add: CalculateSchedule_def cong: if_cong)
qed

lemma CalculateSchedule_item_order_witness:
  "CalculateSchedule rat_ext \<lparr> m_Amount = 100, m_Currency = ''USD'' \<rparr>
     (Some (example_schedule\<lparr> fs_Items := rev (fs_Items example_schedule) \<rparr>))
   = CalculateSchedule rat_ext \<lparr> m_Amount = 100, m_Currency = ''USD'' \<rparr> (Some example_schedule)"
  by (rule CalculateSchedule_item_order [OF example_schedule_wf]) simp



text \<open>
  C24: For a well-formed schedule of flat fees the iteration always converges: the gross amount
  is found, and it is the net amount plus the fees up to \<open>10\<^sup>-\<^sup>1\<^sup>0\<close>.
\<close>

theorem CalculateGrossFromNet_flat_converges:
  assumes "externals E" "schedule_wf s" "\<forall>i \<in> set (fs_Items s). flat_item i"
    and "0 \<le> m_Amount net" "NormalizeCurrency E (m_Currency net) = Inr (fs_Currency s)"
  shows "\<exists>gross b. CalculateGrossFromNet E net (Some s) = Inr (gross, b) \<and>
    \<bar>m_Amount gross - m_Amount (fb_TotalFee b) - m_Amount net\<bar> * 10 ^ 10 \<le> 1"
proof -
  define T where "T = sum_list (map (flat_fee E (fs_RoundingScale s) (fs_RoundingMode s))
    (sortItemsByPriority (fs_Items s)))"
  let ?m = "\<lambda>g. \<lparr> m_Amount = g, m_Currency = fs_Currency s \<rparr>"
  have cur: "NormalizeCurrency E (fs_Currency s) = Inr (fs_Currency s)"
    using externals.NormalizeCurrency_idem [OF assms(1,5)] .
  have sched: "\<exists>b. CalculateSchedule E (?m g) (Some s) = Inr b \<and> m_Amount (fb_TotalFee b) = T" if "0 \<le> g" for g
    using externals.CalculateSchedule_ok [OF assms(1,2), of "?m g"] cur that flat_total [OF assms(3)]
    by (fastforce simp: T_def)
  from sched [OF assms(4)] obtain b0
    where b0: "CalculateSchedule E (?m (m_Amount net)) (Some s) = Inr b0" "m_Amount (fb_TotalFee b0) = T"
    by blast
  then have T: "0 \<le> T"
    using externals.CalculateSchedule_breakdown(3) [OF assms(1) b0(1)] assms(4) by simp
  with assms(4) obtain b1
    where b1: "CalculateSchedule E (?m (m_Amount net + T)) (Some s) = Inr b1" "m_Amount (fb_TotalFee b1) = T"
    using sched [of "m_Amount net + T"] by auto
  have eps: "0 \<le> dec_new E 1 (- convergencePrecision)"
    using externals.convergence_bound [OF assms(1), of 0] by simp
  have "\<exists>r. gross_loop (Suc (Suc n)) E net s (m_Amount net) = Inr r" for n
    using assms(5) b0 b1 eps by (simp add: NewMoney_def Let_def)
  from this [of 98] obtain gross b where "gross_loop maxIterations E net s (m_Amount net) = Inr (gross, b)"
    by (auto simp: maxIterations_def eval_nat_numeral simp del: gross_loop.simps)
  with externals.gross_loop_ok [OF assms(1) this assms(4,4)] cur assms(5) show ?thesis
    by (auto simp: CalculateGrossFromNet_def)
qed

theorem CalculateGrossFromNet_flat_converges_witness:
  "\<exists>gross b. CalculateGrossFromNet rat_ext \<lparr> m_Amount = 25, m_Currency = ''USD'' \<rparr> (Some flat_schedule)
     = Inr (gross, b) \<and> \<bar>m_Amount gross - m_Amount (fb_TotalFee b) - 25\<bar> * 10 ^ 10 \<le> 1"
  using CalculateGrossFromNet_flat_converges [OF rat_externals flat_schedule_wf,
      of "\<lparr> m_Amount = 25, m_Currency = ''USD'' \<rparr>"] usd_normalized
  by (simp add: flat_schedule_def example_schedule_def flat_item_def)

end
