(* ===== verification/Fee_Rules.thy ===== *)
theory Fee_Rules
  imports Fee_Schedule
begin

text \<open>
  Package \<^verbatim>\<open>internal/shared/domain/fee\<close>, the files \<^verbatim>\<open>matching_side.go\<close>,
  \<^verbatim>\<open>field_predicate.go\<close>, \<^verbatim>\<open>fee_rule.go\<close>, \<^verbatim>\<open>fee_rule_resolver.go\<close> and \<^verbatim>\<open>verifier.go\<close>: which
  fee schedule applies to a transaction, and how a charged fee is compared with the expected
  one. A value of Go type \<^verbatim>\<open>any\<close> is an \<open>any_value\<close>: its dynamic kind with the datum the code
  reads (for a float and for kinds printed with \<^verbatim>\<open>%v\<close>, the text \<^verbatim>\<open>strconv\<close> or \<^verbatim>\<open>fmt\<close> gives).
\<close>

section \<open>Sides\<close>

datatype MatchingSide =
  MatchingSideLeft | MatchingSideRight | MatchingSideAny | MatchingSideOther string

definition MatchingSide_of :: "string \<Rightarrow> MatchingSide" where
  "MatchingSide_of s =
     (if s = ''LEFT'' then MatchingSideLeft else if s = ''RIGHT'' then MatchingSideRight
      else if s = ''ANY'' then MatchingSideAny else MatchingSideOther s)"

fun MatchingSide_IsValid :: "MatchingSide \<Rightarrow> bool" where
  "MatchingSide_IsValid (MatchingSideOther _) = False"
| "MatchingSide_IsValid _ = True"

definition AppliesToLeft :: "MatchingSide \<Rightarrow> bool" where
  "AppliesToLeft s = (s = MatchingSideLeft \<or> s = MatchingSideAny)"

definition AppliesToRight :: "MatchingSide \<Rightarrow> bool" where
  "AppliesToRight s = (s = MatchingSideRight \<or> s = MatchingSideAny)"

definition IsExclusive :: "MatchingSide \<Rightarrow> bool" where
  "IsExclusive s = (s = MatchingSideLeft \<or> s = MatchingSideRight)"

section \<open>Field predicates\<close>

datatype any_value =
    AnyNil
  | AnyString string
  | AnyBytes string
  | AnyBool bool
  | AnyStringer "string option"
  | AnyInt int
  | AnyUint nat
  | AnyFloat string
  | AnyOther string

type_synonym metadata = "(string \<rightharpoonup> any_value) option"

datatype PredicateOperator =
    PredicateOperatorEquals | PredicateOperatorIn | PredicateOperatorExists
  | PredicateOperatorOther string

fun PredicateOperator_IsValid :: "PredicateOperator \<Rightarrow> bool" where
  "PredicateOperator_IsValid (PredicateOperatorOther _) = False"
| "PredicateOperator_IsValid _ = True"

record FieldPredicate =
  p_Field :: string
  p_Operator :: PredicateOperator
  p_Value :: string
  p_Values :: "string list"

definition maxPredicateFieldLength :: nat where
  "maxPredicateFieldLength = 255"

definition maxPredicateValueLength :: nat where
  "maxPredicateValueLength = 1024"

definition maxPredicateValuesCount :: nat where
  "maxPredicateValuesCount = 100"

definition validateField :: "FieldPredicate \<Rightarrow> fee_error option" where
  "validateField pred =
     (if TrimSpace (p_Field pred) = '''' then Some ErrPredicateFieldRequired
      else if length (p_Field pred) > maxPredicateFieldLength then Some ErrPredicateFieldTooLong
      else None)"

definition validateOperator :: "FieldPredicate \<Rightarrow> fee_error option" where
  "validateOperator pred =
     (if \<not> PredicateOperator_IsValid (p_Operator pred) then Some ErrInvalidPredicateOperator else None)"

definition validateEquals :: "FieldPredicate \<Rightarrow> fee_error option" where
  "validateEquals pred =
     (if p_Value pred = '''' then Some ErrPredicateValueRequired
      else if length (p_Values pred) > 0 then Some ErrPredicateValuesForbidden
      else if length (p_Value pred) > maxPredicateValueLength then Some ErrPredicateValueTooLong
      else None)"

definition validateIn :: "FieldPredicate \<Rightarrow> fee_error option" where
  "validateIn pred =
     (if p_Value pred \<noteq> '''' then Some ErrPredicateValueForbidden
      else if length (p_Values pred) = 0 then Some ErrPredicateValuesRequired
      else if length (p_Values pred) > maxPredicateValuesCount then Some ErrPredicateValuesTooMany
      else if \<exists>value \<in> set (p_Values pred). length value > maxPredicateValueLength
        then Some ErrPredicateValueTooLong
      else None)"

definition validateExists :: "FieldPredicate \<Rightarrow> fee_error option" where
  "validateExists pred =
     (if p_Value pred \<noteq> '''' then Some ErrPredicateValueForbidden
      else if length (p_Values pred) > 0 then Some ErrPredicateValuesForbidden
      else None)"

definition validateOperatorRequirements :: "FieldPredicate \<Rightarrow> fee_error option" where
  "validateOperatorRequirements pred =
     (case p_Operator pred of
        PredicateOperatorEquals \<Rightarrow> validateEquals pred
      | PredicateOperatorIn \<Rightarrow> validateIn pred
      | PredicateOperatorExists \<Rightarrow> validateExists pred
      | PredicateOperatorOther _ \<Rightarrow> None)"

definition FieldPredicate_Validate :: "FieldPredicate \<Rightarrow> fee_error option" where
  "FieldPredicate_Validate pred =
     (case validateField pred of
        Some e \<Rightarrow> Some e
      | None \<Rightarrow>
          (case validateOperator pred of
             Some e \<Rightarrow> Some e
           | None \<Rightarrow> validateOperatorRequirements pred))"

fun stringifyPredicateScalar :: "any_value \<Rightarrow> string" where
  "stringifyPredicateScalar (AnyInt i) = FormatInt i"
| "stringifyPredicateScalar (AnyUint n) = digits_of n"
| "stringifyPredicateScalar (AnyFloat s) = s"
| "stringifyPredicateScalar (AnyOther s) = s"
| "stringifyPredicateScalar _ = ''<nil>''"

fun stringifyPredicateValue :: "any_value \<Rightarrow> string" where
  "stringifyPredicateValue (AnyString s) = s"
| "stringifyPredicateValue (AnyBytes s) = s"
| "stringifyPredicateValue (AnyBool b) = (if b then ''true'' else ''false'')"
| "stringifyPredicateValue (AnyStringer v) = (case v of None \<Rightarrow> '''' | Some s \<Rightarrow> s)"
| "stringifyPredicateValue raw = stringifyPredicateScalar raw"

definition Evaluate :: "'d ext \<Rightarrow> FieldPredicate \<Rightarrow> metadata \<Rightarrow> bool" where
  "Evaluate E pred metadata =
     (case metadata of
        None \<Rightarrow> False
      | Some m \<Rightarrow>
          (case p_Operator pred of
             PredicateOperatorEquals \<Rightarrow>
               (case m (p_Field pred) of
                  None \<Rightarrow> False
                | Some rawVal \<Rightarrow> equal_fold E (stringifyPredicateValue rawVal) (p_Value pred))
           | PredicateOperatorIn \<Rightarrow>
               (case m (p_Field pred) of
                  None \<Rightarrow> False
                | Some rawVal \<Rightarrow>
                    list_ex (\<lambda>candidate. equal_fold E (stringifyPredicateValue rawVal) candidate)
                      (p_Values pred))
           | PredicateOperatorExists \<Rightarrow> m (p_Field pred) \<noteq> None
           | PredicateOperatorOther _ \<Rightarrow> False))"

section \<open>Fee rules\<close>

definition maxFeeRuleNameLength :: nat where
  "maxFeeRuleNameLength = 100"

definition maxFeeRulePredicates :: nat where
  "maxFeeRulePredicates = 50"

record FeeRule =
  fr_ID :: uuid
  fr_ContextID :: uuid
  fr_Side :: MatchingSide
  fr_FeeScheduleID :: uuid
  fr_Name :: string
  fr_Priority :: int
  fr_Predicates :: "FieldPredicate list"
  fr_CreatedAt :: time
  fr_UpdatedAt :: time

text \<open>The loop that trims every predicate's field and validates it, in order.\<close>

fun trim_predicates :: "FieldPredicate list \<Rightarrow> fee_error + FieldPredicate list" where
  "trim_predicates [] = Inr []"
| "trim_predicates (pred # preds) =
     (let pred = pred\<lparr> p_Field := TrimSpace (p_Field pred) \<rparr> in
      case FieldPredicate_Validate pred of
        Some e \<Rightarrow> Inl e
      | None \<Rightarrow> rbind (trim_predicates preds) (\<lambda>rest. Inr (pred # rest)))"

definition validatePredicates :: "FieldPredicate list \<Rightarrow> fee_error + FieldPredicate list" where
  "validatePredicates preds =
     (if length preds > maxFeeRulePredicates then Inl ErrFeeRuleTooManyPredicates
      else trim_predicates preds)"

definition NewFeeRule :: "time \<Rightarrow> uuid \<Rightarrow> uuid \<Rightarrow> uuid \<Rightarrow> MatchingSide \<Rightarrow> string \<Rightarrow> int \<Rightarrow>
    FieldPredicate list \<Rightarrow> fee_error + FeeRule" where
  "NewFeeRule now newID contextID feeScheduleID side name priority predicates =
     (let trimmedName = TrimSpace name in
      if contextID = 0 then Inl ErrFeeRuleContextIDRequired
      else if feeScheduleID = 0 then Inl ErrFeeRuleScheduleIDRequired
      else if \<not> MatchingSide_IsValid side then Inl ErrInvalidMatchingSide
      else if trimmedName = '''' then Inl ErrFeeRuleNameRequired
      else if length trimmedName > maxFeeRuleNameLength then Inl ErrFeeRuleNameTooLong
      else if priority < 0 then Inl ErrFeeRulePriorityNegative
      else if length predicates > maxFeeRulePredicates then Inl ErrFeeRuleTooManyPredicates
      else rbind (trim_predicates predicates) (\<lambda>normalizedPredicates.
        Inr \<lparr> fr_ID = newID, fr_ContextID = contextID, fr_Side = side,
              fr_FeeScheduleID = feeScheduleID, fr_Name = trimmedName, fr_Priority = priority,
              fr_Predicates = normalizedPredicates, fr_CreatedAt = now, fr_UpdatedAt = now \<rparr>))"

record UpdateFeeRuleInput =
  u_Side :: "string option"
  u_FeeScheduleID :: "string option"
  u_Name :: "string option"
  u_Priority :: "int option"
  u_Predicates :: "FieldPredicate list option"

definition parseFeeScheduleID :: "'d ext \<Rightarrow> string \<Rightarrow> fee_error + uuid" where
  "parseFeeScheduleID E raw =
     (case uuid_parse E raw of
        None \<Rightarrow> Inl ErrFeeRuleScheduleIDRequired
      | Some parsed \<Rightarrow> if parsed = 0 then Inl ErrFeeRuleScheduleIDRequired else Inr parsed)"

text \<open>
  \<^verbatim>\<open>Update\<close> changes the rule in place, field by field, and returns at the first invalid field;
  the fields before it stay changed. Each field is a step that returns the rule and the error.
\<close>

type_synonym rule_step = "FeeRule \<Rightarrow> FeeRule \<times> fee_error option"

definition update_field :: "('a \<Rightarrow> fee_error + 'b) \<Rightarrow> ('b \<Rightarrow> FeeRule \<Rightarrow> FeeRule) \<Rightarrow> 'a option \<Rightarrow> rule_step" where
  "update_field check set_field v fr =
     (case v of
        None \<Rightarrow> (fr, None)
      | Some x \<Rightarrow> (case check x of Inl e \<Rightarrow> (fr, Some e) | Inr y \<Rightarrow> (set_field y fr, None)))"

definition then_step :: "rule_step \<Rightarrow> rule_step \<Rightarrow> rule_step" where
  "then_step f g fr = (case f fr of (fr', Some e) \<Rightarrow> (fr', Some e) | (fr', None) \<Rightarrow> g fr')"

definition check_side :: "string \<Rightarrow> fee_error + MatchingSide" where
  "check_side raw =
     (let s = MatchingSide_of raw in
      if \<not> MatchingSide_IsValid s then Inl ErrInvalidMatchingSide else Inr s)"

definition check_name :: "string \<Rightarrow> fee_error + string" where
  "check_name raw =
     (let trimmedName = TrimSpace raw in
      if trimmedName = '''' then Inl ErrFeeRuleNameRequired
      else if length trimmedName > maxFeeRuleNameLength then Inl ErrFeeRuleNameTooLong
      else Inr trimmedName)"

definition check_priority :: "int \<Rightarrow> fee_error + int" where
  "check_priority p = (if p < 0 then Inl ErrFeeRulePriorityNegative else Inr p)"

definition FeeRule_Update :: "'d ext \<Rightarrow> time \<Rightarrow> UpdateFeeRuleInput \<Rightarrow> rule_step" where
  "FeeRule_Update E now input =
     then_step (update_field check_side (\<lambda>s. fr_Side_update (\<lambda>_. s)) (u_Side input))
    (then_step (update_field check_name (\<lambda>n. fr_Name_update (\<lambda>_. n)) (u_Name input))
    (then_step (update_field check_priority (\<lambda>p. fr_Priority_update (\<lambda>_. p)) (u_Priority input))
    (then_step (update_field (parseFeeScheduleID E) (\<lambda>i. fr_FeeScheduleID_update (\<lambda>_. i))
                 (u_FeeScheduleID input))
    (then_step (update_field validatePredicates (\<lambda>ps. fr_Predicates_update (\<lambda>_. ps))
                 (u_Predicates input))
       (\<lambda>fr. (fr\<lparr> fr_UpdatedAt := now \<rparr>, None))))))"

section \<open>Resolution\<close>

definition allPredicatesMatch :: "'d ext \<Rightarrow> metadata \<Rightarrow> FieldPredicate list \<Rightarrow> bool" where
  "allPredicatesMatch E metadata predicates = list_all (\<lambda>pred. Evaluate E pred metadata) predicates"

fun ResolveFeeSchedule :: "'d ext \<Rightarrow> metadata \<Rightarrow> FeeRule option list \<Rightarrow>
    (uuid \<rightharpoonup> 'd FeeSchedule option) \<Rightarrow> 'd FeeSchedule option" where
  "ResolveFeeSchedule E metadata [] schedules = None"
| "ResolveFeeSchedule E metadata (r # rules) schedules =
     (case r of
        None \<Rightarrow> ResolveFeeSchedule E metadata rules schedules
      | Some rule \<Rightarrow>
          if \<not> allPredicatesMatch E metadata (fr_Predicates rule)
          then ResolveFeeSchedule E metadata rules schedules
          else (case schedules (fr_FeeScheduleID rule) of
                  Some (Some schedule) \<Rightarrow> Some schedule
                | _ \<Rightarrow> ResolveFeeSchedule E metadata rules schedules))"

fun SplitRulesBySide :: "FeeRule option list \<Rightarrow> FeeRule option list \<times> FeeRule option list" where
  "SplitRulesBySide [] = ([], [])"
| "SplitRulesBySide (None # rules) = SplitRulesBySide rules"
| "SplitRulesBySide (Some rule # rules) =
     (let (leftRules, rightRules) = SplitRulesBySide rules in
      (if AppliesToLeft (fr_Side rule) then Some rule # leftRules else leftRules,
       if AppliesToRight (fr_Side rule) then Some rule # rightRules else rightRules))"

section \<open>Verification of charged fees\<close>

datatype VarianceType = VarianceMatch | VarianceUndercharge | VarianceOvercharge

record 'd FeeTolerance =
  tol_Abs :: 'd
  tol_Percent :: 'd

record 'd VarianceResult =
  vr_Type :: VarianceType
  vr_Expected :: "'d Money"
  vr_Actual :: "'d Money"
  vr_Delta :: 'd
  vr_Threshold :: 'd

definition VerifyFee :: "'d::linordered_idom Money \<Rightarrow> 'd Money \<Rightarrow> 'd FeeTolerance \<Rightarrow>
    fee_error + 'd VarianceResult" where
  "VerifyFee actual expected tolerance =
     (if m_Currency actual \<noteq> m_Currency expected then Inl ErrCurrencyMismatch
      else if tol_Abs tolerance < 0 \<or> tol_Percent tolerance < 0 then Inl ErrToleranceNegative
      else
        let maxAbs = \<bar>m_Amount expected\<bar>;
            maxAbs = (if \<bar>m_Amount actual\<bar> > maxAbs then \<bar>m_Amount actual\<bar> else maxAbs);
            percentThreshold = tol_Percent tolerance * maxAbs;
            threshold = (if percentThreshold > tol_Abs tolerance then percentThreshold
                         else tol_Abs tolerance);
            delta = m_Amount actual - m_Amount expected;
            result = (\<lambda>t. \<lparr> vr_Type = t, vr_Expected = expected, vr_Actual = actual,
                             vr_Delta = delta, vr_Threshold = threshold \<rparr>) in
        if \<bar>delta\<bar> \<le> threshold then Inr (result VarianceMatch)
        else if m_Amount actual < m_Amount expected then Inr (result VarianceUndercharge)
        else Inr (result VarianceOvercharge))"

text \<open>What a constructed rule satisfies.\<close>

definition fee_rule_wf :: "FeeRule \<Rightarrow> bool" where
  "fee_rule_wf r =
     (fr_ContextID r \<noteq> 0 \<and> fr_FeeScheduleID r \<noteq> 0 \<and> MatchingSide_IsValid (fr_Side r) \<and>
      fr_Name r \<noteq> '''' \<and> length (fr_Name r) \<le> maxFeeRuleNameLength \<and> 0 \<le> fr_Priority r \<and>
      length (fr_Predicates r) \<le> maxFeeRulePredicates \<and>
      (\<forall>p \<in> set (fr_Predicates r). FieldPredicate_Validate p = None))"

text \<open>The schedule a rule gives to a transaction, if it applies.\<close>

definition rule_schedule :: "'d ext \<Rightarrow> metadata \<Rightarrow> (uuid \<rightharpoonup> 'd FeeSchedule option) \<Rightarrow>
    FeeRule \<Rightarrow> 'd FeeSchedule option" where
  "rule_schedule E metadata schedules rule =
     (if allPredicatesMatch E metadata (fr_Predicates rule)
      then (case schedules (fr_FeeScheduleID rule) of Some s \<Rightarrow> s | None \<Rightarrow> None)
      else None)"

section \<open>Rules: lemmas\<close>

lemma trim_predicates_ok:
  "trim_predicates ps = Inr qs \<Longrightarrow>
   length qs = length ps \<and> (\<forall>q \<in> set qs. FieldPredicate_Validate q = None)"
  by (induction ps arbitrary: qs) (auto simp: Let_def split: option.splits)

lemma NewFeeRule_ok:
  "NewFeeRule now newID c f side name prio preds = Inr r \<Longrightarrow>
   fee_rule_wf r \<and> fr_ID r = newID \<and> fr_CreatedAt r = now \<and> fr_UpdatedAt r = now"
  by (auto simp: NewFeeRule_def fee_rule_wf_def Let_def dest: trim_predicates_ok split: if_splits)

text \<open>A step is safe when it keeps a well-formed rule well formed, whatever it returns, and
  leaves the update time alone when it fails.\<close>

definition safe_step :: "rule_step \<Rightarrow> bool" where
  "safe_step f = (\<forall>r. (fee_rule_wf r \<longrightarrow> fee_rule_wf (fst (f r))) \<and>
     (snd (f r) \<noteq> None \<longrightarrow> fr_UpdatedAt (fst (f r)) = fr_UpdatedAt r) \<and>
     fr_ID (fst (f r)) = fr_ID r \<and> fr_ContextID (fst (f r)) = fr_ContextID r \<and>
     fr_CreatedAt (fst (f r)) = fr_CreatedAt r)"

definition keeps_time :: "rule_step \<Rightarrow> bool" where
  "keeps_time f = (\<forall>r. fr_UpdatedAt (fst (f r)) = fr_UpdatedAt r)"

lemma safe_then:
  assumes "safe_step f" "keeps_time f" "safe_step g"
  shows "safe_step (then_step f g)"
  using assms unfolding safe_step_def keeps_time_def then_step_def
  by (auto split: prod.split option.split) (metis fst_conv snd_conv option.distinct(1))+

lemma safe_update_field:
  assumes "\<And>x y r. check x = Inr y \<Longrightarrow> fee_rule_wf r \<Longrightarrow> fee_rule_wf (set_field y r)"
    and "\<And>y r. fr_UpdatedAt (set_field y r) = fr_UpdatedAt r \<and> fr_ID (set_field y r) = fr_ID r \<and>
      fr_ContextID (set_field y r) = fr_ContextID r \<and> fr_CreatedAt (set_field y r) = fr_CreatedAt r"
  shows "safe_step (update_field check set_field v)" "keeps_time (update_field check set_field v)"
  using assms by (auto simp: safe_step_def keeps_time_def update_field_def split: option.split sum.split)

lemma FeeRule_Update_safe: "safe_step (FeeRule_Update E now input)"
  unfolding FeeRule_Update_def
  by (intro safe_then safe_update_field)
    (auto simp: safe_step_def fee_rule_wf_def check_side_def check_name_def check_priority_def
      parseFeeScheduleID_def validatePredicates_def Let_def
      dest: trim_predicates_ok split: if_splits option.splits)

section \<open>Resolution: lemmas\<close>

lemma Resolve_Cons:
  "ResolveFeeSchedule E m (Some r # rules) schedules =
     (case rule_schedule E m schedules r of
        Some s \<Rightarrow> Some s | None \<Rightarrow> ResolveFeeSchedule E m rules schedules)"
  by (auto simp: rule_schedule_def split: option.split)

lemma Resolve_sound:
  "ResolveFeeSchedule E m rules schedules = Some s \<Longrightarrow>
   \<exists>pre r post. rules = pre @ Some r # post \<and> rule_schedule E m schedules r = Some s \<and>
     (\<forall>q. Some q \<in> set pre \<longrightarrow> rule_schedule E m schedules q = None)"
proof (induction rules)
  case Nil
  then show ?case by simp
next
  case (Cons x rules)
  show ?case
  proof (cases x)
    case None
    with Cons obtain pre r post where "rules = pre @ Some r # post"
        "rule_schedule E m schedules r = Some s"
        "\<forall>q. Some q \<in> set pre \<longrightarrow> rule_schedule E m schedules q = None" by auto
    with None show ?thesis by (intro exI [of _ "None # pre"]) auto
  next
    case (Some q)
    show ?thesis
    proof (cases "rule_schedule E m schedules q")
      case None
      with Some Cons obtain pre r post where "rules = pre @ Some r # post"
          "rule_schedule E m schedules r = Some s"
          "\<forall>q. Some q \<in> set pre \<longrightarrow> rule_schedule E m schedules q = None"
        by (auto simp: Resolve_Cons simp del: ResolveFeeSchedule.simps)
      with None Some show ?thesis by (intro exI [of _ "x # pre"]) auto
    next
      case (Some s')
      with \<open>x = Some q\<close> Cons.prems show ?thesis
        by (intro exI [of _ "[]"]) (auto simp: Resolve_Cons simp del: ResolveFeeSchedule.simps)
    qed
  qed
qed

lemma Resolve_None:
  "ResolveFeeSchedule E m rules schedules = None \<longleftrightarrow>
   (\<forall>q. Some q \<in> set rules \<longrightarrow> rule_schedule E m schedules q = None)"
proof (induction rules)
  case Nil
  then show ?case by simp
next
  case (Cons x rules)
  then show ?case
    by (cases x) (auto simp: Resolve_Cons simp del: ResolveFeeSchedule.simps split: option.split,
        auto)
qed

lemma SplitRulesBySide_filter:
  "SplitRulesBySide rules =
     (filter (\<lambda>r. \<exists>q. r = Some q \<and> AppliesToLeft (fr_Side q)) rules,
      filter (\<lambda>r. \<exists>q. r = Some q \<and> AppliesToRight (fr_Side q)) rules)"
  by (induction rules rule: SplitRulesBySide.induct) (auto simp: Let_def)

section \<open>Properties\<close>

definition example_rule :: "uuid \<Rightarrow> uuid \<Rightarrow> int \<Rightarrow> FieldPredicate list \<Rightarrow> FeeRule" where
  "example_rule i s p preds = \<lparr>
     fr_ID = i, fr_ContextID = 1, fr_Side = MatchingSideAny, fr_FeeScheduleID = s,
     fr_Name = ''rule'', fr_Priority = p, fr_Predicates = preds, fr_CreatedAt = 0, fr_UpdatedAt = 0 \<rparr>"

definition brand_predicate :: FieldPredicate where
  "brand_predicate = \<lparr> p_Field = ''brand'', p_Operator = PredicateOperatorEquals,
     p_Value = ''VISA'', p_Values = [] \<rparr>"

text \<open>
  A fee rule stays well formed under \<^verbatim>\<open>Update\<close> whatever the input and whether or not the
  update returns an error half way; a failing update never moves the update time, and
  identity, context and creation time never change.
\<close>

lemma FeeRule_Update_invariant:
  assumes "fee_rule_wf r" "FeeRule_Update E now input r = (r', err)"
  shows "fee_rule_wf r' \<and> fr_ID r' = fr_ID r \<and> fr_ContextID r' = fr_ContextID r \<and>
    fr_CreatedAt r' = fr_CreatedAt r \<and> (err \<noteq> None \<longrightarrow> fr_UpdatedAt r' = fr_UpdatedAt r)"
  using FeeRule_Update_safe [of E now input] assms unfolding safe_step_def by (metis fst_conv snd_conv)

lemma FeeRule_Update_invariant_witness:
  "fee_rule_wf (fst (FeeRule_Update rat_ext 9
     \<lparr> u_Side = Some ''LEFT'', u_FeeScheduleID = None, u_Name = None, u_Priority = Some (-1),
       u_Predicates = None \<rparr> (example_rule 1 2 3 []))) \<and>
   FeeRule_Update rat_ext 9
     \<lparr> u_Side = Some ''LEFT'', u_FeeScheduleID = None, u_Name = None, u_Priority = Some (-1),
       u_Predicates = None \<rparr> (example_rule 1 2 3 [])
   = ((example_rule 1 2 3 [])\<lparr> fr_Side := MatchingSideLeft \<rparr>, Some ErrFeeRulePriorityNegative)"
proof -
  let ?in = "\<lparr> u_Side = Some ''LEFT'', u_FeeScheduleID = None, u_Name = None, u_Priority = Some (-1),
    u_Predicates = None \<rparr>"
  have u: "FeeRule_Update rat_ext 9 ?in (example_rule 1 2 3 [])
    = ((example_rule 1 2 3 [])\<lparr> fr_Side := MatchingSideLeft \<rparr>, Some ErrFeeRulePriorityNegative)"
    by (simp add: FeeRule_Update_def then_step_def update_field_def check_side_def check_priority_def
        MatchingSide_of_def)
  have "fee_rule_wf (example_rule 1 2 3 [])"
    by (simp add: fee_rule_wf_def example_rule_def maxFeeRuleNameLength_def maxFeeRulePredicates_def)
  from FeeRule_Update_invariant [OF this u] u show ?thesis by simp
qed



text \<open>
  \<^verbatim>\<open>SplitRulesBySide\<close> keeps, in order, the LEFT and ANY rules on the left and the RIGHT and
  ANY rules on the right; no valid rule is lost, and only ANY rules are on both sides.
\<close>

lemma SplitRulesBySide_partition:
  assumes "SplitRulesBySide (map Some rules) = (lefts, rights)"
    and "\<forall>r \<in> set rules. MatchingSide_IsValid (fr_Side r)"
  shows "lefts = map Some (filter (\<lambda>r. AppliesToLeft (fr_Side r)) rules) \<and>
    rights = map Some (filter (\<lambda>r. AppliesToRight (fr_Side r)) rules) \<and>
    set lefts \<union> set rights = Some ` set rules \<and>
    (\<forall>r. Some r \<in> set lefts \<inter> set rights \<longrightarrow> fr_Side r = MatchingSideAny)"
proof -
  have "r \<in> set rules \<Longrightarrow> AppliesToLeft (fr_Side r) \<or> AppliesToRight (fr_Side r)" for r
    using assms(2) by (cases "fr_Side r") (auto simp: AppliesToLeft_def AppliesToRight_def)
  moreover have "AppliesToLeft x \<and> AppliesToRight x \<longleftrightarrow> x = MatchingSideAny" for x
    by (auto simp: AppliesToLeft_def AppliesToRight_def)
  moreover have "lefts = map Some (filter (\<lambda>r. AppliesToLeft (fr_Side r)) rules)"
    "rights = map Some (filter (\<lambda>r. AppliesToRight (fr_Side r)) rules)"
    using assms(1) by (simp_all add: SplitRulesBySide_filter filter_map comp_def)
  ultimately show ?thesis by (simp add: image_Un [symmetric]) blast
qed

lemma SplitRulesBySide_partition_witness:
  "set (fst (SplitRulesBySide (map Some [example_rule 1 7 0 []]))) \<union>
   set (snd (SplitRulesBySide (map Some [example_rule 1 7 0 []]))) = {Some (example_rule 1 7 0 [])}"
  using SplitRulesBySide_partition [of "[example_rule 1 7 0 []]"]
  by (auto simp: example_rule_def AppliesToLeft_def AppliesToRight_def)

text \<open>
  \<^verbatim>\<open>VerifyFee\<close> accepts a charge exactly when it is within the larger of the absolute
  tolerance and the percentage of the larger fee; otherwise it says which side of the expected
  fee the charge is on, and exchanging charged and expected exchanges the verdicts.
\<close>

lemma VerifyFee_classifies:
  assumes "m_Currency actual = m_Currency expected" "0 \<le> tol_Abs t" "0 \<le> tol_Percent t"
  shows "\<exists>v w. VerifyFee actual expected t = Inr v \<and> VerifyFee expected actual t = Inr w \<and>
    vr_Threshold v = max (tol_Abs t) (tol_Percent t * max \<bar>m_Amount actual\<bar> \<bar>m_Amount expected\<bar>) \<and>
    (vr_Type v = VarianceMatch \<longleftrightarrow> \<bar>m_Amount actual - m_Amount expected\<bar> \<le> vr_Threshold v) \<and>
    (vr_Type v = VarianceUndercharge \<longleftrightarrow> m_Amount actual + vr_Threshold v < m_Amount expected) \<and>
    (vr_Type v = VarianceOvercharge \<longleftrightarrow> m_Amount expected + vr_Threshold v < m_Amount actual) \<and>
    vr_Delta w = - vr_Delta v \<and>
    (vr_Type w = VarianceOvercharge \<longleftrightarrow> vr_Type v = VarianceUndercharge)"
proof -
  define m where "m = max \<bar>m_Amount actual\<bar> \<bar>m_Amount expected\<bar>"
  define th where "th = max (tol_Abs t) (tol_Percent t * m)"
  have m: "(if \<bar>m_Amount actual\<bar> > \<bar>m_Amount expected\<bar> then \<bar>m_Amount actual\<bar> else \<bar>m_Amount expected\<bar>) = m"
    "(if \<bar>m_Amount expected\<bar> > \<bar>m_Amount actual\<bar> then \<bar>m_Amount expected\<bar> else \<bar>m_Amount actual\<bar>) = m"
    by (auto simp: m_def)
  have th: "(if tol_Percent t * m > tol_Abs t then tol_Percent t * m else tol_Abs t) = th" "0 \<le> th"
    using assms(2) by (auto simp: th_def)
  have ab: "(\<bar>x\<bar> \<le> th) \<longleftrightarrow> x \<le> th \<and> - x \<le> th" for x :: 'a by (auto simp: abs_le_iff)
  show ?thesis
    using assms th(2) unfolding VerifyFee_def Let_def m th(1)
    by (auto simp: ab m_def [symmetric] th_def [symmetric])
qed

lemma VerifyFee_classifies_witness:
  "\<exists>v. VerifyFee \<lparr> m_Amount = 7, m_Currency = ''USD'' \<rparr> \<lparr> m_Amount = (10 :: rat), m_Currency = ''USD'' \<rparr>
         \<lparr> tol_Abs = 1, tol_Percent = 1 / 10 \<rparr> = Inr v \<and> vr_Type v = VarianceUndercharge"
  using VerifyFee_classifies [of "\<lparr> m_Amount = 7, m_Currency = ''USD'' \<rparr>"
      "\<lparr> m_Amount = (10 :: rat), m_Currency = ''USD'' \<rparr>" "\<lparr> tol_Abs = 1, tol_Percent = 1 / 10 \<rparr>"]
  by auto

end
