(* ===== verification/Matching_Types.thy ===== *)
theory Matching_Types
  imports Fee_Schedule
begin

text \<open>
  Package \<^verbatim>\<open>internal/matching/domain/services\<close>, the files \<^verbatim>\<open>types.go\<close>,
  \<^verbatim>\<open>rule_definition.go\<close>, \<^verbatim>\<open>date_math.go\<close> and \<^verbatim>\<open>deterministic_sort.go\<close>: candidate
  transactions, rule definitions, proposals, day arithmetic and the two deterministic sorts.
  A Go string type with named constants is a datatype of those constants and one constructor
  for every other string. Counts and days of configurations are mathematical integers: the
  code only compares them.
\<close>

datatype services_error =
    ErrNilMatchRule | ErrUnsupportedRuleType
  | ErrExactConfigRequired | ErrInvalidDatePrecision
  | ErrToleranceConfigRequired | ErrInvalidRoundingMode | ErrInvalidRoundingScale
  | ErrInvalidDateWindowDays | ErrInvalidTolerance
  | ErrDateLagConfigRequired | ErrDateLagDaysMustBeNonNeg | ErrDateLagMaxMustBeGTEMin
  | ErrDateLagFeeToleranceNegative | ErrDateLagInvalidDirection
  | ErrAllocationConfigRequired | ErrBaseAmountRequired | ErrBaseCurrencyRequired
  | ErrNegativeAllocationAmount | ErrNegativeAllocationTarget | ErrNegativeAllocationCandidate
  | ErrInvalidAllocationToleranceMode | ErrInvalidAllocationDirection
  | ErrNegativeAllocationTolerance
  | ErrNilRuleConfig | ErrCandidateSetTooLarge | ErrEngineIsNil

section \<open>Transactions and proposals\<close>

record 'd CandidateTransaction =
  c_ID :: uuid
  c_SourceID :: uuid
  c_Amount :: 'd
  c_OriginalAmount :: 'd
  c_AmountBase :: "'d option"
  c_FeeBreakdown :: "'d FeeBreakdown option"
  c_Currency :: string
  c_CurrencyBase :: string
  c_Reference :: string
  c_Date :: time

record 'd Allocation =
  a_TransactionID :: uuid
  a_AllocatedAmount :: 'd
  a_Currency :: string
  a_UseBaseAmount :: bool

record 'd MatchProposal =
  mp_RuleID :: uuid
  mp_LeftIDs :: "uuid list"
  mp_RightIDs :: "uuid list"
  mp_LeftAllocations :: "'d Allocation list"
  mp_RightAllocations :: "'d Allocation list"
  mp_Score :: int
  mp_Mode :: string

section \<open>Rule definitions\<close>

datatype DatePrecision = DatePrecisionDay | DatePrecisionTimestamp | DatePrecisionOther string

datatype RoundingMode =
  RoundingHalfUp | RoundingBankers | RoundingFloor | RoundingCeil | RoundingTruncate | RoundingOther string

datatype DateLagDirection =
    DateLagDirectionAbs | DateLagDirectionLeftBeforeRight | DateLagDirectionRightBeforeLeft
  | DateLagDirectionOther string

datatype AllocationDirection =
  AllocationDirectionLeftToRight | AllocationDirectionRightToLeft | AllocationDirectionOther string

datatype AllocationToleranceMode =
  AllocationToleranceAbsolute | AllocationTolerancePercent | AllocationToleranceOther string

datatype TolerancePercentageBase =
    TolerancePercentageBaseMax | TolerancePercentageBaseMin | TolerancePercentageBaseAvg
  | TolerancePercentageBaseLeft | TolerancePercentageBaseRight | TolerancePercentageBaseOther string

record ExactConfig =
  ex_MatchAmount :: bool
  ex_MatchCurrency :: bool
  ex_MatchDate :: bool
  ex_DatePrecision :: DatePrecision
  ex_MatchReference :: bool
  ex_CaseInsensitive :: bool
  ex_ReferenceMustSet :: bool
  ex_MatchBaseAmount :: bool
  ex_MatchBaseCurrency :: bool
  ex_MatchScore :: int
  ex_MatchBaseScore :: int

record 'd ToleranceConfig =
  to_MatchCurrency :: bool
  to_DateWindowDays :: int
  to_AbsAmountTolerance :: 'd
  to_PercentTolerance :: 'd
  to_RoundingScale :: int
  to_RoundingMode :: RoundingMode
  to_MatchBaseAmount :: bool
  to_MatchBaseCurrency :: bool
  to_MatchScore :: int
  to_MatchBaseScore :: int
  to_PercentageBase :: TolerancePercentageBase
  to_MatchReference :: bool
  to_CaseInsensitive :: bool
  to_ReferenceMustSet :: bool

record 'd DateLagConfig =
  dl_MinDays :: int
  dl_MaxDays :: int
  dl_Inclusive :: bool
  dl_Direction :: DateLagDirection
  dl_FeeTolerance :: 'd
  dl_MatchScore :: int
  dl_MatchCurrency :: bool

record 'd AllocationConfig =
  al_AllowPartial :: bool
  al_Direction :: AllocationDirection
  al_ToleranceMode :: AllocationToleranceMode
  al_ToleranceValue :: 'd
  al_UseBaseAmount :: bool

datatype RuleType = RuleTypeExact | RuleTypeTolerance | RuleTypeDateLag | RuleTypeOther string

fun RuleType_string :: "RuleType \<Rightarrow> string" where
  "RuleType_string RuleTypeExact = ''EXACT''"
| "RuleType_string RuleTypeTolerance = ''TOLERANCE''"
| "RuleType_string RuleTypeDateLag = ''DATE_LAG''"
| "RuleType_string (RuleTypeOther s) = s"

fun RuleType_Valid :: "RuleType \<Rightarrow> bool" where
  "RuleType_Valid (RuleTypeOther _) = False"
| "RuleType_Valid _ = True"

record 'd RuleDefinition =
  r_ID :: uuid
  r_Priority :: int
  r_Type :: RuleType
  r_Exact :: "ExactConfig option"
  r_Tolerance :: "'d ToleranceConfig option"
  r_DateLag :: "'d DateLagConfig option"
  r_Allocation :: "'d AllocationConfig option"

section \<open>Days\<close>

text \<open>Midnight UTC of a day is a multiple of the day's length since the epoch.\<close>

definition DayUTC :: "time \<Rightarrow> time" where
  "DayUTC t = t div nanos_per_day * nanos_per_day"

definition SignedDayDiff :: "time \<Rightarrow> time \<Rightarrow> int" where
  "SignedDayDiff left right = go_div (time_sub (DayUTC right) (DayUTC left)) nanos_per_day"

definition AbsDayDiff :: "time \<Rightarrow> time \<Rightarrow> int" where
  "AbsDayDiff left right =
     (let d = SignedDayDiff left right in if d < 0 then - d else d)"

section \<open>Deterministic order\<close>

definition rule_lt :: "'d ext \<Rightarrow> 'd RuleDefinition \<Rightarrow> 'd RuleDefinition \<Rightarrow> bool" where
  "rule_lt E =
     then_lt r_Priority
    (then_lt (RuleType_string \<circ> r_Type)
    (key_lt (uuid_string E \<circ> r_ID)))"

definition SortRules :: "'d ext \<Rightarrow> 'd RuleDefinition list \<Rightarrow> 'd RuleDefinition list" where
  "SortRules E rules = SliceStable (rule_lt E) rules"

text \<open>The base amount sorts nil first, then by value: the key is the pair of both.\<close>

definition base_lt :: "('d::linordered_idom CandidateTransaction \<Rightarrow> 'd CandidateTransaction \<Rightarrow> bool) \<Rightarrow>
    'd CandidateTransaction \<Rightarrow> 'd CandidateTransaction \<Rightarrow> bool" where
  "base_lt next x y =
     (case (c_AmountBase x, c_AmountBase y) of
        (Some a, Some b) \<Rightarrow> if a \<noteq> b then a < b else next x y
      | (None, Some _) \<Rightarrow> True
      | (Some _, None) \<Rightarrow> False
      | (None, None) \<Rightarrow> next x y)"

definition tx_lt :: "'d::linordered_idom ext \<Rightarrow> 'd CandidateTransaction \<Rightarrow> 'd CandidateTransaction \<Rightarrow> bool" where
  "tx_lt E =
     then_lt (DayUTC \<circ> c_Date)
    (then_lt c_Amount
    (then_lt c_Currency
    (base_lt
    (then_lt c_CurrencyBase
    (then_lt c_Reference
    (key_lt (uuid_string E \<circ> c_ID)))))))"

definition SortTransactions :: "'d::linordered_idom ext \<Rightarrow> 'd CandidateTransaction list \<Rightarrow>
    'd CandidateTransaction list" where
  "SortTransactions E txs = SliceStable (tx_lt E) txs"

section \<open>Days: lemmas\<close>

lemma nanos_per_day_pos [simp]: "0 < nanos_per_day" "nanos_per_day \<noteq> 0"
  by (simp_all add: nanos_per_day_def nanos_per_hour_def)

lemma DayUTC_le: "DayUTC t \<le> t" "t < DayUTC t + nanos_per_day"
  using pos_mod_bound [OF nanos_per_day_pos(1), of t] pos_mod_sign [OF nanos_per_day_pos(1), of t]
    div_mult_mod_eq [of t nanos_per_day]
  unfolding DayUTC_def by linarith+

lemma DayUTC_idem [simp]: "DayUTC (DayUTC t) = DayUTC t"
  by (simp add: DayUTC_def)

text \<open>The range in which \<^verbatim>\<open>time.Duration\<close> holds the difference of two days.\<close>

definition days_exact :: "time \<Rightarrow> time \<Rightarrow> bool" where
  "days_exact t u = (min_duration \<le> DayUTC u - DayUTC t \<and> DayUTC u - DayUTC t \<le> max_duration)"

lemma SignedDayDiff_exact:
  assumes "days_exact t u"
  shows "SignedDayDiff t u = u div nanos_per_day - t div nanos_per_day"
proof -
  have "time_sub (DayUTC u) (DayUTC t) = (u div nanos_per_day - t div nanos_per_day) * nanos_per_day"
    using assms by (simp add: time_sub_exact days_exact_def) (simp add: DayUTC_def left_diff_distrib)
  then show ?thesis
    using nanos_per_day_pos
    by (simp add: SignedDayDiff_def go_div_def sgn_mult abs_mult mult_sgn_abs)
qed

lemma go_div_bound: "\<bar>go_div a b\<bar> \<le> \<bar>a\<bar> div \<bar>b\<bar>" if "b \<noteq> 0"
  using that by (simp add: go_div_def abs_mult abs_sgn_eq pos_imp_zdiv_nonneg_iff)

text \<open>Saturation bounds every difference of days, so negation and the comparison with the
  configured windows never overflow.\<close>

lemma SignedDayDiff_bound: "\<bar>SignedDayDiff t u\<bar> \<le> 106751"
proof -
  have "\<bar>time_sub (DayUTC u) (DayUTC t)\<bar> \<le> 2 ^ 63"
    using time_sub_bounds [of "DayUTC u" "DayUTC t"] by (auto simp: min_duration_def max_duration_def)
  then have "\<bar>time_sub (DayUTC u) (DayUTC t)\<bar> div \<bar>nanos_per_day\<bar> \<le> 2 ^ 63 div \<bar>nanos_per_day\<bar>"
    by (rule zdiv_mono1) simp
  also have "2 ^ 63 div \<bar>nanos_per_day\<bar> = 106751"
    by (simp add: nanos_per_day_def nanos_per_hour_def)
  finally show ?thesis
    using go_div_bound [of nanos_per_day "time_sub (DayUTC u) (DayUTC t)"]
    unfolding SignedDayDiff_def by (simp add: nanos_per_day_def nanos_per_hour_def)
qed

lemma AbsDayDiff_abs: "AbsDayDiff t u = \<bar>SignedDayDiff t u\<bar>"
  by (simp add: AbsDayDiff_def Let_def)

section \<open>Deterministic order: lemmas\<close>

interpretation rule_order: strict_weak_order "rule_lt E"
  unfolding rule_lt_def by (intro strict_weak_order_then strict_weak_order_key)

lemma strict_weak_order_base:
  assumes "strict_weak_order n"
  shows "strict_weak_order (base_lt n)"
proof -
  note l = strict_weak_order.irrefl [OF assms] strict_weak_order.trans [OF assms]
    strict_weak_order.incomparable_trans [OF assms]
  show ?thesis
  proof
    fix x y z
    show "\<not> base_lt n x x" using l(1) by (simp add: base_lt_def split: option.split)
    show "base_lt n x z" if "base_lt n x y" "base_lt n y z"
      using that l(2) [of x y z] by (auto simp: base_lt_def split: option.splits if_splits)
    show "\<not> base_lt n x z" if "\<not> base_lt n x y" "\<not> base_lt n y z"
      using that l(3) [of x y z] by (auto simp: base_lt_def split: option.splits if_splits)
  qed
qed

interpretation tx_order: strict_weak_order "tx_lt E"
  unfolding tx_lt_def
  by (intro strict_weak_order_then strict_weak_order_base strict_weak_order_key)

lemma rule_lt_incomparable:
  "\<not> rule_lt E x y \<Longrightarrow> \<not> rule_lt E y x \<Longrightarrow> uuid_string E (r_ID x) = uuid_string E (r_ID y)"
  by (auto simp: rule_lt_def then_lt_def key_lt_def split: if_splits)

lemma tx_lt_incomparable:
  "\<not> tx_lt E x y \<Longrightarrow> \<not> tx_lt E y x \<Longrightarrow> uuid_string E (c_ID x) = uuid_string E (c_ID y)"
  by (auto simp: tx_lt_def then_lt_def base_lt_def key_lt_def split: if_splits option.splits)

lemma SortRules_set [simp]: "set (SortRules E rs) = set rs" "length (SortRules E rs) = length rs"
  "mset (SortRules E rs) = mset rs"
  by (simp_all add: SortRules_def)

lemma SortTransactions_set [simp]: "set (SortTransactions E ts) = set ts"
  "length (SortTransactions E ts) = length ts" "mset (SortTransactions E ts) = mset ts"
  "distinct (map f (SortTransactions E ts)) = distinct (map f ts)"
  by (simp_all add: SortTransactions_def)

lemma SortRules_idem [simp]: "SortRules E (SortRules E rs) = SortRules E rs"
  by (simp add: SortRules_def rule_order.idem)

lemma SortTransactions_idem [simp]: "SortTransactions E (SortTransactions E ts) = SortTransactions E ts"
  by (simp add: SortTransactions_def tx_order.idem)

context externals
begin

lemma SortRules_mset:
  "mset rs = mset rs' \<Longrightarrow> distinct (map r_ID rs) \<Longrightarrow> SortRules E rs = SortRules E rs'"
  unfolding SortRules_def
  by (rule rule_order.deterministic)
    (auto simp: distinct_map dest!: rule_lt_incomparable dest: inj_onD injD [OF uuid_string_inj])

lemma SortTransactions_mset:
  "mset ts = mset ts' \<Longrightarrow> distinct (map c_ID ts) \<Longrightarrow> SortTransactions E ts = SortTransactions E ts'"
  unfolding SortTransactions_def
  by (rule tx_order.deterministic)
    (auto simp: distinct_map dest!: tx_lt_incomparable dest: inj_onD injD [OF uuid_string_inj])

end

end
