(* ===== verification/Evaluators.thy ===== *)
theory Evaluators
  imports Matching_Types
begin

text \<open>
  Package \<^verbatim>\<open>internal/matching/domain/services\<close>, the files \<^verbatim>\<open>exact_evaluator.go\<close>,
  \<^verbatim>\<open>tolerance_evaluator.go\<close>, \<^verbatim>\<open>date_lag_evaluator.go\<close>, \<^verbatim>\<open>currency_conversion.go\<close> and the
  ASCII comparison of \<^verbatim>\<open>confidence_scorer.go\<close>: whether one pair of transactions matches under
  one rule configuration.
\<close>

section \<open>Exact\<close>

definition matchAmountAndCurrency :: "'d CandidateTransaction \<Rightarrow> 'd CandidateTransaction \<Rightarrow> ExactConfig \<Rightarrow> bool" where
  "matchAmountAndCurrency left right cfg =
     (if ex_MatchAmount cfg \<and> c_Amount left \<noteq> c_Amount right then False
      else if ex_MatchCurrency cfg \<and> c_Currency left \<noteq> c_Currency right then False
      else True)"

definition base_currencies_match :: "'d CandidateTransaction \<Rightarrow> 'd CandidateTransaction \<Rightarrow> bool" where
  "base_currencies_match left right =
     (if c_CurrencyBase left = '''' \<or> c_CurrencyBase right = '''' then False
      else c_CurrencyBase left = c_CurrencyBase right)"

definition matchBaseAmountAndCurrency :: "'d CandidateTransaction \<Rightarrow> 'd CandidateTransaction \<Rightarrow> ExactConfig \<Rightarrow> bool" where
  "matchBaseAmountAndCurrency left right cfg =
     ((ex_MatchBaseAmount cfg \<longrightarrow>
        (case (c_AmountBase left, c_AmountBase right) of
           (Some a, Some b) \<Rightarrow> a = b
         | _ \<Rightarrow> False)) \<and>
      (ex_MatchBaseCurrency cfg \<longrightarrow> base_currencies_match left right))"

definition matchDate :: "'d CandidateTransaction \<Rightarrow> 'd CandidateTransaction \<Rightarrow> ExactConfig \<Rightarrow>
    services_error + bool" where
  "matchDate left right cfg =
     (if \<not> ex_MatchDate cfg then Inr True
      else case ex_DatePrecision cfg of
             DatePrecisionDay \<Rightarrow> Inr (DayUTC (c_Date left) = DayUTC (c_Date right))
           | DatePrecisionTimestamp \<Rightarrow> Inr (c_Date left = c_Date right)
           | DatePrecisionOther _ \<Rightarrow> Inl ErrInvalidDatePrecision)"

definition matchReference :: "'d ext \<Rightarrow> 'd CandidateTransaction \<Rightarrow> 'd CandidateTransaction \<Rightarrow> ExactConfig \<Rightarrow> bool" where
  "matchReference E left right cfg =
     (if \<not> ex_MatchReference cfg then True
      else
        let leftRef = TrimSpace (c_Reference left); rightRef = TrimSpace (c_Reference right) in
        if ex_ReferenceMustSet cfg \<and> (leftRef = '''' \<or> rightRef = '''') then False
        else if ex_CaseInsensitive cfg then equal_fold E leftRef rightRef
        else leftRef = rightRef)"

definition ExactMatch :: "'d ext \<Rightarrow> 'd CandidateTransaction \<Rightarrow> 'd CandidateTransaction \<Rightarrow>
    ExactConfig option \<Rightarrow> services_error + bool" where
  "ExactMatch E left right config =
     (case config of
        None \<Rightarrow> Inl ErrExactConfigRequired
      | Some cfg \<Rightarrow>
          if \<not> matchAmountAndCurrency left right cfg then Inr False
          else if \<not> matchBaseAmountAndCurrency left right cfg then Inr False
          else rbind (matchDate left right cfg) (\<lambda>matched.
            if \<not> matched then Inr False
            else if \<not> matchReference E left right cfg then Inr False
            else Inr True))"

section \<open>Tolerance\<close>

text \<open>\<^verbatim>\<open>equalFold\<close>: ASCII-only comparison, byte by byte.\<close>

fun fold_bytes :: "string \<Rightarrow> string \<Rightarrow> bool" where
  "fold_bytes (a # as) (b # bs) =
     (if a \<noteq> b \<and> ascii_lower a \<noteq> ascii_lower b then False else fold_bytes as bs)"
| "fold_bytes _ _ = True"

definition equalFold :: "string \<Rightarrow> string \<Rightarrow> bool" where
  "equalFold left right = (if length left \<noteq> length right then False else fold_bytes left right)"

definition roundAmount :: "'d ext \<Rightarrow> 'd \<Rightarrow> int \<Rightarrow> RoundingMode \<Rightarrow> services_error + 'd" where
  "roundAmount E amount scale mode =
     (if scale < 0 then Inl ErrInvalidRoundingScale
      else if scale > 2 ^ 31 - 1 then Inl ErrInvalidRoundingScale
      else case mode of
             RoundingHalfUp \<Rightarrow> Inr (dec_round E amount scale)
           | RoundingBankers \<Rightarrow> Inr (dec_round_bank E amount scale)
           | RoundingFloor \<Rightarrow> Inr (dec_round_floor E amount scale)
           | RoundingCeil \<Rightarrow> Inr (dec_round_ceil E amount scale)
           | RoundingTruncate \<Rightarrow> Inr (dec_truncate E amount scale)
           | RoundingOther _ \<Rightarrow> Inl ErrInvalidRoundingMode)"

definition toleranceThreshold :: "'d::linordered_idom ext \<Rightarrow> 'd \<Rightarrow> 'd \<Rightarrow> 'd \<Rightarrow> 'd \<Rightarrow>
    TolerancePercentageBase \<Rightarrow> 'd" where
  "toleranceThreshold E absTol pctTol left right base =
     (let leftAbs = \<bar>left\<bar>; rightAbs = \<bar>right\<bar>;
          baseAmount =
            (case base of
               TolerancePercentageBaseMin \<Rightarrow> if rightAbs < leftAbs then rightAbs else leftAbs
             | TolerancePercentageBaseAvg \<Rightarrow> dec_div E (leftAbs + rightAbs) 2
             | TolerancePercentageBaseLeft \<Rightarrow> leftAbs
             | TolerancePercentageBaseRight \<Rightarrow> rightAbs
             | _ \<Rightarrow> if rightAbs > leftAbs then rightAbs else leftAbs);
          percentThreshold = pctTol * baseAmount in
      if percentThreshold > absTol then percentThreshold else absTol)"

definition validateToleranceConfig :: "'d::linordered_idom ext \<Rightarrow> 'd ToleranceConfig option \<Rightarrow>
    services_error option" where
  "validateToleranceConfig E config =
     (case config of
        None \<Rightarrow> Some ErrToleranceConfigRequired
      | Some cfg \<Rightarrow>
          if to_DateWindowDays cfg < 0 then Some ErrInvalidDateWindowDays
          else if to_AbsAmountTolerance cfg < 0 \<or> to_PercentTolerance cfg < 0 then Some ErrInvalidTolerance
          else case roundAmount E 0 (to_RoundingScale cfg) (to_RoundingMode cfg) of
                 Inl err \<Rightarrow> Some err
               | Inr _ \<Rightarrow> None)"

definition toleranceCurrencyMatch :: "'d CandidateTransaction \<Rightarrow> 'd CandidateTransaction \<Rightarrow> 'd ToleranceConfig \<Rightarrow> bool" where
  "toleranceCurrencyMatch left right cfg =
     (if to_MatchCurrency cfg \<and> c_Currency left \<noteq> c_Currency right then False
      else if to_MatchBaseCurrency cfg then base_currencies_match left right
      else True)"

definition toleranceDateMatch :: "'d CandidateTransaction \<Rightarrow> 'd CandidateTransaction \<Rightarrow> 'd ToleranceConfig \<Rightarrow> bool" where
  "toleranceDateMatch left right cfg = (AbsDayDiff (c_Date left) (c_Date right) \<le> to_DateWindowDays cfg)"

definition toleranceBaseAmountMatch :: "'d CandidateTransaction \<Rightarrow> 'd CandidateTransaction \<Rightarrow> 'd ToleranceConfig \<Rightarrow> bool" where
  "toleranceBaseAmountMatch left right cfg =
     (if to_MatchBaseAmount cfg \<and> (c_AmountBase left = None \<or> c_AmountBase right = None) then False else True)"

definition toleranceReferenceMatch :: "'d CandidateTransaction \<Rightarrow> 'd CandidateTransaction \<Rightarrow> 'd ToleranceConfig \<Rightarrow> bool" where
  "toleranceReferenceMatch left right cfg =
     (if \<not> to_MatchReference cfg then True
      else
        let leftRef = TrimSpace (c_Reference left); rightRef = TrimSpace (c_Reference right) in
        if to_ReferenceMustSet cfg \<and> (leftRef = '''' \<or> rightRef = '''') then False
        else if leftRef = '''' \<and> rightRef = '''' then True
        else if to_CaseInsensitive cfg then equalFold leftRef rightRef
        else leftRef = rightRef)"

definition validateToleranceMatchInputs :: "'d::linordered_idom ext \<Rightarrow> 'd CandidateTransaction \<Rightarrow>
    'd CandidateTransaction \<Rightarrow> 'd ToleranceConfig option \<Rightarrow> services_error + bool" where
  "validateToleranceMatchInputs E left right config =
     (case validateToleranceConfig E config of
        Some err \<Rightarrow> Inl err
      | None \<Rightarrow>
          let cfg = the config in
          if \<not> toleranceCurrencyMatch left right cfg then Inr False
          else if \<not> toleranceDateMatch left right cfg then Inr False
          else if \<not> toleranceBaseAmountMatch left right cfg then Inr False
          else if \<not> toleranceReferenceMatch left right cfg then Inr False
          else Inr True)"

text \<open>The amounts the evaluator compares: the base amounts when the rule says so.\<close>

definition compared_amounts :: "'d ToleranceConfig \<Rightarrow> 'd CandidateTransaction \<Rightarrow> 'd CandidateTransaction \<Rightarrow> 'd \<times> 'd" where
  "compared_amounts cfg left right =
     (if to_MatchBaseAmount cfg then (the (c_AmountBase left), the (c_AmountBase right))
      else (c_Amount left, c_Amount right))"

definition ToleranceMatch :: "'d::linordered_idom ext \<Rightarrow> 'd CandidateTransaction \<Rightarrow>
    'd CandidateTransaction \<Rightarrow> 'd ToleranceConfig option \<Rightarrow> services_error + bool" where
  "ToleranceMatch E left right config =
     rbind (validateToleranceMatchInputs E left right config) (\<lambda>preflightOk.
       if \<not> preflightOk then Inr False
       else
         let cfg = the config; (leftAmount, rightAmount) = compared_amounts cfg left right in
         rbind (roundAmount E leftAmount (to_RoundingScale cfg) (to_RoundingMode cfg)) (\<lambda>leftRounded.
         rbind (roundAmount E rightAmount (to_RoundingScale cfg) (to_RoundingMode cfg)) (\<lambda>rightRounded.
           let diff = \<bar>leftRounded - rightRounded\<bar>;
               threshold = toleranceThreshold E (to_AbsAmountTolerance cfg) (to_PercentTolerance cfg)
                             leftRounded rightRounded (to_PercentageBase cfg) in
           if diff > threshold then Inr False else Inr True)))"

text \<open>\<^verbatim>\<open>ConvertToBaseAmount\<close>; the rate is the positive decimal inside \<^verbatim>\<open>FXRate\<close>.\<close>

definition ConvertToBaseAmount :: "'d::linordered_idom ext \<Rightarrow> 'd \<Rightarrow> 'd \<Rightarrow> int \<Rightarrow> RoundingMode \<Rightarrow>
    services_error + 'd" where
  "ConvertToBaseAmount E amount fxRate roundingScale roundingMode =
     roundAmount E (amount * fxRate) roundingScale roundingMode"

section \<open>Date lag\<close>

definition validateDateLagConfig :: "'d DateLagConfig option \<Rightarrow> services_error option" where
  "validateDateLagConfig config =
     (case config of
        None \<Rightarrow> Some ErrDateLagConfigRequired
      | Some cfg \<Rightarrow>
          if dl_MinDays cfg < 0 \<or> dl_MaxDays cfg < 0 then Some ErrDateLagDaysMustBeNonNeg
          else if dl_MaxDays cfg < dl_MinDays cfg then Some ErrDateLagMaxMustBeGTEMin
          else None)"

definition dateLagCurrencyMatch :: "'d CandidateTransaction \<Rightarrow> 'd CandidateTransaction \<Rightarrow> 'd DateLagConfig \<Rightarrow> bool" where
  "dateLagCurrencyMatch left right cfg =
     (if dl_MatchCurrency cfg \<and> c_Currency left \<noteq> c_Currency right then False
      else if \<not> dl_MatchCurrency cfg \<and> (c_Currency left = '''' \<or> c_Currency right = '''') then False
      else True)"

definition validateFeeTolerance :: "'d::linordered_idom \<Rightarrow> services_error option" where
  "validateFeeTolerance feeTolerance =
     (if feeTolerance < 0 then Some ErrDateLagFeeToleranceNegative else None)"

definition amountWithinFeeTolerance :: "'d::linordered_idom CandidateTransaction \<Rightarrow> 'd CandidateTransaction \<Rightarrow> 'd \<Rightarrow> bool" where
  "amountWithinFeeTolerance left right feeTolerance =
     (\<not> \<bar>c_Amount left - c_Amount right\<bar> > feeTolerance)"

definition computeLeftBeforeRightDiff :: "int \<Rightarrow> int \<Rightarrow> int" where
  "computeLeftBeforeRightDiff signedDays minDays =
     (if signedDays < 0 \<or> (signedDays = 0 \<and> minDays > 0) then -1 else signedDays)"

definition computeRightBeforeLeftDiff :: "int \<Rightarrow> int \<Rightarrow> int" where
  "computeRightBeforeLeftDiff signedDays minDays =
     (if signedDays > 0 \<or> (signedDays = 0 \<and> minDays > 0) then -1 else - signedDays)"

definition computeDateLagDiff :: "'d CandidateTransaction \<Rightarrow> 'd CandidateTransaction \<Rightarrow> 'd DateLagConfig \<Rightarrow>
    services_error + int" where
  "computeDateLagDiff left right cfg =
     (let signedDays = SignedDayDiff (c_Date left) (c_Date right);
          abs = (if signedDays < 0 then - signedDays else signedDays) in
      case dl_Direction cfg of
        DateLagDirectionAbs \<Rightarrow> Inr abs
      | DateLagDirectionLeftBeforeRight \<Rightarrow> Inr (computeLeftBeforeRightDiff signedDays (dl_MinDays cfg))
      | DateLagDirectionRightBeforeLeft \<Rightarrow> Inr (computeRightBeforeLeftDiff signedDays (dl_MinDays cfg))
      | DateLagDirectionOther _ \<Rightarrow> Inl ErrDateLagInvalidDirection)"

definition isWithinDateLagBounds :: "int \<Rightarrow> 'd DateLagConfig \<Rightarrow> bool" where
  "isWithinDateLagBounds diff cfg =
     (if dl_Inclusive cfg then diff \<ge> dl_MinDays cfg \<and> diff \<le> dl_MaxDays cfg
      else diff > dl_MinDays cfg \<and> diff < dl_MaxDays cfg)"

definition DateLagMatch :: "'d::linordered_idom CandidateTransaction \<Rightarrow> 'd CandidateTransaction \<Rightarrow>
    'd DateLagConfig option \<Rightarrow> services_error + bool" where
  "DateLagMatch left right config =
     (case validateDateLagConfig config of
        Some err \<Rightarrow> Inl err
      | None \<Rightarrow>
          let cfg = the config in
          if \<not> dateLagCurrencyMatch left right cfg then Inr False
          else case validateFeeTolerance (dl_FeeTolerance cfg) of
                 Some err \<Rightarrow> Inl err
               | None \<Rightarrow>
                   if \<not> amountWithinFeeTolerance left right (dl_FeeTolerance cfg) then Inr False
                   else rbind (computeDateLagDiff left right cfg) (\<lambda>diff.
                     if diff < 0 then Inr False
                     else Inr (isWithinDateLagBounds diff cfg)))"

section \<open>Comparison of references\<close>

lemma fold_bytes_iff:
  "length s = length t \<Longrightarrow> fold_bytes s t \<longleftrightarrow> map ascii_lower s = map ascii_lower t"
  by (induction s t rule: list_induct2) auto

lemma equalFold_iff: "equalFold s t \<longleftrightarrow> map ascii_lower s = map ascii_lower t"
  using fold_bytes_iff [of s t] by (auto simp: equalFold_def dest: map_eq_imp_length_eq)

lemma equalFold_equiv: "equalFold s s" "equalFold s t \<longleftrightarrow> equalFold t s"
  "equalFold s t \<Longrightarrow> equalFold t u \<Longrightarrow> equalFold s u"
  by (auto simp: equalFold_iff)

section \<open>Days between two transactions\<close>

lemma time_sub_swap:
  "time_sub u t = - time_sub t u \<or>
   \<bar>time_sub u t\<bar> div nanos_per_day = \<bar>time_sub t u\<bar> div nanos_per_day \<and>
   sgn (time_sub u t) = - sgn (time_sub t u)"
proof -
  consider "9223372036854775807 < t - u" | "t - u < - 9223372036854775807"
    | "- 9223372036854775807 \<le> t - u" "t - u \<le> 9223372036854775807" by linarith
  then show ?thesis
  proof cases
    case 1
    then have "time_sub t u = 9223372036854775807" "time_sub u t = - 9223372036854775808"
      by (simp_all add: time_sub_def min_duration_def max_duration_def)
    then show ?thesis by (simp add: nanos_per_day_def nanos_per_hour_def)
  next
    case 2
    then have "time_sub t u = - 9223372036854775808" "time_sub u t = 9223372036854775807"
      by (simp_all add: time_sub_def min_duration_def max_duration_def)
    then show ?thesis by (simp add: nanos_per_day_def nanos_per_hour_def)
  next
    case 3
    then show ?thesis by (simp add: time_sub_def min_duration_def max_duration_def)
  qed
qed

lemma SignedDayDiff_swap: "SignedDayDiff u t = - SignedDayDiff t u"
  using time_sub_swap [of "DayUTC t" "DayUTC u"]
  by (auto simp: SignedDayDiff_def go_div_def less_imp_le abs_of_pos)

lemma AbsDayDiff_swap: "AbsDayDiff u t = AbsDayDiff t u"
  by (simp add: AbsDayDiff_abs SignedDayDiff_swap [of u t])

lemma AbsDayDiff_same_day: "DayUTC t = DayUTC u \<Longrightarrow> AbsDayDiff t u = 0"
  by (simp add: AbsDayDiff_abs SignedDayDiff_def time_sub_def go_div_def min_duration_def max_duration_def)

section \<open>Rounding and thresholds\<close>

lemma roundAmount_zero_ok: "roundAmount E 0 s m = Inr z \<Longrightarrow> \<exists>y. roundAmount E x s m = Inr y"
  by (auto simp: roundAmount_def split: if_splits RoundingMode.splits)

context externals
begin

lemma roundAmount_exact:
  assumes "roundAmount E x s m = Inr y" "x * 10 ^ nat s \<in> \<int>"
  shows "y = x"
proof -
  have "0 \<le> s" using assms(1) by (auto simp: roundAmount_def split: if_splits)
  from roundings [THEN rounding.exact, OF this assms(2)] assms(1) show ?thesis
    by (auto simp: roundAmount_def split: if_splits RoundingMode.splits)
qed

lemma roundAmount_close:
  assumes "roundAmount E x s m = Inr y"
  shows "\<bar>y - x\<bar> * 10 ^ nat s < 1" "y * 10 ^ nat s \<in> \<int>"
proof -
  have s: "0 \<le> s" using assms(1) by (auto simp: roundAmount_def split: if_splits)
  from roundings [THEN rounding.close, OF s, of x] assms show "\<bar>y - x\<bar> * 10 ^ nat s < 1"
    by (auto simp: roundAmount_def split: if_splits RoundingMode.splits)
  from roundings [THEN rounding.grid, OF s, of x] assms show "y * 10 ^ nat s \<in> \<int>"
    by (auto simp: roundAmount_def split: if_splits RoundingMode.splits)
qed

lemma roundAmount_sign:
  assumes "roundAmount E x s m = Inr y"
  shows "0 \<le> x \<Longrightarrow> 0 \<le> y" "x \<le> 0 \<Longrightarrow> y \<le> 0"
proof -
  have s: "0 \<le> s" using assms(1) by (auto simp: roundAmount_def split: if_splits)
  from roundings [THEN rounding.nonneg, OF s, of x] assms show "0 \<le> x \<Longrightarrow> 0 \<le> y"
    by (auto simp: roundAmount_def split: if_splits RoundingMode.splits)
  from roundings [THEN rounding.nonpos, OF s, of x] assms show "x \<le> 0 \<Longrightarrow> y \<le> 0"
    by (auto simp: roundAmount_def split: if_splits RoundingMode.splits)
qed

end

lemma threshold_ge_abs: "absTol \<le> toleranceThreshold E absTol pctTol l r b"
  by (simp add: toleranceThreshold_def Let_def)

text \<open>The bases that treat both sides alike.\<close>

definition symmetric_base :: "TolerancePercentageBase \<Rightarrow> bool" where
  "symmetric_base b = (b \<noteq> TolerancePercentageBaseLeft \<and> b \<noteq> TolerancePercentageBaseRight)"

lemma threshold_swap:
  "symmetric_base b \<Longrightarrow> toleranceThreshold E absTol pctTol l r b = toleranceThreshold E absTol pctTol r l b"
  by (cases b) (auto simp: symmetric_base_def toleranceThreshold_def Let_def add.commute)

section \<open>Preflight of the tolerance evaluator\<close>

lemma base_currencies_swap: "base_currencies_match l r \<longleftrightarrow> base_currencies_match r l"
  by (auto simp: base_currencies_match_def)

lemma validateToleranceMatchInputs_swap:
  "validateToleranceMatchInputs E l r config = validateToleranceMatchInputs E r l config"
proof -
  have "toleranceCurrencyMatch l r c = toleranceCurrencyMatch r l c"
    "toleranceDateMatch l r c = toleranceDateMatch r l c"
    "toleranceBaseAmountMatch l r c = toleranceBaseAmountMatch r l c"
    "toleranceReferenceMatch l r c = toleranceReferenceMatch r l c" for c
    using base_currencies_swap [of l r] AbsDayDiff_swap [of "c_Date l" "c_Date r"]
    by (auto simp: toleranceCurrencyMatch_def toleranceDateMatch_def toleranceBaseAmountMatch_def
        toleranceReferenceMatch_def Let_def equalFold_iff)
  then show ?thesis by (simp add: validateToleranceMatchInputs_def Let_def split: option.split)
qed

lemma ToleranceMatch_True:
  "ToleranceMatch E l r (Some cfg) = Inr True \<longleftrightarrow>
   validateToleranceMatchInputs E l r (Some cfg) = Inr True \<and>
   (\<exists>a b. roundAmount E (fst (compared_amounts cfg l r)) (to_RoundingScale cfg) (to_RoundingMode cfg) = Inr a \<and>
     roundAmount E (snd (compared_amounts cfg l r)) (to_RoundingScale cfg) (to_RoundingMode cfg) = Inr b \<and>
     \<bar>a - b\<bar> \<le> toleranceThreshold E (to_AbsAmountTolerance cfg) (to_PercentTolerance cfg) a b (to_PercentageBase cfg))"
  by (auto simp: ToleranceMatch_def Let_def not_less split: if_splits prod.splits)

lemma validate_inputs_True:
  "validateToleranceMatchInputs E l r (Some cfg) = Inr True \<longleftrightarrow>
   validateToleranceConfig E (Some cfg) = None \<and> toleranceCurrencyMatch l r cfg \<and>
   toleranceDateMatch l r cfg \<and> toleranceBaseAmountMatch l r cfg \<and> toleranceReferenceMatch l r cfg"
  by (auto simp: validateToleranceMatchInputs_def split: option.splits)

lemma validateToleranceConfig_None:
  "validateToleranceConfig E (Some cfg) = None \<longleftrightarrow>
   0 \<le> to_DateWindowDays cfg \<and> 0 \<le> to_AbsAmountTolerance cfg \<and> 0 \<le> to_PercentTolerance cfg \<and>
   is_ok (roundAmount E 0 (to_RoundingScale cfg) (to_RoundingMode cfg))"
  by (auto simp: validateToleranceConfig_def is_ok_def split: sum.splits)

section \<open>Date lag: lemmas\<close>

text \<open>The lag of the right transaction behind the left one, as the direction reads it; \<open>None\<close>
  when the order is the wrong one.\<close>

definition directed_lag :: "DateLagDirection \<Rightarrow> int \<Rightarrow> int option" where
  "directed_lag dir days =
     (case dir of
        DateLagDirectionAbs \<Rightarrow> Some \<bar>days\<bar>
      | DateLagDirectionLeftBeforeRight \<Rightarrow> if days \<ge> 0 then Some days else None
      | DateLagDirectionRightBeforeLeft \<Rightarrow> if days \<le> 0 then Some (- days) else None
      | DateLagDirectionOther _ \<Rightarrow> None)"

definition valid_direction :: "DateLagDirection \<Rightarrow> bool" where
  "valid_direction d = (\<forall>s. d \<noteq> DateLagDirectionOther s)"

definition mirror_direction :: "DateLagDirection \<Rightarrow> DateLagDirection" where
  "mirror_direction d =
     (case d of
        DateLagDirectionLeftBeforeRight \<Rightarrow> DateLagDirectionRightBeforeLeft
      | DateLagDirectionRightBeforeLeft \<Rightarrow> DateLagDirectionLeftBeforeRight
      | _ \<Rightarrow> d)"

lemma DateLagMatch_eq:
  assumes "validateDateLagConfig (Some cfg) = None" "0 \<le> dl_FeeTolerance cfg"
    "valid_direction (dl_Direction cfg)"
  shows "DateLagMatch left right (Some cfg) = Inr
    (dateLagCurrencyMatch left right cfg \<and>
     \<bar>c_Amount left - c_Amount right\<bar> \<le> dl_FeeTolerance cfg \<and>
     (\<exists>lag. directed_lag (dl_Direction cfg) (SignedDayDiff (c_Date left) (c_Date right)) = Some lag \<and>
        isWithinDateLagBounds lag cfg))"
proof -
  have "0 \<le> dl_MinDays cfg" using assms(1) by (simp add: validateDateLagConfig_def split: if_splits)
  then show ?thesis using assms
    by (cases "dl_Direction cfg")
      (auto simp: DateLagMatch_def Let_def validateFeeTolerance_def amountWithinFeeTolerance_def
        computeDateLagDiff_def directed_lag_def computeLeftBeforeRightDiff_def
        computeRightBeforeLeftDiff_def isWithinDateLagBounds_def valid_direction_def not_less)
qed

section \<open>Exchanging the sides of the tolerance evaluator\<close>

lemma compared_amounts_swap: "compared_amounts cfg r l = prod.swap (compared_amounts cfg l r)"
  by (simp add: compared_amounts_def)

lemma ToleranceMatch_swap:
  assumes "symmetric_base (to_PercentageBase cfg)"
  shows "ToleranceMatch E l r (Some cfg) = ToleranceMatch E r l (Some cfg)"
proof (cases "validateToleranceMatchInputs E l r (Some cfg) = Inr True")
  case False
  then have "validateToleranceMatchInputs E l r (Some cfg) = Inr False \<or>
      (\<exists>e. validateToleranceMatchInputs E l r (Some cfg) = Inl e)"
    by (metis (full_types) sum.exhaust)
  then show ?thesis
    using validateToleranceMatchInputs_swap [of E l r "Some cfg"] by (auto simp: ToleranceMatch_def)
next
  case True
  then obtain z where z: "roundAmount E 0 (to_RoundingScale cfg) (to_RoundingMode cfg) = Inr z"
    by (auto simp: validate_inputs_True validateToleranceConfig_None is_ok_iff)
  obtain x y where xy: "compared_amounts cfg l r = (x, y)" by fastforce
  obtain a b where "roundAmount E x (to_RoundingScale cfg) (to_RoundingMode cfg) = Inr a"
      "roundAmount E y (to_RoundingScale cfg) (to_RoundingMode cfg) = Inr b"
    using roundAmount_zero_ok [OF z] by blast
  with True xy show ?thesis
    using validateToleranceMatchInputs_swap [of E l r "Some cfg"] threshold_swap [OF assms, of E _ _ a b]
    by (simp add: ToleranceMatch_def compared_amounts_swap [of cfg r l] Let_def abs_minus_commute)
qed

section \<open>Properties\<close>

definition example_tx :: "uuid \<Rightarrow> rat \<Rightarrow> string \<Rightarrow> time \<Rightarrow> rat CandidateTransaction" where
  "example_tx i a ref t = \<lparr>
     c_ID = i, c_SourceID = 9, c_Amount = a, c_OriginalAmount = a, c_AmountBase = None,
     c_FeeBreakdown = None, c_Currency = ''USD'', c_CurrencyBase = '''', c_Reference = ref, c_Date = t \<rparr>"

definition example_exact :: ExactConfig where
  "example_exact = \<lparr>
     ex_MatchAmount = True, ex_MatchCurrency = True, ex_MatchDate = True,
     ex_DatePrecision = DatePrecisionDay, ex_MatchReference = False, ex_CaseInsensitive = False,
     ex_ReferenceMustSet = False, ex_MatchBaseAmount = False, ex_MatchBaseCurrency = False,
     ex_MatchScore = 100, ex_MatchBaseScore = 100 \<rparr>"

definition example_tolerance :: "rat ToleranceConfig" where
  "example_tolerance = \<lparr>
     to_MatchCurrency = True, to_DateWindowDays = 1, to_AbsAmountTolerance = 1 / 2,
     to_PercentTolerance = 1 / 200, to_RoundingScale = 2, to_RoundingMode = RoundingHalfUp,
     to_MatchBaseAmount = False, to_MatchBaseCurrency = False, to_MatchScore = 85,
     to_MatchBaseScore = 85, to_PercentageBase = TolerancePercentageBaseMax,
     to_MatchReference = False, to_CaseInsensitive = False, to_ReferenceMustSet = False \<rparr>"

definition example_datelag :: "rat DateLagConfig" where
  "example_datelag = \<lparr>
     dl_MinDays = 1, dl_MaxDays = 3, dl_Inclusive = True,
     dl_Direction = DateLagDirectionLeftBeforeRight, dl_FeeTolerance = 0, dl_MatchScore = 80,
     dl_MatchCurrency = True \<rparr>"

text \<open>
  The difference of two transaction dates in days is exact for dates up to about 292 years
  apart, changes sign when the dates are exchanged, and never leaves \<open>\<plusminus>106751\<close>, so that the
  negations and comparisons made with it stay far inside an \<^verbatim>\<open>int\<close>.
\<close>

lemma SignedDayDiff_correct:
  "(days_exact t u \<longrightarrow> SignedDayDiff t u = u div nanos_per_day - t div nanos_per_day) \<and>
   SignedDayDiff u t = - SignedDayDiff t u \<and> \<bar>SignedDayDiff t u\<bar> \<le> 106751"
  using SignedDayDiff_exact SignedDayDiff_swap SignedDayDiff_bound by blast

lemma SignedDayDiff_correct_witness:
  "SignedDayDiff 0 (3 * nanos_per_day + 5) = 3"
  using SignedDayDiff_correct [of 0 "3 * nanos_per_day + 5"]
  by (simp add: days_exact_def DayUTC_def nanos_per_day_def nanos_per_hour_def min_duration_def
      max_duration_def)

text \<open>
  Both the exact and, for every percentage base other than LEFT and RIGHT, the tolerance
  evaluator give the same verdict, and the same error, when the two sides are exchanged.
\<close>

lemma evaluators_symmetric:
  assumes "externals E"
  shows "ExactMatch E left right (Some xcfg) = ExactMatch E right left (Some xcfg) \<and>
    (symmetric_base (to_PercentageBase tcfg) \<longrightarrow>
      ToleranceMatch E left right (Some tcfg) = ToleranceMatch E right left (Some tcfg))"
proof
  have fold: "equal_fold E s t = equal_fold E t s" for s t
    using externals.equal_fold_sym [OF assms] by blast
  have "matchAmountAndCurrency left right xcfg = matchAmountAndCurrency right left xcfg"
    "matchBaseAmountAndCurrency left right xcfg = matchBaseAmountAndCurrency right left xcfg"
    "matchDate left right xcfg = matchDate right left xcfg"
    "matchReference E left right xcfg = matchReference E right left xcfg"
    using base_currencies_swap [of left right] fold
    by (auto simp: matchAmountAndCurrency_def matchBaseAmountAndCurrency_def matchDate_def
        matchReference_def Let_def split: option.splits DatePrecision.splits)
  then show "ExactMatch E left right (Some xcfg) = ExactMatch E right left (Some xcfg)"
    by (simp add: ExactMatch_def)
next
  show "symmetric_base (to_PercentageBase tcfg) \<longrightarrow>
      ToleranceMatch E left right (Some tcfg) = ToleranceMatch E right left (Some tcfg)"
  proof
    assume "symmetric_base (to_PercentageBase tcfg)"
    then show "ToleranceMatch E left right (Some tcfg) = ToleranceMatch E right left (Some tcfg)"
      by (rule ToleranceMatch_swap)
  qed
qed

lemma evaluators_symmetric_witness:
  "ToleranceMatch rat_ext (example_tx 1 10 '''' 0) (example_tx 2 (52 / 5) '''' 0) (Some example_tolerance)
   = ToleranceMatch rat_ext (example_tx 2 (52 / 5) '''' 0) (example_tx 1 10 '''' 0) (Some example_tolerance)"
  using evaluators_symmetric [OF rat_externals, of "example_tx 1 10 '''' 0" "example_tx 2 (52 / 5) '''' 0"
      example_exact example_tolerance]
  by (simp add: symmetric_base_def example_tolerance_def)



text \<open>
  C27: A pair that an exact rule on amount, currency and day accepts is accepted by every valid
  tolerance rule that compares the same fields: widening a rule never loses a match.
\<close>

theorem exact_implies_tolerance:
  assumes "ExactMatch E left right (Some xcfg) = Inr True"
    and "ex_MatchAmount xcfg" "ex_MatchCurrency xcfg" "ex_MatchDate xcfg"
    and "validateToleranceConfig E (Some tcfg) = None"
    and "\<not> to_MatchBaseAmount tcfg" "\<not> to_MatchBaseCurrency tcfg" "\<not> to_MatchReference tcfg"
  shows "ToleranceMatch E left right (Some tcfg) = Inr True"
proof -
  from assms(1-4) have same: "c_Amount left = c_Amount right" "c_Currency left = c_Currency right"
      "DayUTC (c_Date left) = DayUTC (c_Date right)"
    by (auto simp: ExactMatch_def matchAmountAndCurrency_def matchDate_def
        split: if_splits DatePrecision.splits)
  from assms(5) have cfg: "0 \<le> to_DateWindowDays tcfg" "0 \<le> to_AbsAmountTolerance tcfg"
      and ok: "is_ok (roundAmount E 0 (to_RoundingScale tcfg) (to_RoundingMode tcfg))"
    by (auto simp: validateToleranceConfig_None)
  from ok obtain z where "roundAmount E 0 (to_RoundingScale tcfg) (to_RoundingMode tcfg) = Inr z"
    by (auto simp: is_ok_iff)
  then obtain y where "roundAmount E (c_Amount right) (to_RoundingScale tcfg) (to_RoundingMode tcfg) = Inr y"
    using roundAmount_zero_ok by blast
  moreover have "0 \<le> toleranceThreshold E (to_AbsAmountTolerance tcfg) p y y b" for p b
    using threshold_ge_abs cfg(2) by (rule order_trans [rotated])
  moreover have "validateToleranceMatchInputs E left right (Some tcfg) = Inr True"
    using assms(5-8) same cfg AbsDayDiff_same_day [OF same(3)]
    by (simp add: validate_inputs_True toleranceCurrencyMatch_def toleranceDateMatch_def
        toleranceBaseAmountMatch_def toleranceReferenceMatch_def)
  ultimately show ?thesis using assms(6) same
    by (simp add: ToleranceMatch_True compared_amounts_def)
qed

theorem exact_implies_tolerance_witness:
  "ToleranceMatch rat_ext (example_tx 1 10 '''' 0) (example_tx 2 10 '''' 5) (Some example_tolerance) = Inr True"
proof -
  have "ExactMatch rat_ext (example_tx 1 10 '''' 0) (example_tx 2 10 '''' 5) (Some example_exact) = Inr True"
    by (simp add: ExactMatch_def example_exact_def example_tx_def matchAmountAndCurrency_def
        matchBaseAmountAndCurrency_def matchDate_def matchReference_def DayUTC_def nanos_per_day_def
        nanos_per_hour_def)
  from exact_implies_tolerance [OF this, of example_tolerance] show ?thesis
    by (simp add: example_exact_def example_tolerance_def validateToleranceConfig_None roundAmount_def
        is_ok_def)
qed

end
