(* ===== verification/Confidence.thy ===== *)
theory Confidence
  imports Evaluators
begin

text \<open>
  Package \<^verbatim>\<open>internal/matching/domain/services\<close>, the file \<^verbatim>\<open>confidence_scorer.go\<close>. The
  scorer computes with \<^verbatim>\<open>float64\<close>: a finite double is the rational it denotes, and every
  operation rounds its exact result to the nearest double, ties to even (\<open>f64\<close>, for results
  below the overflow threshold).
\<close>

section \<open>Doubles\<close>

definition pow2 :: "int \<Rightarrow> rat" where
  "pow2 k = (if 0 \<le> k then 2 ^ nat k else 1 / 2 ^ nat (- k))"

definition round_half_even :: "rat \<Rightarrow> int" where
  "round_half_even x =
     (let f = \<lfloor>x\<rfloor>; r = x - of_int f in
      if r < 1 / 2 \<or> (r = 1 / 2 \<and> even f) then f else f + 1)"

text \<open>The exponent of the last of the 53 bits: the least one, from \<open>-1074\<close>, at which the number
  fits; below it numbers are subnormal.\<close>

definition f64_exponent :: "rat \<Rightarrow> int" where
  "f64_exponent x =
     (case find (\<lambda>k. \<bar>x\<bar> < pow2 (k + 53)) [-1074..971] of Some k \<Rightarrow> k | None \<Rightarrow> 971)"

definition f64 :: "rat \<Rightarrow> rat" where
  "f64 x =
     (let k = f64_exponent x in
      sgn x * of_int (round_half_even (\<bar>x\<bar> / pow2 k)) * pow2 k)"

text \<open>\<^verbatim>\<open>math.Round\<close>: to the nearest integer, halves away from zero.\<close>

definition math_Round :: "rat \<Rightarrow> int" where
  "math_Round x = (if x < 0 then - \<lfloor>- x + 1 / 2\<rfloor> else \<lfloor>x + 1 / 2\<rfloor>)"

section \<open>Scores\<close>

record ConfidenceWeights =
  w_Amount :: rat
  w_Currency :: rat
  w_Date :: rat
  w_Reference :: rat

definition DefaultConfidenceWeights :: ConfidenceWeights where
  "DefaultConfidenceWeights = \<lparr>
     w_Amount = f64 (40 / 100), w_Currency = f64 (30 / 100), w_Date = f64 (20 / 100),
     w_Reference = f64 (10 / 100) \<rparr>"

record ConfidenceComponents =
  cc_AmountMatch :: bool
  cc_CurrencyMatch :: bool
  cc_DateMatch :: bool
  cc_ReferenceScore :: rat

definition CalculateConfidenceScore :: "ConfidenceComponents \<Rightarrow> ConfidenceWeights \<Rightarrow> int" where
  "CalculateConfidenceScore components weights =
     (let score = 0;
          score = (if cc_AmountMatch components then f64 (score + w_Amount weights) else score);
          score = (if cc_CurrencyMatch components then f64 (score + w_Currency weights) else score);
          score = (if cc_DateMatch components then f64 (score + w_Date weights) else score);
          score = f64 (score + f64 (cc_ReferenceScore components * w_Reference weights)) in
      math_Round (f64 (score * 100)))"

record ReferenceMatchOptions =
  ro_CaseInsensitive :: bool
  ro_ReferenceMustSet :: bool

definition calculateReferenceScoreWithOptions :: "ReferenceMatchOptions \<Rightarrow>
    'd CandidateTransaction \<Rightarrow> 'd CandidateTransaction \<Rightarrow> rat" where
  "calculateReferenceScoreWithOptions opts left right =
     (let leftRef = c_Reference left; rightRef = c_Reference right in
      if ro_ReferenceMustSet opts \<and> (leftRef = '''' \<or> rightRef = '''') then 0
      else if leftRef = '''' \<and> rightRef = '''' then 1
      else if ro_CaseInsensitive opts then (if equalFold leftRef rightRef then 1 else 0)
      else (if leftRef = rightRef then 1 else 0))"

section \<open>Components of the exact rule\<close>

definition evaluateExactAmountMatch :: "ExactConfig \<Rightarrow> 'd CandidateTransaction \<Rightarrow> 'd CandidateTransaction \<Rightarrow> bool" where
  "evaluateExactAmountMatch cfg left right =
     (if ex_MatchBaseAmount cfg then
        (case (c_AmountBase left, c_AmountBase right) of (Some a, Some b) \<Rightarrow> a = b | _ \<Rightarrow> False)
      else if ex_MatchAmount cfg then c_Amount left = c_Amount right
      else True)"

definition evaluateExactCurrencyMatch :: "ExactConfig \<Rightarrow> 'd CandidateTransaction \<Rightarrow> 'd CandidateTransaction \<Rightarrow> bool" where
  "evaluateExactCurrencyMatch cfg left right =
     (if ex_MatchBaseCurrency cfg then
        c_CurrencyBase left \<noteq> '''' \<and> c_CurrencyBase left = c_CurrencyBase right
      else if ex_MatchCurrency cfg then c_Currency left \<noteq> '''' \<and> c_Currency left = c_Currency right
      else if c_Currency left = '''' \<or> c_Currency right = '''' then False
      else c_Currency left = c_Currency right)"

definition evaluateExactDateMatch :: "ExactConfig \<Rightarrow> 'd CandidateTransaction \<Rightarrow> 'd CandidateTransaction \<Rightarrow> bool" where
  "evaluateExactDateMatch cfg left right =
     (if \<not> ex_MatchDate cfg then True
      else case ex_DatePrecision cfg of
             DatePrecisionDay \<Rightarrow> DayUTC (c_Date left) = DayUTC (c_Date right)
           | DatePrecisionTimestamp \<Rightarrow> c_Date left = c_Date right
           | DatePrecisionOther _ \<Rightarrow> True)"

definition evaluateExactReferenceScore :: "ExactConfig \<Rightarrow> 'd CandidateTransaction \<Rightarrow> 'd CandidateTransaction \<Rightarrow> rat" where
  "evaluateExactReferenceScore cfg left right =
     (if \<not> ex_MatchReference cfg then 1
      else calculateReferenceScoreWithOptions
             \<lparr> ro_CaseInsensitive = ex_CaseInsensitive cfg, ro_ReferenceMustSet = ex_ReferenceMustSet cfg \<rparr>
             left right)"

definition extractExactComponents :: "ExactConfig \<Rightarrow> 'd CandidateTransaction \<Rightarrow> 'd CandidateTransaction \<Rightarrow> ConfidenceComponents" where
  "extractExactComponents cfg left right = \<lparr>
     cc_AmountMatch = evaluateExactAmountMatch cfg left right,
     cc_CurrencyMatch = evaluateExactCurrencyMatch cfg left right,
     cc_DateMatch = evaluateExactDateMatch cfg left right,
     cc_ReferenceScore = evaluateExactReferenceScore cfg left right \<rparr>"

definition ScoreExactConfidence :: "ExactConfig option \<Rightarrow> 'd CandidateTransaction \<Rightarrow> 'd CandidateTransaction \<Rightarrow> int" where
  "ScoreExactConfidence config left right =
     (case config of
        None \<Rightarrow> 0
      | Some cfg \<Rightarrow> CalculateConfidenceScore (extractExactComponents cfg left right) DefaultConfidenceWeights)"

section \<open>Components of the tolerance rule\<close>

definition isWithinTolerance :: "'d::linordered_idom ext \<Rightarrow> 'd \<Rightarrow> 'd \<Rightarrow> 'd \<Rightarrow> 'd \<Rightarrow> TolerancePercentageBase \<Rightarrow> bool" where
  "isWithinTolerance E left right absTolerance percentTolerance base =
     (let diff = \<bar>left - right\<bar>;
          threshold = toleranceThreshold E absTolerance percentTolerance left right base in
      \<not> diff > threshold)"

definition evaluateToleranceReferenceScore :: "'d ToleranceConfig \<Rightarrow> 'd CandidateTransaction \<Rightarrow> 'd CandidateTransaction \<Rightarrow> rat" where
  "evaluateToleranceReferenceScore cfg left right =
     (if \<not> to_MatchReference cfg then 0
      else calculateReferenceScoreWithOptions
             \<lparr> ro_CaseInsensitive = to_CaseInsensitive cfg, ro_ReferenceMustSet = to_ReferenceMustSet cfg \<rparr>
             left right)"

definition extractToleranceComponents :: "'d::linordered_idom ext \<Rightarrow> 'd ToleranceConfig \<Rightarrow>
    'd CandidateTransaction \<Rightarrow> 'd CandidateTransaction \<Rightarrow> ConfidenceComponents" where
  "extractToleranceComponents E cfg left right = \<lparr>
     cc_AmountMatch =
       (let inside = (\<lambda>a b. isWithinTolerance E a b (to_AbsAmountTolerance cfg)
                              (to_PercentTolerance cfg) (to_PercentageBase cfg)) in
        if to_MatchBaseAmount cfg then
          (case (c_AmountBase left, c_AmountBase right) of (Some a, Some b) \<Rightarrow> inside a b | _ \<Rightarrow> False)
        else inside (c_Amount left) (c_Amount right)),
     cc_CurrencyMatch =
       (if to_MatchBaseCurrency cfg then
          c_CurrencyBase left \<noteq> '''' \<and> c_CurrencyBase left = c_CurrencyBase right
        else if to_MatchCurrency cfg then c_Currency left \<noteq> '''' \<and> c_Currency left = c_Currency right
        else c_Currency left \<noteq> '''' \<and> c_Currency right \<noteq> '''' \<and> c_Currency left = c_Currency right),
     cc_DateMatch =
       (if to_DateWindowDays cfg \<ge> 0
        then AbsDayDiff (c_Date left) (c_Date right) \<le> to_DateWindowDays cfg else True),
     cc_ReferenceScore = evaluateToleranceReferenceScore cfg left right \<rparr>"

definition ScoreToleranceConfidence :: "'d::linordered_idom ext \<Rightarrow> 'd ToleranceConfig option \<Rightarrow>
    'd CandidateTransaction \<Rightarrow> 'd CandidateTransaction \<Rightarrow> int" where
  "ScoreToleranceConfidence E config left right =
     (case config of
        None \<Rightarrow> 0
      | Some cfg \<Rightarrow> CalculateConfidenceScore (extractToleranceComponents E cfg left right) DefaultConfidenceWeights)"

section \<open>Components of the date-lag rule\<close>

definition isWithinFeeTolerance :: "'d::linordered_idom \<Rightarrow> 'd \<Rightarrow> 'd \<Rightarrow> bool" where
  "isWithinFeeTolerance left right feeTolerance = (\<not> \<bar>\<bar>left\<bar> - \<bar>right\<bar>\<bar> > feeTolerance)"

definition extractDateLagComponents :: "'d::linordered_idom DateLagConfig \<Rightarrow>
    'd CandidateTransaction \<Rightarrow> 'd CandidateTransaction \<Rightarrow> ConfidenceComponents" where
  "extractDateLagComponents cfg left right = \<lparr>
     cc_AmountMatch = isWithinFeeTolerance (c_Amount left) (c_Amount right) (dl_FeeTolerance cfg),
     cc_CurrencyMatch =
       (if dl_MatchCurrency cfg then c_Currency left \<noteq> '''' \<and> c_Currency left = c_Currency right
        else c_Currency left \<noteq> '''' \<and> c_Currency right \<noteq> '''' \<and> c_Currency left = c_Currency right),
     cc_DateMatch =
       (let dayDiff = AbsDayDiff (c_Date left) (c_Date right) in
        dayDiff \<ge> dl_MinDays cfg \<and>
        ((dl_Inclusive cfg \<and> dayDiff \<le> dl_MaxDays cfg) \<or> (\<not> dl_Inclusive cfg \<and> dayDiff < dl_MaxDays cfg))),
     cc_ReferenceScore = 0 \<rparr>"

definition ScoreDateLagConfidence :: "'d::linordered_idom DateLagConfig option \<Rightarrow>
    'd CandidateTransaction \<Rightarrow> 'd CandidateTransaction \<Rightarrow> int" where
  "ScoreDateLagConfidence config left right =
     (case config of
        None \<Rightarrow> 0
      | Some cfg \<Rightarrow> CalculateConfidenceScore (extractDateLagComponents cfg left right) DefaultConfidenceWeights)"

section \<open>The score in closed form\<close>

section \<open>Rounding to a double\<close>

lemma pow2_pos [simp]: "0 < pow2 k" "pow2 k \<noteq> 0" "0 \<le> pow2 k"
  by (auto simp: pow2_def)

lemma pow2_powi: "pow2 k = 2 powi k"
  by (simp add: pow2_def power_int_def power_one_over inverse_eq_divide)

lemma pow2_mono: "j \<le> k \<Longrightarrow> pow2 j \<le> pow2 k"
  unfolding pow2_powi by (rule power_int_increasing) auto

lemma find_append_None: "find P xs = None \<Longrightarrow> find P (xs @ ys) = find P ys"
  by (induction xs) (auto split: if_splits)

lemma find_upto:
  fixes a b k :: int
  assumes "a \<le> k" "k \<le> b" "P k" "\<And>j. j < k \<Longrightarrow> \<not> P j"
  shows "find P [a..b] = Some k"
proof -
  have "[a..b] = [a..k - 1] @ k # [k + 1..b]"
    using assms(1,2) by (rule upto_split3)
  moreover have "find P [a..k - 1] = None" using assms(4) by (auto simp: find_None_iff)
  ultimately show ?thesis using assms(3) by (simp add: find_append_None)
qed

lemma f64_exponent_eq:
  assumes "- 1074 \<le> k" "k \<le> 971" "pow2 (k + 52) \<le> x" "x < pow2 (k + 53)"
  shows "f64_exponent x = k"
proof -
  have "0 < x" using assms(3) pow2_pos(1) [of "k + 52"] by linarith
  have "\<not> \<bar>x\<bar> < pow2 (j + 53)" if "j < k" for j
    using that pow2_mono [of "j + 53" "k + 52"] assms(3) by simp
  then have "find (\<lambda>k. \<bar>x\<bar> < pow2 (k + 53)) [-1074..971] = Some k"
    using assms \<open>0 < x\<close> by (intro find_upto) auto
  then show ?thesis by (simp only: f64_exponent_def option.case)
qed

lemma f64_val:
  assumes "- 1074 \<le> k" "k \<le> 971" "pow2 (k + 52) \<le> x" "x < pow2 (k + 53)"
    and "round_half_even (x / pow2 k) = n" "of_int n * pow2 k = y"
  shows "f64 x = y"
proof -
  have "0 < x" using assms(3) pow2_pos(1) [of "k + 52"] by linarith
  with assms(5,6) show ?thesis by (simp add: f64_def f64_exponent_eq [OF assms(1-4)])
qed

lemma f64_0 [simp]: "f64 0 = 0"
  by (simp add: f64_def)

lemma round_half_even_near: "2 * \<bar>x - of_int n\<bar> < 1 \<Longrightarrow> round_half_even x = n"
proof -
  assume near: "2 * \<bar>x - of_int n\<bar> < 1"
  then consider "\<lfloor>x\<rfloor> = n" "x - of_int n < 1 / 2" | "\<lfloor>x\<rfloor> = n - 1" "1 / 2 < x - of_int (n - 1)"
    by (cases "of_int n \<le> x") (auto simp: floor_eq_iff abs_if split: if_splits)
  then show ?thesis by cases (simp_all add: round_half_even_def Let_def)
qed

lemma round_half_even_tie: "2 * \<bar>x - of_int n\<bar> = 1 \<Longrightarrow> even n \<Longrightarrow> round_half_even x = n"
proof -
  assume near: "2 * \<bar>x - of_int n\<bar> = 1" and "even n"
  then consider "\<lfloor>x\<rfloor> = n" "x - of_int n = 1 / 2" | "\<lfloor>x\<rfloor> = n - 1" "x - of_int (n - 1) = 1 / 2"
    by (cases "of_int n \<le> x") (auto simp: floor_eq_iff abs_if split: if_splits)
  then show ?thesis using \<open>even n\<close> by cases (simp_all add: round_half_even_def Let_def)
qed

text \<open>The exact results that occur when the default weights are added and scaled, each with the
  exponent and the 53 bit integer of the double next to it.\<close>

definition f64_samples :: "(rat \<times> int \<times> int) list" where
  "f64_samples =
     [(2 / 5, -54, 7205759403792794),
      (3 / 10, -54, 5404319552844595),
      (1 / 5, -55, 7205759403792794),
      (1 / 10, -56, 7205759403792794),
      (3602879701896397 / 36028797018963968, -56, 7205759403792794),
      (90071992547409925 / 9007199254740992, -49, 5629499534213120),
      (3602879701896397 / 18014398509481984, -55, 7205759403792794),
      (90071992547409925 / 4503599627370496, -48, 5629499534213120),
      (10808639105689191 / 36028797018963968, -54, 5404319552844596),
      (33776997205278725 / 1125899906842624, -48, 8444249301319681),
      (5404319552844595 / 18014398509481984, -54, 5404319552844595),
      (135107988821114875 / 4503599627370496, -48, 8444249301319680),
      (14411518807585587 / 36028797018963968, -54, 7205759403792794),
      (90071992547409925 / 2251799813685248, -47, 5629499534213120),
      (1 / 2, -53, 4503599627370496),
      (50, -47, 7036874417766400),
      (21617278211378381 / 36028797018963968, -53, 5404319552844595),
      (135107988821114875 / 2251799813685248, -47, 8444249301319680),
      (3602879701896397 / 9007199254740992, -54, 7205759403792794),
      (18014398509481985 / 36028797018963968, -53, 4503599627370496),
      (10808639105689191 / 18014398509481984, -53, 5404319552844596),
      (1351079888211149 / 2251799813685248, -53, 5404319552844596),
      (33776997205278725 / 562949953421312, -47, 8444249301319681),
      (25220157913274781 / 36028797018963968, -53, 6305039478318695),
      (157625986957967375 / 2251799813685248, -46, 4925812092436480),
      (12610078956637389 / 18014398509481984, -53, 6305039478318694),
      (3152519739159347 / 4503599627370496, -53, 6305039478318694),
      (78812993478983675 / 1125899906842624, -46, 4925812092436480),
      (28823037615171173 / 36028797018963968, -53, 7205759403792793),
      (180143985094819825 / 2251799813685248, -46, 5629499534213120),
      (16212958658533785 / 18014398509481984, -53, 8106479329266892),
      (2026619832316723 / 2251799813685248, -53, 8106479329266892),
      (50665495807918075 / 562949953421312, -46, 6333186975989759),
      (36028797018963965 / 36028797018963968, -53, 9007199254740991),
      (225179981368524775 / 2251799813685248, -46, 7036874417766399)]"

lemma f64_samples_ok: "\<forall>(x, k, n) \<in> set f64_samples. f64 x = of_int n * pow2 k"
proof -
  have "\<forall>(x, k, n) \<in> set f64_samples. - 1074 \<le> k \<and> k \<le> 971 \<and> pow2 (k + 52) \<le> x \<and> x < pow2 (k + 53) \<and>
      (2 * \<bar>x / pow2 k - of_int n\<bar> < 1 \<or> 2 * \<bar>x / pow2 k - of_int n\<bar> = 1 \<and> even n)"
    by (simp add: f64_samples_def pow2_def)
  then show ?thesis
    using f64_val round_half_even_near round_half_even_tie by (fastforce simp: case_prod_beta)
qed

lemma f64_table:
  "f64 (2 / 5) = 3602879701896397 / 9007199254740992"
  "f64 (3 / 10) = 5404319552844595 / 18014398509481984"
  "f64 (1 / 5) = 3602879701896397 / 18014398509481984"
  "f64 (1 / 10) = 3602879701896397 / 36028797018963968"
  "f64 (3602879701896397 / 36028797018963968) = 3602879701896397 / 36028797018963968"
  "f64 (90071992547409925 / 9007199254740992) = 10"
  "f64 (3602879701896397 / 18014398509481984) = 3602879701896397 / 18014398509481984"
  "f64 (90071992547409925 / 4503599627370496) = 20"
  "f64 (10808639105689191 / 36028797018963968) = 1351079888211149 / 4503599627370496"
  "f64 (33776997205278725 / 1125899906842624) = 8444249301319681 / 281474976710656"
  "f64 (5404319552844595 / 18014398509481984) = 5404319552844595 / 18014398509481984"
  "f64 (135107988821114875 / 4503599627370496) = 30"
  "f64 (14411518807585587 / 36028797018963968) = 3602879701896397 / 9007199254740992"
  "f64 (90071992547409925 / 2251799813685248) = 40"
  "f64 (1 / 2) = 1 / 2"
  "f64 (50) = 50"
  "f64 (21617278211378381 / 36028797018963968) = 5404319552844595 / 9007199254740992"
  "f64 (135107988821114875 / 2251799813685248) = 60"
  "f64 (3602879701896397 / 9007199254740992) = 3602879701896397 / 9007199254740992"
  "f64 (18014398509481985 / 36028797018963968) = 1 / 2"
  "f64 (10808639105689191 / 18014398509481984) = 1351079888211149 / 2251799813685248"
  "f64 (1351079888211149 / 2251799813685248) = 1351079888211149 / 2251799813685248"
  "f64 (33776997205278725 / 562949953421312) = 8444249301319681 / 140737488355328"
  "f64 (25220157913274781 / 36028797018963968) = 6305039478318695 / 9007199254740992"
  "f64 (157625986957967375 / 2251799813685248) = 70"
  "f64 (12610078956637389 / 18014398509481984) = 3152519739159347 / 4503599627370496"
  "f64 (3152519739159347 / 4503599627370496) = 3152519739159347 / 4503599627370496"
  "f64 (78812993478983675 / 1125899906842624) = 70"
  "f64 (28823037615171173 / 36028797018963968) = 7205759403792793 / 9007199254740992"
  "f64 (180143985094819825 / 2251799813685248) = 80"
  "f64 (16212958658533785 / 18014398509481984) = 2026619832316723 / 2251799813685248"
  "f64 (2026619832316723 / 2251799813685248) = 2026619832316723 / 2251799813685248"
  "f64 (50665495807918075 / 562949953421312) = 6333186975989759 / 70368744177664"
  "f64 (36028797018963965 / 36028797018963968) = 9007199254740991 / 9007199254740992"
  "f64 (225179981368524775 / 2251799813685248) = 7036874417766399 / 70368744177664"
  using f64_samples_ok by (simp_all add: f64_samples_def pow2_def)

text \<open>The sixteen sums of the default weights, rounded as the processor rounds them, all round
  to the decimal score.\<close>

lemma default_score:
  "CalculateConfidenceScore \<lparr> cc_AmountMatch = a, cc_CurrencyMatch = c, cc_DateMatch = d,
     cc_ReferenceScore = of_bool r \<rparr> DefaultConfidenceWeights
   = 40 * of_bool a + 30 * of_bool c + 20 * of_bool d + 10 * of_bool r"
  by (cases a; cases c; cases d; cases r)
    (simp_all add: CalculateConfidenceScore_def DefaultConfidenceWeights_def f64_table math_Round_def
      Let_def floor_eq_iff)



lemma score_components:
  assumes "cc_ReferenceScore x = of_bool r"
  shows "CalculateConfidenceScore x DefaultConfidenceWeights
    = 40 * of_bool (cc_AmountMatch x) + 30 * of_bool (cc_CurrencyMatch x) +
      20 * of_bool (cc_DateMatch x) + 10 * of_bool r"
proof -
  have "x = \<lparr> cc_AmountMatch = cc_AmountMatch x, cc_CurrencyMatch = cc_CurrencyMatch x,
      cc_DateMatch = cc_DateMatch x, cc_ReferenceScore = of_bool r \<rparr>"
    using assms by simp
  then show ?thesis using default_score [of "cc_AmountMatch x" "cc_CurrencyMatch x" "cc_DateMatch x" r]
    by metis
qed

lemma reference_score_bool: "\<exists>b. calculateReferenceScoreWithOptions opts left right = of_bool b"
proof -
  have "calculateReferenceScoreWithOptions opts left right = 0 \<or>
    calculateReferenceScoreWithOptions opts left right = 1"
    by (simp add: calculateReferenceScoreWithOptions_def Let_def)
  then show ?thesis by (metis of_bool_eq(1) of_bool_eq(2))
qed

section \<open>Scores of matched pairs\<close>

lemma exact_components:
  assumes "ExactMatch E left right (Some cfg) = Inr True"
  shows "cc_AmountMatch (extractExactComponents cfg left right)"
    and "cc_DateMatch (extractExactComponents cfg left right)"
  using assms
  by (auto simp: ExactMatch_def extractExactComponents_def matchAmountAndCurrency_def
      matchBaseAmountAndCurrency_def matchDate_def evaluateExactAmountMatch_def
      evaluateExactDateMatch_def split: if_splits option.splits DatePrecision.splits)

lemma exact_score:
  assumes "ExactMatch E left right (Some cfg) = Inr True"
  shows "ScoreExactConfidence (Some cfg) left right
    = 60 + (if evaluateExactCurrencyMatch cfg left right then 30 else 0)
         + (if evaluateExactReferenceScore cfg left right = 1 then 10 else 0)"
proof -
  obtain r where r: "evaluateExactReferenceScore cfg left right = of_bool r"
    using reference_score_bool unfolding evaluateExactReferenceScore_def
    by (metis of_bool_eq(2))
  then have "cc_ReferenceScore (extractExactComponents cfg left right) = of_bool r"
    by (simp add: extractExactComponents_def)
  from score_components [OF this] exact_components [OF assms] r show ?thesis
    by (cases r) (simp_all add: ScoreExactConfidence_def extractExactComponents_def)
qed

lemma isWithinFeeTolerance_amounts:
  "amountWithinFeeTolerance left right tol \<Longrightarrow> isWithinFeeTolerance (c_Amount left) (c_Amount right) tol"
  unfolding amountWithinFeeTolerance_def isWithinFeeTolerance_def not_less
  by (rule order_trans [OF abs_triangle_ineq3])

lemma datelag_score:
  assumes "DateLagMatch left right (Some cfg) = Inr True"
  shows "ScoreDateLagConfidence (Some cfg) left right
    = (if c_Currency left \<noteq> '''' \<and> c_Currency left = c_Currency right then 90 else 60)"
proof -
  let ?x = "extractDateLagComponents cfg left right"
  from assms obtain diff where
      amount: "amountWithinFeeTolerance left right (dl_FeeTolerance cfg)"
      and diff: "computeDateLagDiff left right cfg = Inr diff" "0 \<le> diff" "isWithinDateLagBounds diff cfg"
    by (auto simp: DateLagMatch_def Let_def split: option.splits if_splits)
  from diff(1,2) have "AbsDayDiff (c_Date left) (c_Date right) = diff"
    by (auto simp: computeDateLagDiff_def AbsDayDiff_def Let_def computeLeftBeforeRightDiff_def
        computeRightBeforeLeftDiff_def split: DateLagDirection.splits if_splits)
  with diff(3) amount have "cc_DateMatch ?x" "cc_AmountMatch ?x"
    by (auto simp: extractDateLagComponents_def isWithinDateLagBounds_def isWithinFeeTolerance_amounts
        split: if_splits)
  moreover have "cc_ReferenceScore ?x = of_bool False" by (simp add: extractDateLagComponents_def)
  moreover have "cc_CurrencyMatch ?x \<longleftrightarrow> c_Currency left \<noteq> '''' \<and> c_Currency left = c_Currency right"
    by (auto simp: extractDateLagComponents_def)
  ultimately show ?thesis using score_components [of ?x False]
    by (auto simp: ScoreDateLagConfidence_def)
qed

text \<open>On amounts that the rounding keeps, the tolerance scorer sees what the evaluator saw.\<close>

context externals
begin

lemma tolerance_amount_component:
  assumes "ToleranceMatch E left right (Some cfg) = Inr True"
    and "fst (compared_amounts cfg left right) * 10 ^ nat (to_RoundingScale cfg) \<in> \<int>"
    and "snd (compared_amounts cfg left right) * 10 ^ nat (to_RoundingScale cfg) \<in> \<int>"
  shows "cc_AmountMatch (extractToleranceComponents E cfg left right)"
proof -
  from assms(1) have pre: "toleranceBaseAmountMatch left right cfg"
    by (auto simp: ToleranceMatch_True validate_inputs_True)
  from assms obtain a b where "\<bar>a - b\<bar> \<le> toleranceThreshold E (to_AbsAmountTolerance cfg)
      (to_PercentTolerance cfg) a b (to_PercentageBase cfg)"
    and "a = fst (compared_amounts cfg left right)" "b = snd (compared_amounts cfg left right)"
    by (auto simp: ToleranceMatch_True dest: roundAmount_exact)
  with pre show ?thesis
    by (auto simp: extractToleranceComponents_def isWithinTolerance_def compared_amounts_def
        toleranceBaseAmountMatch_def Let_def not_less split: if_splits option.splits)
qed

end

lemma tolerance_date_component:
  assumes "ToleranceMatch E left right (Some cfg) = Inr True"
  shows "cc_DateMatch (extractToleranceComponents E cfg left right)"
  using assms
  by (auto simp: ToleranceMatch_True validate_inputs_True toleranceDateMatch_def extractToleranceComponents_def)

section \<open>Properties\<close>

text \<open>
  C16: With the default weights and a reference score of 0 or 1 the floating-point computation
  of the confidence score, in which several partial sums are not the doubles nearest to the
  decimal sums, always ends at the decimal value: 40 for the amount, 30 for the currency, 20
  for the date and 10 for the reference.
\<close>

theorem CalculateConfidenceScore_decimal:
  "CalculateConfidenceScore \<lparr> cc_AmountMatch = a, cc_CurrencyMatch = c, cc_DateMatch = d,
     cc_ReferenceScore = (if r then 1 else 0) \<rparr> DefaultConfidenceWeights
   = (if a then 40 else 0) + (if c then 30 else 0) + (if d then 20 else 0) + (if r then 10 else 0)"
  using default_score [of a c d r] by (cases r) (simp_all add: of_bool_def)

text \<open>
  C25: A pair accepted by an exact rule scores 60, plus 30 when the compared currencies are set
  and equal, plus 10 when the reference score is 1; a pair accepted by a date-lag rule scores
  90 when its currencies are set and equal and 60 otherwise. So no such match falls below the
  engine's minimum score of 60, and no date-lag match scores above 90.
\<close>

theorem match_scores:
  "(ExactMatch E left right (Some xcfg) = Inr True \<longrightarrow>
     ScoreExactConfidence (Some xcfg) left right
       = 60 + (if evaluateExactCurrencyMatch xcfg left right then 30 else 0)
            + (if evaluateExactReferenceScore xcfg left right = 1 then 10 else 0)) \<and>
   (DateLagMatch left right (Some dcfg) = Inr True \<longrightarrow>
     ScoreDateLagConfidence (Some dcfg) left right
       = (if c_Currency left \<noteq> '''' \<and> c_Currency left = c_Currency right then 90 else 60))"
  using exact_score datelag_score by blast

theorem match_scores_witness:
  "ScoreDateLagConfidence (Some example_datelag) (example_tx 1 10 '''' 0)
     (example_tx 2 10 '''' (2 * nanos_per_day)) = 90"
proof -
  have "DateLagMatch (example_tx 1 10 '''' 0) (example_tx 2 10 '''' (2 * nanos_per_day)) (Some example_datelag)
    = Inr True"
    by (simp add: DateLagMatch_def example_datelag_def example_tx_def validateDateLagConfig_def
        dateLagCurrencyMatch_def validateFeeTolerance_def amountWithinFeeTolerance_def
        computeDateLagDiff_def computeLeftBeforeRightDiff_def isWithinDateLagBounds_def
        SignedDayDiff_def time_sub_def go_div_def DayUTC_def nanos_per_day_def nanos_per_hour_def
        min_duration_def max_duration_def Let_def)
  then show ?thesis
    using match_scores [of rat_ext "example_tx 1 10 '''' 0" "example_tx 2 10 '''' (2 * nanos_per_day)"
        example_exact example_datelag]
    by (simp add: example_tx_def)
qed

text \<open>
  C29: A pair accepted by a tolerance rule keeps the 40 points of its amount and the 20 of its
  date whenever its amounts have no more decimal places than the rule rounds to, so it reaches
  the engine's minimum score of 60.
\<close>

theorem tolerance_match_score:
  assumes "externals E" "ToleranceMatch E left right (Some cfg) = Inr True"
    and "fst (compared_amounts cfg left right) * 10 ^ nat (to_RoundingScale cfg) \<in> \<int>"
    and "snd (compared_amounts cfg left right) * 10 ^ nat (to_RoundingScale cfg) \<in> \<int>"
  shows "60 \<le> ScoreToleranceConfidence E (Some cfg) left right"
proof -
  let ?x = "extractToleranceComponents E cfg left right"
  have "\<exists>r. cc_ReferenceScore ?x = of_bool r"
  proof (cases "to_MatchReference cfg")
    case True
    then have "cc_ReferenceScore ?x = calculateReferenceScoreWithOptions
        \<lparr> ro_CaseInsensitive = to_CaseInsensitive cfg, ro_ReferenceMustSet = to_ReferenceMustSet cfg \<rparr> left right"
      by (simp add: extractToleranceComponents_def evaluateToleranceReferenceScore_def)
    then show ?thesis by (simp only: reference_score_bool)
  next
    case False
    then show ?thesis
      by (intro exI [of _ False])
        (simp add: extractToleranceComponents_def evaluateToleranceReferenceScore_def)
  qed
  then obtain r where "cc_ReferenceScore ?x = of_bool r" ..
  from score_components [OF this] externals.tolerance_amount_component [OF assms]
    tolerance_date_component [OF assms(2)]
  show ?thesis by (simp add: ScoreToleranceConfidence_def)
qed

lemma example_tolerance_match:
  "ToleranceMatch rat_ext (example_tx 1 10 '''' 0) (example_tx 2 10 '''' 0) (Some example_tolerance) = Inr True"
  using threshold_ge_abs [of "1 / 2" rat_ext "1 / 200" "dec_round rat_ext 10 2" "dec_round rat_ext 10 2"
      TolerancePercentageBaseMax]
  by (simp add: ToleranceMatch_True validate_inputs_True validateToleranceConfig_None example_tolerance_def
      example_tx_def toleranceCurrencyMatch_def toleranceDateMatch_def toleranceBaseAmountMatch_def
      toleranceReferenceMatch_def compared_amounts_def roundAmount_def is_ok_def AbsDayDiff_same_day)

theorem tolerance_match_score_witness:
  "60 \<le> ScoreToleranceConfidence rat_ext (Some example_tolerance) (example_tx 1 10 '''' 0) (example_tx 2 10 '''' 0)"
  by (rule tolerance_match_score [OF rat_externals example_tolerance_match])
    (simp_all add: compared_amounts_def example_tolerance_def example_tx_def)

end
