(* ===== verification/Allocation.thy ===== *)
theory Allocation
  imports "HOL-Library.Sublist" Matching_Types
begin

text \<open>
  Package \<^verbatim>\<open>internal/matching/domain/services\<close>, the files \<^verbatim>\<open>allocation.go\<close>,
  \<^verbatim>\<open>allocation_helpers.go\<close> and \<^verbatim>\<open>allocation_failure.go\<close>: spreading one transaction over many
  candidates, and the proposal or the failure that comes out of it.
\<close>

section \<open>Failures\<close>

datatype AllocationFailureCode = AllocationFailureFXRateUnavailable | AllocationFailureSplitIncomplete

record AllocationFailure =
  af_Code :: AllocationFailureCode
  af_TargetID :: uuid
  af_Meta :: "string \<rightharpoonup> string"

definition NewFXRateUnavailableFailure :: "uuid \<Rightarrow> string \<Rightarrow> AllocationFailure" where
  "NewFXRateUnavailableFailure targetID missing = \<lparr>
     af_Code = AllocationFailureFXRateUnavailable, af_TargetID = targetID,
     af_Meta = [''missing'' \<mapsto> missing] \<rparr>"

definition boolToString :: "bool \<Rightarrow> string" where
  "boolToString b = (if b then ''true'' else ''false'')"

definition NewSplitIncompleteFailure :: "uuid \<Rightarrow> string \<Rightarrow> string \<Rightarrow> string \<Rightarrow> string \<Rightarrow> bool \<Rightarrow> bool \<Rightarrow>
    AllocationFailure" where
  "NewSplitIncompleteFailure targetID expectedTotal allocatedTotal gap currency useBaseAmount allowPartial = \<lparr>
     af_Code = AllocationFailureSplitIncomplete, af_TargetID = targetID,
     af_Meta = [''expected_total'' \<mapsto> expectedTotal, ''allocated_total'' \<mapsto> allocatedTotal,
                ''gap'' \<mapsto> gap, ''currency'' \<mapsto> currency,
                ''use_base_amount'' \<mapsto> boolToString useBaseAmount,
                ''allow_partial'' \<mapsto> boolToString allowPartial] \<rparr>"

section \<open>Amounts\<close>

definition validateAllocationConfig :: "'d::linordered_idom AllocationConfig option \<Rightarrow> services_error option" where
  "validateAllocationConfig config =
     (case config of
        None \<Rightarrow> Some ErrAllocationConfigRequired
      | Some cfg \<Rightarrow>
          if al_ToleranceMode cfg \<noteq> AllocationToleranceAbsolute \<and>
             al_ToleranceMode cfg \<noteq> AllocationTolerancePercent then Some ErrInvalidAllocationToleranceMode
          else if al_Direction cfg \<noteq> AllocationDirectionLeftToRight \<and>
                  al_Direction cfg \<noteq> AllocationDirectionRightToLeft then Some ErrInvalidAllocationDirection
          else if al_ToleranceValue cfg < 0 then Some ErrNegativeAllocationTolerance
          else None)"

text \<open>\<^verbatim>\<open>allocationAmountDetailed\<close> returns an amount or a failure; its third result, the error for
  a nil configuration, cannot occur below \<^verbatim>\<open>validateAllocationInputs\<close>.\<close>

definition allocationAmountDetailed :: "'d CandidateTransaction \<Rightarrow> 'd AllocationConfig \<Rightarrow>
    AllocationFailure + 'd" where
  "allocationAmountDetailed tx cfg =
     (if al_UseBaseAmount cfg then
        (case c_AmountBase tx of
           None \<Rightarrow> Inl (NewFXRateUnavailableFailure (c_ID tx) ''amount_base'')
         | Some amountBase \<Rightarrow>
             if c_CurrencyBase tx = '''' then Inl (NewFXRateUnavailableFailure (c_ID tx) ''currency_base'')
             else Inr amountBase)
      else Inr (c_Amount tx))"

definition allocationAmount :: "'d CandidateTransaction \<Rightarrow> 'd AllocationConfig \<Rightarrow> services_error + 'd" where
  "allocationAmount tx cfg =
     (case allocationAmountDetailed tx cfg of
        Inl failure \<Rightarrow>
          if af_Code failure = AllocationFailureFXRateUnavailable \<and>
             af_Meta failure ''missing'' = Some ''amount_base'' then Inl ErrBaseAmountRequired
          else Inl ErrBaseCurrencyRequired
      | Inr amount \<Rightarrow> Inr amount)"

definition withinAllocationTolerance :: "'d::linordered_idom \<Rightarrow> 'd \<Rightarrow> 'd AllocationConfig \<Rightarrow> bool" where
  "withinAllocationTolerance remaining target cfg =
     (case al_ToleranceMode cfg of
        AllocationTolerancePercent \<Rightarrow>
          (let threshold = \<bar>target\<bar> * al_ToleranceValue cfg in
           if threshold < 0 then False else \<bar>remaining\<bar> \<le> threshold)
      | AllocationToleranceAbsolute \<Rightarrow>
          if al_ToleranceValue cfg < 0 then False else \<bar>remaining\<bar> \<le> al_ToleranceValue cfg
      | AllocationToleranceOther _ \<Rightarrow> False)"

section \<open>Allocation\<close>

text \<open>\<^verbatim>\<open>tryAllocateCandidate\<close>: an error, a skipped candidate (\<open>None\<close>), or an allocation with the
  amount that remains after it.\<close>

definition tryAllocateCandidate :: "'d::linordered_idom CandidateTransaction \<Rightarrow> 'd \<Rightarrow>
    'd AllocationConfig \<Rightarrow> string \<Rightarrow> services_error + ('d Allocation \<times> 'd) option" where
  "tryAllocateCandidate candidate remaining cfg allocationCurrency =
     (case allocationAmount candidate cfg of
        Inl err \<Rightarrow>
          if err = ErrBaseAmountRequired \<or> err = ErrBaseCurrencyRequired then Inr None else Inl err
      | Inr amount \<Rightarrow>
          if amount < 0 then Inl ErrNegativeAllocationCandidate
          else if al_UseBaseAmount cfg \<and> c_CurrencyBase candidate = '''' then Inr None
          else if al_UseBaseAmount cfg \<and> c_CurrencyBase candidate \<noteq> allocationCurrency then Inr None
          else if \<not> al_UseBaseAmount cfg \<and> c_Currency candidate \<noteq> allocationCurrency then Inr None
          else if amount = 0 then Inr None
          else if amount > remaining \<and> \<not> al_AllowPartial cfg then Inr None
          else
            let amount = (if amount > remaining then remaining else amount);
                newRemaining = remaining - amount in
            if newRemaining < 0 then Inl ErrNegativeAllocationAmount
            else Inr (Some (\<lparr> a_TransactionID = c_ID candidate, a_AllocatedAmount = amount,
                              a_Currency = allocationCurrency,
                              a_UseBaseAmount = al_UseBaseAmount cfg \<rparr>, newRemaining)))"

fun allocate_loop :: "'d::linordered_idom \<Rightarrow> 'd AllocationConfig \<Rightarrow> string \<Rightarrow> 'd \<Rightarrow> 'd \<Rightarrow>
    'd Allocation list \<Rightarrow> 'd CandidateTransaction list \<Rightarrow>
    services_error + 'd Allocation list \<times> 'd \<times> bool" where
  "allocate_loop sourceAmount cfg currency remaining acc allocations [] =
     Inr (allocations, acc,
          withinAllocationTolerance remaining sourceAmount cfg \<and> length allocations > 0)"
| "allocate_loop sourceAmount cfg currency remaining acc allocations (candidate # candidates) =
     (case tryAllocateCandidate candidate remaining cfg currency of
        Inl err \<Rightarrow> Inl err
      | Inr None \<Rightarrow> allocate_loop sourceAmount cfg currency remaining acc allocations candidates
      | Inr (Some (allocation, newRemaining)) \<Rightarrow>
          let allocations = allocations @ [allocation];
              acc = acc + a_AllocatedAmount allocation in
          if withinAllocationTolerance newRemaining sourceAmount cfg then Inr (allocations, acc, True)
          else allocate_loop sourceAmount cfg currency newRemaining acc allocations candidates)"

definition allocateCandidates :: "'d::linordered_idom CandidateTransaction list \<Rightarrow> 'd \<Rightarrow>
    'd AllocationConfig \<Rightarrow> string \<Rightarrow> services_error + 'd Allocation list \<times> 'd \<times> bool" where
  "allocateCandidates candidates sourceAmount cfg allocationCurrency =
     allocate_loop sourceAmount cfg allocationCurrency sourceAmount 0 [] candidates"

record 'd AllocationResult =
  ar_Allocations :: "'d Allocation list"
  ar_Total :: 'd
  ar_Complete :: bool
  ar_Failure :: "AllocationFailure option"

definition no_allocation :: "AllocationFailure option \<Rightarrow> 'd::linordered_idom AllocationResult" where
  "no_allocation failure =
     \<lparr> ar_Allocations = [], ar_Total = 0, ar_Complete = False, ar_Failure = failure \<rparr>"

definition resolveAllocationCurrency :: "'d CandidateTransaction \<Rightarrow> 'd AllocationConfig \<Rightarrow>
    AllocationFailure + string" where
  "resolveAllocationCurrency target cfg =
     (if \<not> al_UseBaseAmount cfg then Inr (c_Currency target)
      else if c_CurrencyBase target = ''''
        then Inl (NewFXRateUnavailableFailure (c_ID target) ''currency_base'')
      else Inr (c_CurrencyBase target))"

definition buildAllocationResult :: "'d::linordered_idom ext \<Rightarrow> uuid \<Rightarrow> 'd \<Rightarrow> 'd Allocation list \<Rightarrow>
    'd \<Rightarrow> bool \<Rightarrow> string \<Rightarrow> 'd AllocationConfig \<Rightarrow> 'd AllocationResult" where
  "buildAllocationResult E targetID sourceAmount allocations acc isComplete currency cfg = \<lparr>
     ar_Allocations = allocations, ar_Total = acc, ar_Complete = isComplete,
     ar_Failure =
       (if \<not> isComplete \<and> \<not> al_AllowPartial cfg \<and> length allocations > 0 then
          Some (NewSplitIncompleteFailure targetID (dec_string E sourceAmount) (dec_string E acc)
                  (dec_string E (sourceAmount - acc)) currency (al_UseBaseAmount cfg) (al_AllowPartial cfg))
        else None) \<rparr>"

definition maxAllocationCandidates :: nat where
  "maxAllocationCandidates = 100000"

definition AllocateOneToManyDetailed :: "'d::linordered_idom ext \<Rightarrow> 'd CandidateTransaction \<Rightarrow>
    'd CandidateTransaction list \<Rightarrow> 'd AllocationConfig option \<Rightarrow> services_error + 'd AllocationResult" where
  "AllocateOneToManyDetailed E target candidates config =
     (case validateAllocationConfig config of
        Some err \<Rightarrow> Inl err
      | None \<Rightarrow>
          let cfg = the config in
          if candidates = [] then Inr (no_allocation None)
          else if length candidates > maxAllocationCandidates then Inl ErrCandidateSetTooLarge
          else case allocationAmountDetailed target cfg of
                 Inl failure \<Rightarrow> Inr (no_allocation (Some failure))
               | Inr sourceAmount \<Rightarrow>
                   if sourceAmount < 0 then Inl ErrNegativeAllocationTarget
                   else if sourceAmount = 0 then Inr (no_allocation None)
                   else case resolveAllocationCurrency target cfg of
                          Inl failure \<Rightarrow> Inr (no_allocation (Some failure))
                        | Inr currency \<Rightarrow>
                            rbind (allocateCandidates (SortTransactions E candidates) sourceAmount cfg currency)
                              (\<lambda>(allocations, acc, isComplete).
                                Inr (buildAllocationResult E (c_ID target) sourceAmount allocations acc
                                       isComplete currency cfg)))"

section \<open>Proposals\<close>

definition buildAllocationMatchProposal :: "'d AllocationConfig \<Rightarrow> 'd RuleDefinition \<Rightarrow>
    'd CandidateTransaction \<Rightarrow> 'd Allocation list \<Rightarrow> 'd \<Rightarrow> int \<Rightarrow> 'd MatchProposal" where
  "buildAllocationMatchProposal cfg rule target allocations allocatedTotal score =
     (let targetCurrency = (if al_UseBaseAmount cfg then c_CurrencyBase target else c_Currency target);
          targetAllocations = [\<lparr> a_TransactionID = c_ID target, a_AllocatedAmount = allocatedTotal,
                                 a_Currency = targetCurrency, a_UseBaseAmount = al_UseBaseAmount cfg \<rparr>] in
      if al_Direction cfg = AllocationDirectionRightToLeft then
        \<lparr> mp_RuleID = r_ID rule, mp_LeftIDs = map a_TransactionID allocations,
          mp_RightIDs = [c_ID target], mp_LeftAllocations = allocations,
          mp_RightAllocations = targetAllocations, mp_Score = score, mp_Mode = ''N:1'' \<rparr>
      else
        \<lparr> mp_RuleID = r_ID rule, mp_LeftIDs = [c_ID target],
          mp_RightIDs = map a_TransactionID allocations, mp_LeftAllocations = targetAllocations,
          mp_RightAllocations = allocations, mp_Score = score, mp_Mode = ''1:N'' \<rparr>)"

definition allocateByRuleDetailed :: "'d::linordered_idom ext \<Rightarrow> 'd AllocationConfig \<Rightarrow>
    'd CandidateTransaction \<Rightarrow> 'd CandidateTransaction list \<Rightarrow> services_error + 'd AllocationResult" where
  "allocateByRuleDetailed E cfg target candidates =
     (case al_Direction cfg of
        AllocationDirectionOther _ \<Rightarrow> Inl ErrInvalidAllocationDirection
      | _ \<Rightarrow> AllocateOneToManyDetailed E target candidates (Some cfg))"

record 'd AllocationProposalResult =
  ap_Proposal :: "'d MatchProposal option"
  ap_Failure :: "AllocationFailure option"

definition buildAllocationProposalDetailed :: "'d::linordered_idom ext \<Rightarrow> 'd RuleDefinition \<Rightarrow>
    'd CandidateTransaction \<Rightarrow> 'd CandidateTransaction list \<Rightarrow> int \<Rightarrow>
    services_error + 'd AllocationProposalResult" where
  "buildAllocationProposalDetailed E rule target candidates score =
     (let none = \<lparr> ap_Proposal = None, ap_Failure = None \<rparr> in
      case r_Allocation rule of
        None \<Rightarrow> Inr none
      | Some cfg \<Rightarrow>
          if candidates = [] then Inr none
          else case validateAllocationConfig (Some cfg) of
                 Some err \<Rightarrow> Inl err
               | None \<Rightarrow>
                   rbind (allocateByRuleDetailed E cfg target candidates) (\<lambda>allocResult.
                     if ar_Failure allocResult \<noteq> None
                     then Inr \<lparr> ap_Proposal = None, ap_Failure = ar_Failure allocResult \<rparr>
                     else if \<not> ar_Complete allocResult then Inr none
                     else Inr \<lparr> ap_Proposal = Some (buildAllocationMatchProposal cfg rule target
                                  (ar_Allocations allocResult) (ar_Total allocResult) score),
                                ap_Failure = None \<rparr>))"

section \<open>One candidate\<close>

lemma within_zero:
  "validateAllocationConfig (Some cfg) = None \<Longrightarrow> withinAllocationTolerance 0 t cfg"
  by (auto simp: validateAllocationConfig_def withinAllocationTolerance_def Let_def
      mult_less_0_iff split: if_splits AllocationToleranceMode.splits)

lemma tryAllocate_Some:
  assumes "tryAllocateCandidate c r cfg cur = Inr (Some (a, r'))"
  obtains x where "allocationAmount c cfg = Inr x" "0 < x" "a_AllocatedAmount a = min x r"
    "r' = r - min x r" "a_TransactionID a = c_ID c" "a_Currency a = cur"
    "a_UseBaseAmount a = al_UseBaseAmount cfg" "\<not> al_AllowPartial cfg \<Longrightarrow> x \<le> r"
    "(if al_UseBaseAmount cfg then c_CurrencyBase c else c_Currency c) = cur"
proof -
  obtain x where x: "allocationAmount c cfg = Inr x"
    using assms by (auto simp: tryAllocateCandidate_def split: sum.splits if_splits)
  with assms have "\<not> x < 0" "x \<noteq> 0" "x > r \<longrightarrow> al_AllowPartial cfg"
    and a: "a = \<lparr> a_TransactionID = c_ID c, a_AllocatedAmount = (if x > r then r else x), a_Currency = cur,
          a_UseBaseAmount = al_UseBaseAmount cfg \<rparr>" "r' = r - (if x > r then r else x)"
    and "(if al_UseBaseAmount cfg then c_CurrencyBase c else c_Currency c) = cur"
    by (auto simp: tryAllocateCandidate_def Let_def split: if_splits)
  moreover have "(if x > r then r else x) = min x r" by (simp add: min_def)
  ultimately show thesis using x that [of x] by auto
qed

section \<open>The loop\<close>

text \<open>What one allocation takes from its candidate: at most the candidate's amount, and all of
  it unless the allocation is the one that uses up the remainder.\<close>

definition drawn_from :: "'d::linordered_idom AllocationConfig \<Rightarrow> string \<Rightarrow> 'd CandidateTransaction list \<Rightarrow>
    'd Allocation \<Rightarrow> bool" where
  "drawn_from cfg cur cs a =
     (\<exists>c \<in> set cs. \<exists>x. c_ID c = a_TransactionID a \<and> allocationAmount c cfg = Inr x \<and>
        0 < a_AllocatedAmount a \<and> a_AllocatedAmount a \<le> x \<and> a_Currency a = cur \<and>
        (\<not> al_AllowPartial cfg \<longrightarrow> a_AllocatedAmount a = x))"

definition drawn_whole :: "'d::linordered_idom AllocationConfig \<Rightarrow> 'd CandidateTransaction list \<Rightarrow>
    'd Allocation \<Rightarrow> bool" where
  "drawn_whole cfg cs a =
     (\<exists>c \<in> set cs. c_ID c = a_TransactionID a \<and> allocationAmount c cfg = Inr (a_AllocatedAmount a))"

lemma drawn_Cons:
  "drawn_from cfg cur cs a \<Longrightarrow> drawn_from cfg cur (c # cs) a"
  "drawn_whole cfg cs a \<Longrightarrow> drawn_whole cfg (c # cs) a"
  by (auto simp: drawn_from_def drawn_whole_def)

lemma allocate_loop_ok:
  assumes "allocate_loop S cfg cur r acc pre cs = Inr (as, tot, fin)"
    and "validateAllocationConfig (Some cfg) = None" "0 < r"
  shows "\<exists>new. as = pre @ new \<and> tot = acc + sum_list (map a_AllocatedAmount new) \<and>
    sum_list (map a_AllocatedAmount new) \<le> r \<and>
    (fin \<longrightarrow> withinAllocationTolerance (r - sum_list (map a_AllocatedAmount new)) S cfg \<and> as \<noteq> []) \<and>
    subseq (map a_TransactionID new) (map c_ID cs) \<and>
    (\<forall>a \<in> set new. drawn_from cfg cur cs a) \<and> (\<forall>a \<in> set (butlast new). drawn_whole cfg cs a)"
  using assms(1,3)
proof (induction cs arbitrary: r acc pre)
  case Nil
  then show ?case by auto
next
  case (Cons c cs)
  show ?case
  proof (cases "tryAllocateCandidate c r cfg cur")
    case (Inl e)
    with Cons.prems show ?thesis by simp
  next
    case (Inr o')
    show ?thesis
    proof (cases o')
      case None
      with Inr Cons.prems(1) have "allocate_loop S cfg cur r acc pre cs = Inr (as, tot, fin)" by simp
      from Cons.IH [OF this Cons.prems(2)] obtain new where new: "as = pre @ new"
          "tot = acc + sum_list (map a_AllocatedAmount new)" "sum_list (map a_AllocatedAmount new) \<le> r"
          "fin \<longrightarrow> withinAllocationTolerance (r - sum_list (map a_AllocatedAmount new)) S cfg \<and> as \<noteq> []"
          "subseq (map a_TransactionID new) (map c_ID cs)"
          "\<forall>a \<in> set new. drawn_from cfg cur cs a" "\<forall>a \<in> set (butlast new). drawn_whole cfg cs a"
        by blast
      show ?thesis using new by (intro exI [of _ new]) (simp add: drawn_Cons list_emb_Cons)
    next
      case (Some p)
      then obtain a r' where p: "o' = Some (a, r')" by (cases p) auto
      with Inr have t: "tryAllocateCandidate c r cfg cur = Inr (Some (a, r'))" by simp
      then obtain x where x: "allocationAmount c cfg = Inr x" "0 < x" "a_AllocatedAmount a = min x r"
          "r' = r - min x r" "a_TransactionID a = c_ID c" "a_Currency a = cur"
          "\<not> al_AllowPartial cfg \<Longrightarrow> x \<le> r"
        by (rule tryAllocate_Some) auto
      have drawn: "drawn_from cfg cur (c # cs) a"
        using x Cons.prems(2) by (auto simp: drawn_from_def min_def)
      show ?thesis
      proof (cases "withinAllocationTolerance r' S cfg")
        case True
        with t Cons.prems(1) have "as = pre @ [a]" "tot = acc + a_AllocatedAmount a" "fin"
          by (auto simp: Let_def)
        with True x drawn show ?thesis
          by (intro exI [of _ "[a]"]) (auto simp: subseq_singleton_left)
      next
        case False
        then have "r' \<noteq> 0" using within_zero [OF assms(2)] by auto
        with x Cons.prems(2) have r': "0 < r'" and whole: "a_AllocatedAmount a = x" by (auto simp: min_def split: if_splits)
        from False t Cons.prems(1)
        have "allocate_loop S cfg cur r' (acc + a_AllocatedAmount a) (pre @ [a]) cs = Inr (as, tot, fin)"
          by (simp add: Let_def)
        from Cons.IH [OF this r'] obtain new where new: "as = (pre @ [a]) @ new"
            "tot = acc + a_AllocatedAmount a + sum_list (map a_AllocatedAmount new)"
            "sum_list (map a_AllocatedAmount new) \<le> r'"
            "fin \<longrightarrow> withinAllocationTolerance (r' - sum_list (map a_AllocatedAmount new)) S cfg \<and> as \<noteq> []"
            "subseq (map a_TransactionID new) (map c_ID cs)"
            "\<forall>a \<in> set new. drawn_from cfg cur cs a" "\<forall>a \<in> set (butlast new). drawn_whole cfg cs a"
          by blast
        have "drawn_whole cfg (c # cs) a" using x whole by (auto simp: drawn_whole_def)
        with new x drawn whole show ?thesis
          by (intro exI [of _ "a # new"]) (auto simp: algebra_simps intro: drawn_Cons)
      qed
    qed
  qed
qed

section \<open>Results\<close>

lemma sum_drawn_pos:
  "\<forall>a \<in> set as. drawn_from cfg cur cs a \<Longrightarrow> as \<noteq> [] \<Longrightarrow> 0 < sum_list (map a_AllocatedAmount as)"
proof (induction as)
  case Nil
  then show ?case by simp
next
  case (Cons a as)
  then have "0 < a_AllocatedAmount a" by (auto simp: drawn_from_def)
  moreover have "0 \<le> sum_list (map a_AllocatedAmount as)"
    using Cons.prems(1) by (intro sum_list_nonneg) (fastforce simp: drawn_from_def)
  ultimately show ?case by simp
qed

lemma AllocateOneToMany_ok:
  assumes "AllocateOneToManyDetailed E target candidates (Some cfg) = Inr res"
  shows "validateAllocationConfig (Some cfg) = None"
    and "ar_Allocations res = [] \<and> ar_Total res = 0 \<and> \<not> ar_Complete res \<or>
      (\<exists>source cur. allocationAmountDetailed target cfg = Inr source \<and> 0 < source \<and>
        resolveAllocationCurrency target cfg = Inr cur \<and>
        allocateCandidates (SortTransactions E candidates) source cfg cur
          = Inr (ar_Allocations res, ar_Total res, ar_Complete res) \<and>
        (ar_Failure res \<noteq> None \<longleftrightarrow> \<not> ar_Complete res \<and> \<not> al_AllowPartial cfg \<and> ar_Allocations res \<noteq> []))"
proof -
  show v: "validateAllocationConfig (Some cfg) = None"
    using assms by (auto simp: AllocateOneToManyDetailed_def split: option.splits)
  show "ar_Allocations res = [] \<and> ar_Total res = 0 \<and> \<not> ar_Complete res \<or>
      (\<exists>source cur. allocationAmountDetailed target cfg = Inr source \<and> 0 < source \<and>
        resolveAllocationCurrency target cfg = Inr cur \<and>
        allocateCandidates (SortTransactions E candidates) source cfg cur
          = Inr (ar_Allocations res, ar_Total res, ar_Complete res) \<and>
        (ar_Failure res \<noteq> None \<longleftrightarrow> \<not> ar_Complete res \<and> \<not> al_AllowPartial cfg \<and> ar_Allocations res \<noteq> []))"
    using assms v
    by (auto simp: AllocateOneToManyDetailed_def no_allocation_def buildAllocationResult_def Let_def
        split: if_splits sum.splits)
qed

lemma allocateCandidates_ok:
  assumes "allocateCandidates cs S cfg cur = Inr (as, tot, fin)"
    and "validateAllocationConfig (Some cfg) = None" "0 < S"
  shows "tot = sum_list (map a_AllocatedAmount as)" "tot \<le> S"
    "fin \<Longrightarrow> withinAllocationTolerance (S - tot) S cfg \<and> as \<noteq> []"
    "subseq (map a_TransactionID as) (map c_ID cs)"
    "\<forall>a \<in> set as. drawn_from cfg cur cs a" "\<forall>a \<in> set (butlast as). drawn_whole cfg cs a"
  using allocate_loop_ok [OF assms(1) [unfolded allocateCandidates_def] assms(2,3)] by auto

lemma within_tolerance_bound:
  "withinAllocationTolerance r t cfg \<Longrightarrow> \<bar>r\<bar> \<le>
     (if al_ToleranceMode cfg = AllocationTolerancePercent then \<bar>t\<bar> * al_ToleranceValue cfg
      else al_ToleranceValue cfg)"
  by (auto simp: withinAllocationTolerance_def Let_def split: AllocationToleranceMode.splits if_splits)

lemma subseq_distinct: "subseq xs ys \<Longrightarrow> distinct ys \<Longrightarrow> distinct xs"
  by (auto simp: subseq_conv_nths)

section \<open>Properties\<close>

definition example_allocation :: "rat AllocationConfig" where
  "example_allocation = \<lparr>
     al_AllowPartial = True, al_Direction = AllocationDirectionLeftToRight,
     al_ToleranceMode = AllocationToleranceAbsolute, al_ToleranceValue = 0, al_UseBaseAmount = False \<rparr>"

definition alloc_tx :: "uuid \<Rightarrow> rat \<Rightarrow> rat CandidateTransaction" where
  "alloc_tx i a = \<lparr>
     c_ID = i, c_SourceID = 9, c_Amount = a, c_OriginalAmount = a, c_AmountBase = None,
     c_FeeBreakdown = None, c_Currency = ''USD'', c_CurrencyBase = '''', c_Reference = '''', c_Date = 0 \<rparr>"

text \<open>
  C5: An allocation never gives out more than there is: the total is the sum of the parts and at
  most the amount of the target; every part comes from one of the candidates, is positive, in
  the allocation currency and at most the candidate's amount, and only the last part can be
  less than it; candidates with distinct IDs are used at most once; a complete allocation
  misses the target by at most the tolerance, and an incomplete one without leave to be
  partial is reported as a failure.
\<close>

theorem AllocateOneToMany_sound:
  assumes "AllocateOneToManyDetailed E target candidates (Some cfg) = Inr res" "ar_Allocations res \<noteq> []"
  shows "\<exists>source cur. allocationAmountDetailed target cfg = Inr source \<and>
    ar_Total res = sum_list (map a_AllocatedAmount (ar_Allocations res)) \<and>
    0 < ar_Total res \<and> ar_Total res \<le> source \<and>
    (\<forall>a \<in> set (ar_Allocations res). drawn_from cfg cur candidates a) \<and>
    (\<forall>a \<in> set (butlast (ar_Allocations res)). drawn_whole cfg candidates a) \<and>
    (distinct (map c_ID candidates) \<longrightarrow> distinct (map a_TransactionID (ar_Allocations res))) \<and>
    (ar_Complete res \<longrightarrow> source - ar_Total res \<le>
      (if al_ToleranceMode cfg = AllocationTolerancePercent then source * al_ToleranceValue cfg
       else al_ToleranceValue cfg)) \<and>
    (ar_Failure res \<noteq> None \<longleftrightarrow> \<not> ar_Complete res \<and> \<not> al_AllowPartial cfg)"
proof -
  note ok = AllocateOneToMany_ok [OF assms(1)]
  from ok(2) assms(2) obtain source cur where s: "allocationAmountDetailed target cfg = Inr source" "0 < source"
      and a: "allocateCandidates (SortTransactions E candidates) source cfg cur
          = Inr (ar_Allocations res, ar_Total res, ar_Complete res)"
      and f: "ar_Failure res \<noteq> None \<longleftrightarrow> \<not> ar_Complete res \<and> \<not> al_AllowPartial cfg \<and> ar_Allocations res \<noteq> []"
    by auto
  note r = allocateCandidates_ok [OF a ok(1) s(2)]
  have drawn: "\<forall>a \<in> set (ar_Allocations res). drawn_from cfg cur candidates a"
    "\<forall>a \<in> set (butlast (ar_Allocations res)). drawn_whole cfg candidates a"
    using r(5,6) by (auto simp: drawn_from_def drawn_whole_def)
  have d: "distinct (map c_ID candidates) \<longrightarrow> distinct (map a_TransactionID (ar_Allocations res))"
    using r(4) by (metis SortTransactions_set(4) subseq_distinct)
  have "ar_Complete res \<Longrightarrow> source - ar_Total res \<le>
      (if al_ToleranceMode cfg = AllocationTolerancePercent then source * al_ToleranceValue cfg
       else al_ToleranceValue cfg)"
    using within_tolerance_bound [of "source - ar_Total res" source cfg] r(2,3) s(2)
    by (auto split: if_splits)
  moreover have "0 < ar_Total res" using sum_drawn_pos [OF drawn(1) assms(2)] r(1) by simp
  ultimately show ?thesis using s(1) r(1,2) drawn d f assms(2) by blast
qed

text \<open>
  C28: The allocation depends on the candidates only as a set: two slices with the same
  candidates, in any order, get the same result.
\<close>

theorem AllocateOneToMany_order:
  assumes "externals E" "distinct (map c_ID candidates)" "mset candidates = mset candidates'"
  shows "AllocateOneToManyDetailed E target candidates config
    = AllocateOneToManyDetailed E target candidates' config"
proof -
  have "candidates = [] \<longleftrightarrow> candidates' = []" "length candidates = length candidates'"
    using assms(3) by (auto dest: mset_eq_length)
  note eqs = this externals.SortTransactions_mset [OF assms(1,3,2)]
  show ?thesis unfolding AllocateOneToManyDetailed_def eqs ..
qed

theorem AllocateOneToMany_order_witness:
  "AllocateOneToManyDetailed rat_ext (alloc_tx 1 10) [alloc_tx 2 6, alloc_tx 3 5] (Some example_allocation)
   = AllocateOneToManyDetailed rat_ext (alloc_tx 1 10) [alloc_tx 3 5, alloc_tx 2 6] (Some example_allocation)"
  by (rule AllocateOneToMany_order [OF rat_externals]) (simp_all add: alloc_tx_def)

lemma example_allocation_result:
  "AllocateOneToManyDetailed rat_ext (alloc_tx 1 10) [alloc_tx 2 6, alloc_tx 3 5] (Some example_allocation)
   = Inr \<lparr> ar_Allocations =
         [\<lparr> a_TransactionID = 3, a_AllocatedAmount = 5, a_Currency = ''USD'', a_UseBaseAmount = False \<rparr>,
          \<lparr> a_TransactionID = 2, a_AllocatedAmount = 5, a_Currency = ''USD'', a_UseBaseAmount = False \<rparr>],
         ar_Total = 10, ar_Complete = True, ar_Failure = None \<rparr>"
proof -
  have "SortTransactions rat_ext [alloc_tx 2 6, alloc_tx 3 5] = [alloc_tx 3 5, alloc_tx 2 6]"
    by (simp add: SortTransactions_def tx_lt_def then_lt_def alloc_tx_def)
  then show ?thesis
    by (simp add: AllocateOneToManyDetailed_def validateAllocationConfig_def example_allocation_def
        maxAllocationCandidates_def allocationAmountDetailed_def resolveAllocationCurrency_def
        allocateCandidates_def tryAllocateCandidate_def allocationAmount_def alloc_tx_def
        withinAllocationTolerance_def buildAllocationResult_def Let_def)
qed

theorem AllocateOneToMany_sound_witness:
  "\<exists>res. AllocateOneToManyDetailed rat_ext (alloc_tx 1 10) [alloc_tx 2 6, alloc_tx 3 5] (Some example_allocation)
      = Inr res \<and> ar_Total res \<le> 10 \<and> 0 < ar_Total res"
  using AllocateOneToMany_sound [OF example_allocation_result] example_allocation_result
  by (auto simp: allocationAmountDetailed_def example_allocation_def alloc_tx_def)

end
