(* ===== verification/Engine.thy ===== *)
theory Engine
  imports Confidence Allocation
begin

text \<open>
  Package \<^verbatim>\<open>internal/matching/domain/services\<close>, the file \<^verbatim>\<open>engine.go\<close>: rules applied in
  deterministic order to two sets of candidates, in 1:1 mode and in 1:N and N:1 mode. The maps
  of used IDs are sets, a nil engine is \<^const>\<open>None\<close>. The code sorts the slices of its caller in
  place; the model sorts copies, and sorting again changes nothing (\<open>SortTransactions_idem\<close>).
  The loops of a function are recursive functions over the remaining slice.
\<close>

record Engine =
  e_maxCandidates :: int

definition DefaultMaxCandidates :: int where
  "DefaultMaxCandidates = 5000"

definition minMatchScore :: int where
  "minMatchScore = 60"

definition NewEngine :: Engine where
  "NewEngine = \<lparr> e_maxCandidates = DefaultMaxCandidates \<rparr>"

definition NewEngineWithLimit :: "int \<Rightarrow> Engine" where
  "NewEngineWithLimit limit = \<lparr> e_maxCandidates = limit \<rparr>"

definition maxAllowed :: "Engine \<Rightarrow> int" where
  "maxAllowed engine = (if e_maxCandidates engine \<le> 0 then DefaultMaxCandidates else e_maxCandidates engine)"

section \<open>One pair\<close>

definition evalByType :: "'d::linordered_idom ext \<Rightarrow> 'd RuleDefinition \<Rightarrow> 'd CandidateTransaction \<Rightarrow>
    'd CandidateTransaction \<Rightarrow> services_error + bool \<times> int" where
  "evalByType E rule left right =
     (if r_Exact rule \<noteq> None then
        rbind (ExactMatch E left right (r_Exact rule)) (\<lambda>matched.
          Inr (matched, if matched then ScoreExactConfidence (r_Exact rule) left right else 0))
      else if r_Tolerance rule \<noteq> None then
        rbind (ToleranceMatch E left right (r_Tolerance rule)) (\<lambda>matched.
          Inr (matched, if matched then ScoreToleranceConfidence E (r_Tolerance rule) left right else 0))
      else if r_DateLag rule \<noteq> None then
        rbind (DateLagMatch left right (r_DateLag rule)) (\<lambda>matched.
          Inr (matched, if matched then ScoreDateLagConfidence (r_DateLag rule) left right else 0))
      else Inl ErrNilRuleConfig)"

section \<open>One to one\<close>

definition pair_proposal :: "'d RuleDefinition \<Rightarrow> uuid \<Rightarrow> uuid \<Rightarrow> int \<Rightarrow> 'd MatchProposal" where
  "pair_proposal rule leftID rightID score = \<lparr>
     mp_RuleID = r_ID rule, mp_LeftIDs = [leftID], mp_RightIDs = [rightID],
     mp_LeftAllocations = [], mp_RightAllocations = [], mp_Score = score, mp_Mode = ''1:1'' \<rparr>"

text \<open>The inner loop of \<^verbatim>\<open>findAll1v1Matches\<close> stops at the first free right candidate that matches.\<close>

fun findAll1v1_right :: "'d::linordered_idom ext \<Rightarrow> 'd RuleDefinition \<Rightarrow> 'd CandidateTransaction \<Rightarrow>
    uuid set \<Rightarrow> uuid set \<Rightarrow> 'd CandidateTransaction list \<Rightarrow>
    services_error + ('d CandidateTransaction \<times> int) option" where
  "findAll1v1_right E rule leftTxn usedRight localUsedRight [] = Inr None"
| "findAll1v1_right E rule leftTxn usedRight localUsedRight (rightTxn # right) =
     (if c_ID rightTxn \<in> usedRight then findAll1v1_right E rule leftTxn usedRight localUsedRight right
      else if c_ID rightTxn \<in> localUsedRight then findAll1v1_right E rule leftTxn usedRight localUsedRight right
      else rbind (evalByType E rule leftTxn rightTxn) (\<lambda>(matched, score).
        if \<not> matched \<or> score < minMatchScore
        then findAll1v1_right E rule leftTxn usedRight localUsedRight right
        else Inr (Some (rightTxn, score))))"

fun findAll1v1_left :: "'d::linordered_idom ext \<Rightarrow> 'd RuleDefinition \<Rightarrow> 'd CandidateTransaction list \<Rightarrow>
    uuid set \<Rightarrow> uuid set \<Rightarrow> uuid set \<Rightarrow> uuid set \<Rightarrow> 'd MatchProposal list \<Rightarrow>
    'd CandidateTransaction list \<Rightarrow> services_error + 'd MatchProposal list" where
  "findAll1v1_left E rule right usedLeft usedRight localUsedLeft localUsedRight proposals [] = Inr proposals"
| "findAll1v1_left E rule right usedLeft usedRight localUsedLeft localUsedRight proposals (leftTxn # left) =
     (if c_ID leftTxn \<in> usedLeft
      then findAll1v1_left E rule right usedLeft usedRight localUsedLeft localUsedRight proposals left
      else if c_ID leftTxn \<in> localUsedLeft
      then findAll1v1_left E rule right usedLeft usedRight localUsedLeft localUsedRight proposals left
      else rbind (findAll1v1_right E rule leftTxn usedRight localUsedRight right) (\<lambda>found.
        case found of
          None \<Rightarrow> findAll1v1_left E rule right usedLeft usedRight localUsedLeft localUsedRight proposals left
        | Some (rightTxn, score) \<Rightarrow>
            findAll1v1_left E rule right usedLeft usedRight
              (insert (c_ID leftTxn) localUsedLeft) (insert (c_ID rightTxn) localUsedRight)
              (proposals @ [pair_proposal rule (c_ID leftTxn) (c_ID rightTxn) score]) left))"

definition findAll1v1Matches :: "'d::linordered_idom ext \<Rightarrow> 'd RuleDefinition \<Rightarrow>
    'd CandidateTransaction list \<Rightarrow> 'd CandidateTransaction list \<Rightarrow> uuid set \<Rightarrow> uuid set \<Rightarrow>
    services_error + 'd MatchProposal list" where
  "findAll1v1Matches E rule left right usedLeft usedRight =
     findAll1v1_left E rule right usedLeft usedRight {} {} [] left"

fun execute1v1_rules :: "'d::linordered_idom ext \<Rightarrow> 'd CandidateTransaction list \<Rightarrow>
    'd CandidateTransaction list \<Rightarrow> uuid set \<Rightarrow> uuid set \<Rightarrow> 'd MatchProposal list \<Rightarrow>
    'd RuleDefinition list \<Rightarrow> services_error + 'd MatchProposal list" where
  "execute1v1_rules E left right usedLeft usedRight out [] = Inr out"
| "execute1v1_rules E left right usedLeft usedRight out (rule # rules) =
     rbind (findAll1v1Matches E rule left right usedLeft usedRight) (\<lambda>proposals.
       execute1v1_rules E left right
         (usedLeft \<union> set (concat (map mp_LeftIDs proposals)))
         (usedRight \<union> set (concat (map mp_RightIDs proposals))) (out @ proposals) rules)"

definition too_large :: "Engine \<Rightarrow> 'd RuleDefinition list \<Rightarrow> 'd CandidateTransaction list \<Rightarrow>
    'd CandidateTransaction list \<Rightarrow> bool" where
  "too_large engine rules left right =
     (int (length rules) > maxAllowed engine \<or> int (length left) > maxAllowed engine \<or>
      int (length right) > maxAllowed engine)"

definition Execute1v1 :: "'d::linordered_idom ext \<Rightarrow> Engine option \<Rightarrow> 'd RuleDefinition list \<Rightarrow>
    'd CandidateTransaction list \<Rightarrow> 'd CandidateTransaction list \<Rightarrow> services_error + 'd MatchProposal list" where
  "Execute1v1 E engine rules left right =
     (case engine of
        None \<Rightarrow> Inl ErrEngineIsNil
      | Some engine \<Rightarrow>
          if too_large engine rules left right then Inl ErrCandidateSetTooLarge
          else execute1v1_rules E (SortTransactions E left) (SortTransactions E right) {} {} []
                 (SortRules E rules))"

section \<open>One to many\<close>

record 'd matchContext =
  mc_usedPrimary :: "uuid set"
  mc_usedSecondary :: "uuid set"
  mc_proposals :: "'d MatchProposal list"
  mc_allocFailures :: "uuid \<rightharpoonup> AllocationFailure"
  mc_mode :: string
  mc_primaryIsLeft :: bool

record 'd EngineResult =
  er_Proposals :: "'d MatchProposal list"
  er_AllocFailures :: "uuid \<rightharpoonup> AllocationFailure"

fun collectMatches_loop :: "'d::linordered_idom ext \<Rightarrow> 'd RuleDefinition \<Rightarrow> 'd CandidateTransaction \<Rightarrow>
    uuid set \<Rightarrow> bool \<Rightarrow> 'd CandidateTransaction list \<Rightarrow> uuid list \<Rightarrow> int \<Rightarrow> 'd CandidateTransaction list \<Rightarrow>
    services_error + 'd CandidateTransaction list \<times> uuid list \<times> int" where
  "collectMatches_loop E rule primary used evalPrimaryFirst matchedCandidates matchedIDs maxScore [] =
     Inr (matchedCandidates, matchedIDs, maxScore)"
| "collectMatches_loop E rule primary used evalPrimaryFirst matchedCandidates matchedIDs maxScore
     (candidate # candidates) =
     (if c_ID candidate \<in> used then
        collectMatches_loop E rule primary used evalPrimaryFirst matchedCandidates matchedIDs maxScore candidates
      else
        rbind (if evalPrimaryFirst then evalByType E rule primary candidate
               else evalByType E rule candidate primary) (\<lambda>(matched, score).
          if \<not> matched \<or> score < minMatchScore then
            collectMatches_loop E rule primary used evalPrimaryFirst matchedCandidates matchedIDs maxScore
              candidates
          else
            collectMatches_loop E rule primary used evalPrimaryFirst (matchedCandidates @ [candidate])
              (matchedIDs @ [c_ID candidate]) (if score > maxScore then score else maxScore) candidates))"

definition collectMatches :: "'d::linordered_idom ext \<Rightarrow> 'd RuleDefinition \<Rightarrow> 'd CandidateTransaction \<Rightarrow>
    'd CandidateTransaction list \<Rightarrow> uuid set \<Rightarrow> bool \<Rightarrow>
    services_error + 'd CandidateTransaction list \<times> uuid list \<times> int" where
  "collectMatches E rule primary candidates used evalPrimaryFirst =
     collectMatches_loop E rule primary used evalPrimaryFirst [] [] 0 candidates"

definition findMatchesForLeft :: "'d::linordered_idom ext \<Rightarrow> 'd RuleDefinition \<Rightarrow> 'd CandidateTransaction \<Rightarrow>
    'd CandidateTransaction list \<Rightarrow> uuid set \<Rightarrow>
    services_error + 'd CandidateTransaction list \<times> uuid list \<times> int" where
  "findMatchesForLeft E rule left right usedRight = collectMatches E rule left right usedRight True"

definition findMatchesForRight :: "'d::linordered_idom ext \<Rightarrow> 'd RuleDefinition \<Rightarrow> 'd CandidateTransaction \<Rightarrow>
    'd CandidateTransaction list \<Rightarrow> uuid set \<Rightarrow>
    services_error + 'd CandidateTransaction list \<times> uuid list \<times> int" where
  "findMatchesForRight E rule right left usedLeft = collectMatches E rule right left usedLeft False"

definition findMatches :: "'d::linordered_idom ext \<Rightarrow> 'd RuleDefinition \<Rightarrow> 'd CandidateTransaction \<Rightarrow>
    'd CandidateTransaction list \<Rightarrow> 'd matchContext \<Rightarrow>
    services_error + 'd CandidateTransaction list \<times> uuid list \<times> int" where
  "findMatches E rule primaryCandidate secondary mctx =
     (if mc_primaryIsLeft mctx
      then findMatchesForLeft E rule primaryCandidate secondary (mc_usedSecondary mctx)
      else findMatchesForRight E rule primaryCandidate secondary (mc_usedSecondary mctx))"

text \<open>\<^verbatim>\<open>resolveUsedMaps\<close> hands out the maps of the context by their side; \<open>set_used_maps\<close> is the
  effect on the context of writing to them.\<close>

definition resolveUsedMaps :: "'d matchContext \<Rightarrow> uuid set \<times> uuid set" where
  "resolveUsedMaps mctx =
     (if mc_primaryIsLeft mctx then (mc_usedPrimary mctx, mc_usedSecondary mctx)
      else (mc_usedSecondary mctx, mc_usedPrimary mctx))"

definition set_used_maps :: "uuid set \<Rightarrow> uuid set \<Rightarrow> 'd matchContext \<Rightarrow> 'd matchContext" where
  "set_used_maps usedLeft usedRight mctx =
     (if mc_primaryIsLeft mctx then mctx\<lparr> mc_usedPrimary := usedLeft, mc_usedSecondary := usedRight \<rparr>
      else mctx\<lparr> mc_usedPrimary := usedRight, mc_usedSecondary := usedLeft \<rparr>)"

definition resolveProposalIDs :: "uuid \<Rightarrow> uuid list \<Rightarrow> bool \<Rightarrow> uuid list \<times> uuid list" where
  "resolveProposalIDs primaryID matchedIDs primaryIsLeft =
     (if primaryIsLeft then ([primaryID], matchedIDs) else (matchedIDs, [primaryID]))"

definition markUsed :: "uuid list \<Rightarrow> uuid set \<Rightarrow> uuid set" where
  "markUsed ids used = fold insert ids used"

definition addDirectProposal :: "'d RuleDefinition \<Rightarrow> uuid \<Rightarrow> uuid list \<Rightarrow> int \<Rightarrow> 'd matchContext \<Rightarrow>
    'd matchContext" where
  "addDirectProposal rule primaryID matchedIDs maxScore mctx =
     (let (leftIDs, rightIDs) = resolveProposalIDs primaryID matchedIDs (mc_primaryIsLeft mctx) in
      mctx\<lparr> mc_proposals := mc_proposals mctx @
               [\<lparr> mp_RuleID = r_ID rule, mp_LeftIDs = leftIDs, mp_RightIDs = rightIDs,
                  mp_LeftAllocations = [], mp_RightAllocations = [], mp_Score = maxScore,
                  mp_Mode = mc_mode mctx \<rparr>],
            mc_usedPrimary := insert primaryID (mc_usedPrimary mctx),
            mc_usedSecondary := markUsed matchedIDs (mc_usedSecondary mctx) \<rparr>)"

text \<open>The three pointer arguments \<^verbatim>\<open>out\<close>, \<^verbatim>\<open>usedLeft\<close> and \<^verbatim>\<open>usedRight\<close> come back as results.\<close>

definition applyAllocationProposalDetailed :: "'d::linordered_idom ext \<Rightarrow> 'd RuleDefinition \<Rightarrow>
    'd CandidateTransaction \<Rightarrow> 'd CandidateTransaction list \<Rightarrow> int \<Rightarrow> 'd MatchProposal list \<Rightarrow>
    uuid set \<Rightarrow> uuid set \<Rightarrow>
    services_error + bool \<times> AllocationFailure option \<times> 'd MatchProposal list \<times> uuid set \<times> uuid set" where
  "applyAllocationProposalDetailed E rule base matchedCandidates maxScore out usedLeft usedRight =
     (if r_Allocation rule = None then Inr (False, None, out, usedLeft, usedRight)
      else rbind (buildAllocationProposalDetailed E rule base matchedCandidates maxScore) (\<lambda>result.
        if ap_Failure result \<noteq> None then Inr (False, ap_Failure result, out, usedLeft, usedRight)
        else case ap_Proposal result of
               None \<Rightarrow> Inr (False, None, out, usedLeft, usedRight)
             | Some p \<Rightarrow> Inr (True, None, out @ [p], fold insert (mp_LeftIDs p) usedLeft,
                             fold insert (mp_RightIDs p) usedRight)))"

definition tryMatchCandidate :: "'d::linordered_idom ext \<Rightarrow> 'd RuleDefinition \<Rightarrow> 'd CandidateTransaction \<Rightarrow>
    'd CandidateTransaction list \<Rightarrow> 'd matchContext \<Rightarrow> services_error + 'd matchContext" where
  "tryMatchCandidate E rule primaryCandidate secondary mctx =
     rbind (findMatches E rule primaryCandidate secondary mctx) (\<lambda>(matchedCandidates, matchedIDs, maxScore).
       if matchedIDs = [] then Inr mctx
       else
         let (usedLeft, usedRight) = resolveUsedMaps mctx in
         rbind (applyAllocationProposalDetailed E rule primaryCandidate matchedCandidates maxScore
                  (mc_proposals mctx) usedLeft usedRight)
           (\<lambda>(applied, failure, proposals, usedLeft, usedRight).
             let mctx = set_used_maps usedLeft usedRight (mctx\<lparr> mc_proposals := proposals \<rparr>);
                 mctx = (case failure of
                           None \<Rightarrow> mctx
                         | Some f \<Rightarrow> mctx\<lparr> mc_allocFailures := (mc_allocFailures mctx)(af_TargetID f \<mapsto> f) \<rparr>) in
             Inr (if \<not> applied \<and> r_Allocation rule = None
                  then addDirectProposal rule (c_ID primaryCandidate) matchedIDs maxScore mctx
                  else mctx)))"

fun processRuleMatches :: "'d::linordered_idom ext \<Rightarrow> 'd RuleDefinition \<Rightarrow> 'd CandidateTransaction list \<Rightarrow>
    'd CandidateTransaction list \<Rightarrow> 'd matchContext \<Rightarrow> services_error + 'd matchContext" where
  "processRuleMatches E rule [] secondary mctx = Inr mctx"
| "processRuleMatches E rule (primaryCandidate # primary) secondary mctx =
     (if c_ID primaryCandidate \<in> mc_usedPrimary mctx then processRuleMatches E rule primary secondary mctx
      else rbind (tryMatchCandidate E rule primaryCandidate secondary mctx)
             (\<lambda>mctx. processRuleMatches E rule primary secondary mctx))"

fun process_rules :: "'d::linordered_idom ext \<Rightarrow> 'd CandidateTransaction list \<Rightarrow>
    'd CandidateTransaction list \<Rightarrow> 'd RuleDefinition list \<Rightarrow> 'd matchContext \<Rightarrow> services_error + 'd matchContext" where
  "process_rules E primary secondary [] mctx = Inr mctx"
| "process_rules E primary secondary (rule # rules) mctx =
     rbind (processRuleMatches E rule primary secondary mctx)
       (\<lambda>mctx. process_rules E primary secondary rules mctx)"

definition new_context :: "string \<Rightarrow> bool \<Rightarrow> 'd matchContext" where
  "new_context mode primaryIsLeft = \<lparr>
     mc_usedPrimary = {}, mc_usedSecondary = {}, mc_proposals = [], mc_allocFailures = Map.empty,
     mc_mode = mode, mc_primaryIsLeft = primaryIsLeft \<rparr>"

definition matchWithDirectionDetailed :: "'d::linordered_idom ext \<Rightarrow> 'd RuleDefinition list \<Rightarrow>
    'd CandidateTransaction list \<Rightarrow> 'd CandidateTransaction list \<Rightarrow> string \<Rightarrow> bool \<Rightarrow>
    services_error + 'd EngineResult" where
  "matchWithDirectionDetailed E rules primary secondary mode primaryIsLeft =
     rbind (process_rules E primary secondary rules (new_context mode primaryIsLeft)) (\<lambda>mctx.
       Inr \<lparr> er_Proposals = mc_proposals mctx, er_AllocFailures = mc_allocFailures mctx \<rparr>)"

definition Execute1vNDetailed :: "'d::linordered_idom ext \<Rightarrow> Engine option \<Rightarrow> 'd RuleDefinition list \<Rightarrow>
    'd CandidateTransaction list \<Rightarrow> 'd CandidateTransaction list \<Rightarrow> services_error + 'd EngineResult" where
  "Execute1vNDetailed E engine rules left right =
     (case engine of
        None \<Rightarrow> Inl ErrEngineIsNil
      | Some engine \<Rightarrow>
          if too_large engine rules left right then Inl ErrCandidateSetTooLarge
          else matchWithDirectionDetailed E (SortRules E rules) (SortTransactions E left)
                 (SortTransactions E right) ''1:N'' True)"

definition ExecuteNv1Detailed :: "'d::linordered_idom ext \<Rightarrow> Engine option \<Rightarrow> 'd RuleDefinition list \<Rightarrow>
    'd CandidateTransaction list \<Rightarrow> 'd CandidateTransaction list \<Rightarrow> services_error + 'd EngineResult" where
  "ExecuteNv1Detailed E engine rules left right =
     (case engine of
        None \<Rightarrow> Inl ErrEngineIsNil
      | Some engine \<Rightarrow>
          if too_large engine rules left right then Inl ErrCandidateSetTooLarge
          else matchWithDirectionDetailed E (SortRules E rules) (SortTransactions E right)
                 (SortTransactions E left) ''N:1'' False)"

definition Execute1vN :: "'d::linordered_idom ext \<Rightarrow> Engine option \<Rightarrow> 'd RuleDefinition list \<Rightarrow>
    'd CandidateTransaction list \<Rightarrow> 'd CandidateTransaction list \<Rightarrow> services_error + 'd MatchProposal list" where
  "Execute1vN E engine rules left right =
     rbind (Execute1vNDetailed E engine rules left right) (\<lambda>result. Inr (er_Proposals result))"

definition ExecuteNv1 :: "'d::linordered_idom ext \<Rightarrow> Engine option \<Rightarrow> 'd RuleDefinition list \<Rightarrow>
    'd CandidateTransaction list \<Rightarrow> 'd CandidateTransaction list \<Rightarrow> services_error + 'd MatchProposal list" where
  "ExecuteNv1 E engine rules left right =
     rbind (ExecuteNv1Detailed E engine rules left right) (\<lambda>result. Inr (er_Proposals result))"

section \<open>One to one: a greedy scan\<close>

text \<open>The reference: go once through all triples of a rule, a left and a right candidate, in
  lexicographic order, and take each triple that matches and whose two candidates are free.\<close>

definition accepts :: "'d::linordered_idom ext \<Rightarrow> 'd RuleDefinition \<Rightarrow> 'd CandidateTransaction \<Rightarrow>
    'd CandidateTransaction \<Rightarrow> int \<Rightarrow> bool" where
  "accepts E rule l r score = (evalByType E rule l r = Inr (True, score) \<and> minMatchScore \<le> score)"

definition triples :: "'d RuleDefinition list \<Rightarrow> 'd CandidateTransaction list \<Rightarrow> 'd CandidateTransaction list \<Rightarrow>
    ('d RuleDefinition \<times> 'd CandidateTransaction \<times> 'd CandidateTransaction) list" where
  "triples rules left right =
     concat (map (\<lambda>rule. concat (map (\<lambda>l. map (\<lambda>r. (rule, l, r)) right) left)) rules)"

primrec greedy_scan :: "'d::linordered_idom ext \<Rightarrow>
    ('d RuleDefinition \<times> 'd CandidateTransaction \<times> 'd CandidateTransaction) list \<Rightarrow>
    uuid set \<Rightarrow> uuid set \<Rightarrow> services_error + 'd MatchProposal list" where
  "greedy_scan E [] L R = Inr []"
| "greedy_scan E (t # ts) L R =
     (case t of (rule, l, r) \<Rightarrow>
        if c_ID l \<in> L \<or> c_ID r \<in> R then greedy_scan E ts L R
        else rbind (evalByType E rule l r) (\<lambda>(matched, score).
          if matched \<and> minMatchScore \<le> score
          then rbind (greedy_scan E ts (insert (c_ID l) L) (insert (c_ID r) R))
                 (\<lambda>ps. Inr (pair_proposal rule (c_ID l) (c_ID r) score # ps))
          else greedy_scan E ts L R))"

abbreviation greedy :: "'d::linordered_idom ext \<Rightarrow> uuid set \<Rightarrow> uuid set \<Rightarrow>
    ('d RuleDefinition \<times> 'd CandidateTransaction \<times> 'd CandidateTransaction) list \<Rightarrow>
    services_error + 'd MatchProposal list" where
  "greedy E L R ts \<equiv> greedy_scan E ts L R"

abbreviation left_ids :: "'d MatchProposal list \<Rightarrow> uuid list" where
  "left_ids ps \<equiv> concat (map mp_LeftIDs ps)"

abbreviation right_ids :: "'d MatchProposal list \<Rightarrow> uuid list" where
  "right_ids ps \<equiv> concat (map mp_RightIDs ps)"

lemma pair_proposal_sel [simp]:
  "mp_LeftIDs (pair_proposal rule i j s) = [i]" "mp_RightIDs (pair_proposal rule i j s) = [j]"
  "mp_Score (pair_proposal rule i j s) = s" "mp_RuleID (pair_proposal rule i j s) = r_ID rule"
  by (simp_all add: pair_proposal_def)

lemma greedy_skip_left:
  "c_ID l \<in> L \<Longrightarrow> greedy E L R (map (\<lambda>r. (rule, l, r)) rs @ ts) = greedy E L R ts"
  by (induction rs) auto

lemma greedy_right:
  "c_ID l \<notin> L \<Longrightarrow> greedy E L (U \<union> V) (map (\<lambda>r. (rule, l, r)) rs @ ts) =
     rbind (findAll1v1_right E rule l U V rs) (\<lambda>found. case found of
         None \<Rightarrow> greedy E L (U \<union> V) ts
       | Some (r, s) \<Rightarrow> rbind (greedy E (insert (c_ID l) L) (insert (c_ID r) (U \<union> V)) ts)
           (\<lambda>ps. Inr (pair_proposal rule (c_ID l) (c_ID r) s # ps)))"
proof (induction rs)
  case Nil
  then show ?case by simp
next
  case (Cons r rs)
  show ?case
  proof (cases "evalByType E rule l r")
    case (Inl e)
    with Cons show ?thesis by simp
  next
    case (Inr p)
    with Cons show ?thesis by (cases p) (simp add: greedy_skip_left not_less not_le)
  qed
qed

lemma greedy_left:
  assumes "LL = set (left_ids acc)" "LR = set (right_ids acc)"
  shows "rbind (findAll1v1_left E rule right UL UR LL LR acc left)
       (\<lambda>ps. rbind (greedy E (UL \<union> set (left_ids ps)) (UR \<union> set (right_ids ps)) ts) (\<lambda>qs. Inr (ps @ qs)))
     = rbind (greedy E (UL \<union> LL) (UR \<union> LR) (triples [rule] left right @ ts)) (\<lambda>qs. Inr (acc @ qs))"
  using assms
proof (induction left arbitrary: LL LR acc)
  case Nil
  then show ?case by (simp add: triples_def)
next
  case (Cons l left)
  have t: "triples [rule] (l # left) right = map (\<lambda>r. (rule, l, r)) right @ triples [rule] left right"
    by (simp add: triples_def)
  show ?case
  proof (cases "c_ID l \<in> UL \<union> LL")
    case True
    then have "findAll1v1_left E rule right UL UR LL LR acc (l # left)
        = findAll1v1_left E rule right UL UR LL LR acc left" by auto
    then show ?thesis using Cons.IH [OF Cons.prems] True by (simp only: t append_assoc greedy_skip_left)
  next
    case False
    show ?thesis
    proof (cases "findAll1v1_right E rule l UR LR right")
      case (Inl e)
      then show ?thesis using False by (simp add: t greedy_right)
    next
      case (Inr found)
      show ?thesis
      proof (cases found)
        case None
        have loop: "findAll1v1_left E rule right UL UR LL LR acc (l # left)
            = findAll1v1_left E rule right UL UR LL LR acc left"
          using Inr False None by simp
        have scan: "greedy E (UL \<union> LL) (UR \<union> LR) (triples [rule] (l # left) right @ ts)
            = greedy E (UL \<union> LL) (UR \<union> LR) (triples [rule] left right @ ts)"
          using Inr False None by (simp add: t greedy_right)
        show ?thesis unfolding loop scan by (rule Cons.IH [OF Cons.prems])
      next
        case (Some q)
        obtain r s where q: "q = (r, s)" by (cases q)
        have acc: "insert (c_ID l) LL = set (left_ids (acc @ [pair_proposal rule (c_ID l) (c_ID r) s]))"
          "insert (c_ID r) LR = set (right_ids (acc @ [pair_proposal rule (c_ID l) (c_ID r) s]))"
          using Cons.prems by simp_all
        have loop: "findAll1v1_left E rule right UL UR LL LR acc (l # left)
            = findAll1v1_left E rule right UL UR (insert (c_ID l) LL) (insert (c_ID r) LR)
                (acc @ [pair_proposal rule (c_ID l) (c_ID r) s]) left"
          using Inr False Some q by simp
        have scan: "greedy E (UL \<union> LL) (UR \<union> LR) (triples [rule] (l # left) right @ ts)
            = rbind (greedy E (UL \<union> insert (c_ID l) LL) (UR \<union> insert (c_ID r) LR) (triples [rule] left right @ ts))
                (\<lambda>ps. Inr (pair_proposal rule (c_ID l) (c_ID r) s # ps))"
          using Inr False Some q by (simp add: t greedy_right)
        show ?thesis
          unfolding loop scan Cons.IH [OF acc] by (simp add: rbind_assoc)
      qed
    qed
  qed
qed

lemma greedy_rules:
  "execute1v1_rules E left right L R out rules =
     rbind (greedy E L R (triples rules left right)) (\<lambda>qs. Inr (out @ qs))"
proof (induction rules arbitrary: L R out)
  case Nil
  then show ?case by (simp add: triples_def)
next
  case (Cons rule rules)
  have t: "triples (rule # rules) left right = triples [rule] left right @ triples rules left right"
    by (simp add: triples_def)
  have gl: "greedy E L R (triples [rule] left right @ triples rules left right) =
      rbind (findAll1v1Matches E rule left right L R) (\<lambda>ps.
        rbind (greedy E (L \<union> set (left_ids ps)) (R \<union> set (right_ids ps)) (triples rules left right))
          (\<lambda>qs. Inr (ps @ qs)))"
    unfolding findAll1v1Matches_def
    by (subst greedy_left) (simp_all add: rbind_Inr_right)
  show ?case by (simp add: t gl Cons.IH rbind_assoc)
qed

lemma Execute1v1_ok:
  "Execute1v1 E engine rules left right = Inr ps \<longleftrightarrow>
     (\<exists>e. engine = Some e \<and> \<not> too_large e rules left right) \<and>
     greedy E {} {} (triples (SortRules E rules) (SortTransactions E left) (SortTransactions E right)) = Inr ps"
  by (auto simp: Execute1v1_def greedy_rules split: option.splits)

text \<open>What the scan selects: every proposal pairs two candidates that the rule accepts, no ID is
  used twice on its side, and no accepted triple is left with both candidates free.\<close>

lemma greedy_Cons:
  assumes "greedy E L R ((rule, l, r) # ts) = Inr ps"
  obtains (skip) "greedy E L R ts = Inr ps" "c_ID l \<in> L \<or> c_ID r \<in> R \<or> (\<forall>s. \<not> accepts E rule l r s)"
  | (take) s qs where "c_ID l \<notin> L" "c_ID r \<notin> R" "accepts E rule l r s"
      "ps = pair_proposal rule (c_ID l) (c_ID r) s # qs"
      "greedy E (insert (c_ID l) L) (insert (c_ID r) R) ts = Inr qs"
proof (cases "c_ID l \<in> L \<or> c_ID r \<in> R")
  case True
  then have "greedy E L R ts = Inr ps" using assms by auto
  with True show thesis by (intro skip) auto
next
  case False
  with assms obtain matched s where ev: "evalByType E rule l r = Inr (matched, s)" by auto
  show thesis
  proof (cases "matched \<and> minMatchScore \<le> s")
    case True
    with False ev assms obtain qs where "ps = pair_proposal rule (c_ID l) (c_ID r) s # qs"
        "greedy E (insert (c_ID l) L) (insert (c_ID r) R) ts = Inr qs"
      by auto
    then show thesis using False True ev by (intro take [of s qs]) (simp_all add: accepts_def)
  next
    case nomatch: False
    then have "greedy E L R ts = Inr ps" using False ev assms by (auto split: if_splits)
    moreover have "\<not> accepts E rule l r s'" for s' using ev nomatch by (auto simp: accepts_def)
    ultimately show thesis by (intro skip) auto
  qed
qed

lemma greedy_disjoint:
  "greedy E L R ts = Inr ps \<Longrightarrow> distinct (left_ids ps) \<and> set (left_ids ps) \<inter> L = {} \<and>
     distinct (right_ids ps) \<and> set (right_ids ps) \<inter> R = {}"
proof (induction ts arbitrary: L R ps)
  case Nil
  then show ?case by simp
next
  case (Cons t ts)
  obtain rule l r where t: "t = (rule, l, r)" by (cases t)
  from Cons.prems [unfolded t] show ?case
  proof (cases rule: greedy_Cons)
    case skip
    from Cons.IH [OF skip(1)] show ?thesis .
  next
    case (take s qs)
    from Cons.IH [OF take(5)] take(1,2) show ?thesis by (simp add: take(4))
  qed
qed

lemma greedy_proposals:
  "greedy E L R ts = Inr ps \<Longrightarrow> p \<in> set ps \<Longrightarrow> \<exists>rule l r. (rule, l, r) \<in> set ts \<and>
     accepts E rule l r (mp_Score p) \<and> p = pair_proposal rule (c_ID l) (c_ID r) (mp_Score p)"
proof (induction ts arbitrary: L R ps)
  case Nil
  then show ?case by simp
next
  case (Cons t ts)
  obtain rule l r where t: "t = (rule, l, r)" by (cases t)
  from Cons.prems(1) [unfolded t] show ?case
  proof (cases rule: greedy_Cons)
    case skip
    from Cons.IH [OF skip(1) Cons.prems(2)] show ?thesis by auto
  next
    case (take s qs)
    show ?thesis
    proof (cases "p \<in> set qs")
      case True
      from Cons.IH [OF take(5) True] show ?thesis by auto
    next
      case False
      then have "p = pair_proposal rule (c_ID l) (c_ID r) s" using Cons.prems(2) take(4) by simp
      then show ?thesis using take(3) by (intro exI [of _ rule] exI [of _ l] exI [of _ r]) (simp add: t)
    qed
  qed
qed

lemma greedy_maximal:
  "greedy E L R ts = Inr ps \<Longrightarrow> (rule, l, r) \<in> set ts \<Longrightarrow> accepts E rule l r s \<Longrightarrow>
     c_ID l \<in> L \<union> set (left_ids ps) \<or> c_ID r \<in> R \<union> set (right_ids ps)"
proof (induction ts arbitrary: L R ps)
  case Nil
  then show ?case by simp
next
  case (Cons t ts)
  obtain rule' l' r' where t: "t = (rule', l', r')" by (cases t)
  from Cons.prems(1) [unfolded t] show ?case
  proof (cases rule: greedy_Cons)
    case skip
    then show ?thesis using Cons.IH [OF skip(1)] Cons.prems(2,3) by (auto simp: t)
  next
    case (take s qs)
    show ?thesis
    proof (cases "(rule, l, r) \<in> set ts")
      case True
      from Cons.IH [OF take(5) True Cons.prems(3)] show ?thesis by (auto simp: take(4))
    next
      case False
      then show ?thesis using Cons.prems(2) by (simp add: t take(4))
    qed
  qed
qed

lemma set_triples: "(rule, l, r) \<in> set (triples rules left right) \<longleftrightarrow>
    rule \<in> set rules \<and> l \<in> set left \<and> r \<in> set right"
  by (auto simp: triples_def)

section \<open>One to many: groups\<close>

text \<open>The side of the primary candidates and the other side of a proposal; a rule is aligned with
  a direction of the engine when its allocation, if it has one, is meant for that direction.\<close>

definition primary_ids :: "bool \<Rightarrow> 'd MatchProposal \<Rightarrow> uuid list" where
  "primary_ids primaryIsLeft p = (if primaryIsLeft then mp_LeftIDs p else mp_RightIDs p)"

definition secondary_ids :: "bool \<Rightarrow> 'd MatchProposal \<Rightarrow> uuid list" where
  "secondary_ids primaryIsLeft p = (if primaryIsLeft then mp_RightIDs p else mp_LeftIDs p)"

definition aligned :: "bool \<Rightarrow> 'd RuleDefinition \<Rightarrow> bool" where
  "aligned primaryIsLeft rule =
     (case r_Allocation rule of
        None \<Rightarrow> True
      | Some cfg \<Rightarrow> (al_Direction cfg = AllocationDirectionRightToLeft) = (\<not> primaryIsLeft))"

definition accepts_dir :: "'d::linordered_idom ext \<Rightarrow> bool \<Rightarrow> 'd RuleDefinition \<Rightarrow>
    'd CandidateTransaction \<Rightarrow> 'd CandidateTransaction \<Rightarrow> int \<Rightarrow> bool" where
  "accepts_dir E primaryIsLeft rule prim c =
     (if primaryIsLeft then accepts E rule prim c else accepts E rule c prim)"

text \<open>A proposal of a rule: one primary candidate, at least one secondary candidate, every one of
  them accepted with the primary at a score that the score of the group dominates.\<close>

definition group_ok :: "'d::linordered_idom ext \<Rightarrow> bool \<Rightarrow> 'd RuleDefinition \<Rightarrow>
    'd CandidateTransaction \<Rightarrow> 'd CandidateTransaction list \<Rightarrow> 'd MatchProposal \<Rightarrow> bool" where
  "group_ok E primaryIsLeft rule prim secondary p =
     (mp_RuleID p = r_ID rule \<and> primary_ids primaryIsLeft p = [c_ID prim] \<and>
      secondary_ids primaryIsLeft p \<noteq> [] \<and> minMatchScore \<le> mp_Score p \<and>
      (\<forall>i \<in> set (secondary_ids primaryIsLeft p). \<exists>c \<in> set secondary. c_ID c = i \<and>
         (\<exists>s \<le> mp_Score p. accepts_dir E primaryIsLeft rule prim c s)))"

definition context_ok :: "'d::linordered_idom ext \<Rightarrow> bool \<Rightarrow> 'd RuleDefinition set \<Rightarrow>
    'd CandidateTransaction set \<Rightarrow> 'd CandidateTransaction list \<Rightarrow> 'd matchContext \<Rightarrow> bool" where
  "context_ok E b rules primary secondary mctx =
     (mc_primaryIsLeft mctx = b \<and>
      distinct (concat (map (primary_ids b) (mc_proposals mctx))) \<and>
      set (concat (map (primary_ids b) (mc_proposals mctx))) = mc_usedPrimary mctx \<and>
      distinct (concat (map (secondary_ids b) (mc_proposals mctx))) \<and>
      set (concat (map (secondary_ids b) (mc_proposals mctx))) = mc_usedSecondary mctx \<and>
      (\<forall>p \<in> set (mc_proposals mctx). \<exists>rule \<in> rules. \<exists>prim \<in> primary. group_ok E b rule prim secondary p))"

lemma collectMatches_loop_ok:
  "collectMatches_loop E rule prim used b mcs mids ms cands = Inr (cs, ids, sc) \<Longrightarrow>
     \<exists>new. cs = mcs @ new \<and> ids = mids @ map c_ID new \<and> subseq new cands \<and> ms \<le> sc \<and>
       (\<forall>c \<in> set new. c_ID c \<notin> used \<and> (\<exists>s \<le> sc. accepts_dir E b rule prim c s))"
proof (induction cands arbitrary: mcs mids ms)
  case Nil
  then show ?case by simp
next
  case (Cons c cands)
  show ?case
  proof (cases "c_ID c \<in> used")
    case True
    with Cons show ?thesis by (force intro: list_emb_Cons)
  next
    case False
    with Cons.prems obtain m s where ev: "(if b then evalByType E rule prim c else evalByType E rule c prim) = Inr (m, s)"
      by auto
    show ?thesis
    proof (cases "m \<and> minMatchScore \<le> s")
      case True
      let ?ms = "if s > ms then s else ms"
      from True False ev Cons.prems
      have "collectMatches_loop E rule prim used b (mcs @ [c]) (mids @ [c_ID c]) ?ms cands = Inr (cs, ids, sc)"
        by (simp split: if_splits)
      from Cons.IH [OF this] obtain new where new: "cs = mcs @ c # new" "ids = mids @ c_ID c # map c_ID new"
          "subseq new cands" "?ms \<le> sc"
          "\<forall>c \<in> set new. c_ID c \<notin> used \<and> (\<exists>s \<le> sc. accepts_dir E b rule prim c s)"
        by auto
      have "s \<le> sc" "ms \<le> sc" using new(4) by (auto split: if_splits)
      moreover have "accepts_dir E b rule prim c s"
        using ev True by (auto simp: accepts_dir_def accepts_def split: if_splits)
      ultimately show ?thesis
        using new False by (intro exI [of _ "c # new"]) auto
    next
      case nomatch: False
      with False ev Cons.prems have "collectMatches_loop E rule prim used b mcs mids ms cands = Inr (cs, ids, sc)"
        by (auto split: if_splits)
      from Cons.IH [OF this] show ?thesis by (force intro: list_emb_Cons)
    qed
  qed
qed

lemma findMatches_ok:
  assumes "findMatches E rule prim secondary mctx = Inr (cs, ids, sc)"
  shows "ids = map c_ID cs" "subseq cs secondary"
    "\<forall>c \<in> set cs. c_ID c \<notin> mc_usedSecondary mctx \<and> (\<exists>s \<le> sc. accepts_dir E (mc_primaryIsLeft mctx) rule prim c s)"
proof -
  from assms have "collectMatches_loop E rule prim (mc_usedSecondary mctx) (mc_primaryIsLeft mctx) [] [] 0 secondary
      = Inr (cs, ids, sc)"
    by (auto simp: findMatches_def findMatchesForLeft_def findMatchesForRight_def collectMatches_def
        split: if_splits)
  from collectMatches_loop_ok [OF this] show "ids = map c_ID cs" "subseq cs secondary"
    "\<forall>c \<in> set cs. c_ID c \<notin> mc_usedSecondary mctx \<and> (\<exists>s \<le> sc. accepts_dir E (mc_primaryIsLeft mctx) rule prim c s)"
    by auto
qed

lemma allocations_of_candidates:
  assumes "AllocateOneToManyDetailed E target cs (Some cfg) = Inr res" "ar_Complete res"
  shows "ar_Allocations res \<noteq> []" "set (map a_TransactionID (ar_Allocations res)) \<subseteq> c_ID ` set cs"
    "distinct (map c_ID cs) \<Longrightarrow> distinct (map a_TransactionID (ar_Allocations res))"
proof -
  note ok = AllocateOneToMany_ok [OF assms(1)]
  from ok(2) assms(2) obtain source cur where s: "0 < source"
      and a: "allocateCandidates (SortTransactions E cs) source cfg cur
          = Inr (ar_Allocations res, ar_Total res, ar_Complete res)" by auto
  note r = allocateCandidates_ok [OF a ok(1) s]
  show "ar_Allocations res \<noteq> []" using r(3) assms(2) by simp
  show "set (map a_TransactionID (ar_Allocations res)) \<subseteq> c_ID ` set cs"
  proof
    fix i assume "i \<in> set (map a_TransactionID (ar_Allocations res))"
    then obtain a where "a \<in> set (ar_Allocations res)" "i = a_TransactionID a" by auto
    with r(5) obtain c where "c \<in> set cs" "c_ID c = i" unfolding drawn_from_def by auto
    then show "i \<in> c_ID ` set cs" by auto
  qed
  show "distinct (map c_ID cs) \<Longrightarrow> distinct (map a_TransactionID (ar_Allocations res))"
    using r(4) by (metis SortTransactions_set(4) subseq_distinct)
qed

lemma buildAllocationProposal_ok:
  assumes "buildAllocationProposalDetailed E rule base cs sc = Inr res" "ap_Proposal res = Some p"
    and "aligned b rule"
  shows "primary_ids b p = [c_ID base]" "secondary_ids b p \<noteq> []"
    "set (secondary_ids b p) \<subseteq> c_ID ` set cs" "distinct (map c_ID cs) \<Longrightarrow> distinct (secondary_ids b p)"
    "mp_Score p = sc" "mp_RuleID p = r_ID rule"
proof -
  from assms(1,2) obtain cfg ares where cfg: "r_Allocation rule = Some cfg"
      and "allocateByRuleDetailed E cfg base cs = Inr ares" and comp: "ar_Complete ares"
      and p: "p = buildAllocationMatchProposal cfg rule base (ar_Allocations ares) (ar_Total ares) sc"
    by (auto simp: buildAllocationProposalDetailed_def Let_def split: option.splits if_splits)
  then have "AllocateOneToManyDetailed E base cs (Some cfg) = Inr ares"
    by (auto simp: allocateByRuleDetailed_def split: AllocationDirection.splits)
  note a = allocations_of_candidates [OF this comp]
  show "primary_ids b p = [c_ID base]" "secondary_ids b p \<noteq> []"
    "set (secondary_ids b p) \<subseteq> c_ID ` set cs" "distinct (map c_ID cs) \<Longrightarrow> distinct (secondary_ids b p)"
    "mp_Score p = sc" "mp_RuleID p = r_ID rule"
    using a assms(3) cfg
    by (auto simp: p aligned_def primary_ids_def secondary_ids_def buildAllocationMatchProposal_def Let_def)
qed

lemma set_fold_insert [simp]: "fold insert xs A = set xs \<union> A"
  by (induction xs arbitrary: A) auto

lemma group_of_matches:
  assumes "findMatches E rule prim secondary mctx = Inr (cs, ids, sc)"
    and "primary_ids (mc_primaryIsLeft mctx) p = [c_ID prim]" "secondary_ids (mc_primaryIsLeft mctx) p \<noteq> []"
    and ids: "set (secondary_ids (mc_primaryIsLeft mctx) p) \<subseteq> c_ID ` set cs"
    and "mp_Score p = sc" "mp_RuleID p = r_ID rule"
  shows "group_ok E (mc_primaryIsLeft mctx) rule prim secondary p"
    "set (secondary_ids (mc_primaryIsLeft mctx) p) \<inter> mc_usedSecondary mctx = {}"
proof -
  note m = findMatches_ok [OF assms(1)]
  have sub: "set cs \<subseteq> set secondary" using m(2) by (auto simp: subseq_conv_nths dest: in_set_nthsD)
  have each: "\<exists>c \<in> set cs. c_ID c = i \<and> (\<exists>s \<le> sc. accepts_dir E (mc_primaryIsLeft mctx) rule prim c s)"
    if "i \<in> set (secondary_ids (mc_primaryIsLeft mctx) p)" for i
    using that ids m(3) by auto
  from assms(3) obtain i where "i \<in> set (secondary_ids (mc_primaryIsLeft mctx) p)"
    using list.set_sel(1) by blast
  from each [OF this] have "minMatchScore \<le> sc"
    by (auto simp: accepts_dir_def accepts_def split: if_splits)
  with assms(2,3,5,6) each sub show "group_ok E (mc_primaryIsLeft mctx) rule prim secondary p"
    unfolding group_ok_def by blast
  show "set (secondary_ids (mc_primaryIsLeft mctx) p) \<inter> mc_usedSecondary mctx = {}"
    using ids m(3) by auto
qed

lemma used_maps_sel [simp]:
  "set_used_maps (fst (resolveUsedMaps mctx)) (snd (resolveUsedMaps mctx)) mctx = mctx"
  by (simp add: set_used_maps_def resolveUsedMaps_def)

text \<open>One call of \<^verbatim>\<open>tryMatchCandidate\<close> either adds no proposal or adds one well-formed group over
  free candidates and marks them.\<close>

lemma tryMatchCandidate_cases:
  assumes "tryMatchCandidate E rule prim secondary mctx = Inr mctx'" "aligned (mc_primaryIsLeft mctx) rule"
    and "distinct (map c_ID secondary)"
  obtains (keep) "mc_proposals mctx' = mc_proposals mctx" "mc_usedPrimary mctx' = mc_usedPrimary mctx"
      "mc_usedSecondary mctx' = mc_usedSecondary mctx" "mc_primaryIsLeft mctx' = mc_primaryIsLeft mctx"
  | (add) p where "mc_proposals mctx' = mc_proposals mctx @ [p]"
      "mc_usedPrimary mctx' = insert (c_ID prim) (mc_usedPrimary mctx)"
      "mc_usedSecondary mctx' = set (secondary_ids (mc_primaryIsLeft mctx) p) \<union> mc_usedSecondary mctx"
      "mc_primaryIsLeft mctx' = mc_primaryIsLeft mctx"
      "group_ok E (mc_primaryIsLeft mctx) rule prim secondary p"
      "distinct (secondary_ids (mc_primaryIsLeft mctx) p)"
      "set (secondary_ids (mc_primaryIsLeft mctx) p) \<inter> mc_usedSecondary mctx = {}"
proof -
  let ?b = "mc_primaryIsLeft mctx"
  from assms(1) obtain cs ids sc where f: "findMatches E rule prim secondary mctx = Inr (cs, ids, sc)"
    unfolding tryMatchCandidate_def by auto
  note m = findMatches_ok [OF f]
  have d: "distinct (map c_ID cs)"
    using subseq_map [OF m(2)] assms(3) by (blast intro: subseq_distinct)
  consider (nothing) "ids = []" | (direct) "ids \<noteq> []" "r_Allocation rule = None"
    | (allocation) cfg where "ids \<noteq> []" "r_Allocation rule = Some cfg" by blast
  then show thesis
  proof cases
    case nothing
    then show thesis using assms(1) f by (intro keep) (simp_all add: tryMatchCandidate_def)
  next
    case direct
    let ?p = "\<lparr> mp_RuleID = r_ID rule, mp_LeftIDs = if ?b then [c_ID prim] else ids,
        mp_RightIDs = if ?b then ids else [c_ID prim], mp_LeftAllocations = [], mp_RightAllocations = [],
        mp_Score = sc, mp_Mode = mc_mode mctx \<rparr>"
    have mctx': "mctx' = addDirectProposal rule (c_ID prim) ids sc mctx"
      using assms(1) f direct
      by (simp add: tryMatchCandidate_def applyAllocationProposalDetailed_def set_used_maps_def
          resolveUsedMaps_def split: if_splits)
    note g = group_of_matches [OF f, of ?p]
    show thesis
      using direct m(1) d g
      by (intro add [of ?p]) (auto simp: mctx' addDirectProposal_def resolveProposalIDs_def markUsed_def
          primary_ids_def secondary_ids_def)
  next
    case (allocation cfg)
    with assms(1) f obtain res where b: "buildAllocationProposalDetailed E rule prim cs sc = Inr res"
      unfolding tryMatchCandidate_def applyAllocationProposalDetailed_def
      by (auto split: prod.splits)
    show thesis
    proof (cases "ap_Failure res = None \<and> ap_Proposal res \<noteq> None")
      case True
      then obtain p where p: "ap_Failure res = None" "ap_Proposal res = Some p" by auto
      note a = buildAllocationProposal_ok [OF b p(2) assms(2)]
      note g = group_of_matches [OF f a(1,2,3,5,6)]
      have mctx': "mctx' = set_used_maps (set (mp_LeftIDs p) \<union> fst (resolveUsedMaps mctx))
          (set (mp_RightIDs p) \<union> snd (resolveUsedMaps mctx)) (mctx\<lparr> mc_proposals := mc_proposals mctx @ [p] \<rparr>)"
        using assms(1) f allocation b p
        by (simp add: tryMatchCandidate_def applyAllocationProposalDetailed_def split: prod.splits)
      show thesis
        using a g d
        by (intro add [of p])
          (auto simp: mctx' set_used_maps_def resolveUsedMaps_def primary_ids_def secondary_ids_def split: if_splits)
    next
      case False
      then have "mctx' = mctx \<or> (\<exists>f. mctx' = mctx\<lparr> mc_allocFailures := (mc_allocFailures mctx)(af_TargetID f \<mapsto> f) \<rparr>)"
        using assms(1) f allocation b
        by (auto simp: tryMatchCandidate_def applyAllocationProposalDetailed_def set_used_maps_def
            resolveUsedMaps_def split: prod.splits option.splits if_splits)
      then show thesis by (intro keep) auto
    qed
  qed
qed

lemma tryMatchCandidate_inv:
  assumes "tryMatchCandidate E rule prim secondary mctx = Inr mctx'" "context_ok E b rules primary secondary mctx"
    and "aligned b rule" "distinct (map c_ID secondary)" "rule \<in> rules" "prim \<in> primary"
    and "c_ID prim \<notin> mc_usedPrimary mctx"
  shows "context_ok E b rules primary secondary mctx'"
proof -
  have b: "mc_primaryIsLeft mctx = b" using assms(2) by (simp add: context_ok_def)
  from assms(1) assms(3) [folded b] assms(4) show ?thesis
  proof (cases rule: tryMatchCandidate_cases)
    case keep
    then show ?thesis using assms(2) by (simp add: context_ok_def)
  next
    case (add p)
    note add = add [unfolded b]
    have "primary_ids b p = [c_ID prim]" using add(5) by (simp add: group_ok_def)
    with add assms(2,5-7) show ?thesis unfolding context_ok_def by auto
  qed
qed

lemma processRuleMatches_inv:
  "processRuleMatches E rule ps secondary mctx = Inr mctx' \<Longrightarrow> context_ok E b rules primary secondary mctx \<Longrightarrow>
   aligned b rule \<Longrightarrow> distinct (map c_ID secondary) \<Longrightarrow> rule \<in> rules \<Longrightarrow> set ps \<subseteq> primary \<Longrightarrow>
   context_ok E b rules primary secondary mctx'"
proof (induction ps arbitrary: mctx)
  case Nil
  then show ?case by simp
next
  case (Cons p ps)
  then show ?case
    using tryMatchCandidate_inv [of E rule p secondary mctx _ b rules primary]
    by (auto split: if_splits)
qed

lemma process_rules_inv:
  "process_rules E ps secondary rs mctx = Inr mctx' \<Longrightarrow> context_ok E b (set rules) (set ps) secondary mctx \<Longrightarrow>
   \<forall>rule \<in> set rs. aligned b rule \<Longrightarrow> distinct (map c_ID secondary) \<Longrightarrow> set rs \<subseteq> set rules \<Longrightarrow>
   context_ok E b (set rules) (set ps) secondary mctx'"
proof (induction rs arbitrary: mctx)
  case Nil
  then show ?case by simp
next
  case (Cons r rs)
  then show ?case
    using processRuleMatches_inv [of E r ps secondary mctx _ b "set rules" "set ps"] by auto
qed

lemma matchWithDirection_ok:
  assumes "matchWithDirectionDetailed E rules primary secondary mode b = Inr res"
    and "\<forall>rule \<in> set rules. aligned b rule" "distinct (map c_ID secondary)"
  obtains mctx where "context_ok E b (set rules) (set primary) secondary mctx"
    "er_Proposals res = mc_proposals mctx"
proof -
  from assms(1) obtain mctx where p: "process_rules E primary secondary rules (new_context mode b) = Inr mctx"
    and r: "er_Proposals res = mc_proposals mctx"
    unfolding matchWithDirectionDetailed_def by auto
  have "context_ok E b (set rules) (set primary) secondary (new_context mode b)"
    by (simp add: context_ok_def new_context_def)
  from process_rules_inv [OF p this assms(2,3)] r that show thesis by blast
qed

section \<open>Properties\<close>

lemma side_ids:
  "primary_ids True = mp_LeftIDs" "secondary_ids True = mp_RightIDs"
  "primary_ids False = mp_RightIDs" "secondary_ids False = mp_LeftIDs"
  by (auto simp: primary_ids_def secondary_ids_def)

definition example_rule :: "rat RuleDefinition" where
  "example_rule = \<lparr>
     r_ID = 7, r_Priority = 1, r_Type = RuleTypeExact, r_Exact = Some example_exact,
     r_Tolerance = None, r_DateLag = None, r_Allocation = None \<rparr>"

lemma example_accepts:
  "evalByType rat_ext (example_rule\<lparr> r_Allocation := al \<rparr>) (example_tx i a u 0) (example_tx j b v 0)
   = Inr (a = b, if a = b then 100 else 0)"
proof -
  have m: "ExactMatch rat_ext (example_tx i a u 0) (example_tx j b v 0) (Some example_exact) = Inr (a = b)"
    by (simp add: ExactMatch_def example_exact_def example_tx_def matchAmountAndCurrency_def
        matchBaseAmountAndCurrency_def matchDate_def matchReference_def)
  have "ScoreExactConfidence (Some example_exact) (example_tx i a u 0) (example_tx j b v 0) = 100" if "a = b"
    using exact_score [of rat_ext "example_tx i a u 0" "example_tx j b v 0" example_exact] m that
    by (simp add: evaluateExactCurrencyMatch_def evaluateExactReferenceScore_def example_exact_def example_tx_def)
  then show ?thesis by (simp add: evalByType_def example_rule_def m)
qed

lemma example_rule_accepts:
  "evalByType rat_ext example_rule (example_tx i a u 0) (example_tx j b v 0) = Inr (a = b, if a = b then 100 else 0)"
  using example_accepts [of None i a u j b v] by (simp add: example_rule_def)

lemma sort_examples:
  "SortTransactions rat_ext [t] = [t]" "SortRules rat_ext [rule] = [rule]" "c_ID (example_tx i a u 0) = i"
  "a < b \<Longrightarrow> SortTransactions rat_ext [example_tx i b u 0, example_tx j a v 0] = [example_tx j a v 0, example_tx i b u 0]"
  "a < b \<Longrightarrow> SortTransactions rat_ext [example_tx j a v 0, example_tx i b u 0] = [example_tx j a v 0, example_tx i b u 0]"
  "SortTransactions rat_ext [example_tx i a ''a'' 0, example_tx j a ''b'' 0] = [example_tx i a ''a'' 0, example_tx j a ''b'' 0]"
  by (simp_all add: SortTransactions_def SortRules_def example_tx_def tx_lt_def then_lt_def base_lt_def)

text \<open>
  C3: The nested loops of the 1:1 engine, with their maps of used IDs and their early exits,
  compute one greedy scan over all triples of a rule, a left and a right candidate in the
  deterministic order: a triple is taken exactly when it matches with at least the minimum
  score and both candidates are still free. Errors of the evaluators appear at the same triple;
  a nil engine and an oversized input are refused first.
\<close>

theorem Execute1v1_greedy:
  "Execute1v1 E engine rules left right =
     (case engine of
        None \<Rightarrow> Inl ErrEngineIsNil
      | Some e \<Rightarrow>
          if too_large e rules left right then Inl ErrCandidateSetTooLarge
          else greedy_scan E (triples (SortRules E rules) (SortTransactions E left) (SortTransactions E right)) {} {})"
  by (simp add: Execute1v1_def greedy_rules rbind_Inr_right split: option.split)

text \<open>
  C11: The result of a 1:1 run is a maximal matching: no left and no right transaction is in two
  proposals, every proposal pairs a left and a right candidate that its rule accepts with a
  score of at least 60, and no rule accepts a pair of candidates that were both left over.
\<close>

theorem Execute1v1_sound:
  assumes "Execute1v1 E engine rules left right = Inr ps"
  shows "distinct (left_ids ps) \<and> distinct (right_ids ps) \<and>
    (\<forall>p \<in> set ps. \<exists>rule \<in> set rules. \<exists>l \<in> set left. \<exists>r \<in> set right.
       evalByType E rule l r = Inr (True, mp_Score p) \<and> 60 \<le> mp_Score p \<and>
       p = pair_proposal rule (c_ID l) (c_ID r) (mp_Score p)) \<and>
    (\<forall>rule \<in> set rules. \<forall>l \<in> set left. \<forall>r \<in> set right. \<forall>score.
       c_ID l \<notin> set (left_ids ps) \<longrightarrow> c_ID r \<notin> set (right_ids ps) \<longrightarrow>
       evalByType E rule l r = Inr (True, score) \<longrightarrow> score < 60)"
proof -
  note g = assms [unfolded Execute1v1_ok, THEN conjunct2]
  have "\<exists>rule \<in> set rules. \<exists>l \<in> set left. \<exists>r \<in> set right.
      evalByType E rule l r = Inr (True, mp_Score p) \<and> 60 \<le> mp_Score p \<and>
      p = pair_proposal rule (c_ID l) (c_ID r) (mp_Score p)" if "p \<in> set ps" for p
    using greedy_proposals [OF g that] by (auto simp: set_triples accepts_def minMatchScore_def)
  moreover have "score < 60" if "rule \<in> set rules" "l \<in> set left" "r \<in> set right"
      "c_ID l \<notin> set (left_ids ps)" "c_ID r \<notin> set (right_ids ps)"
      "evalByType E rule l r = Inr (True, score)" for rule l r score
  proof (rule ccontr)
    assume "\<not> score < 60"
    then have "accepts E rule l r score" using that(6) by (simp add: accepts_def minMatchScore_def)
    from greedy_maximal [OF g _ this] that show False by (simp add: set_triples)
  qed
  ultimately show ?thesis using greedy_disjoint [OF g] by blast
qed

lemma example_run:
  "Execute1v1 rat_ext (Some NewEngine) [example_rule] [example_tx 1 10 '''' 0, example_tx 2 12 '''' 0] [example_tx 3 12 '''' 0, example_tx 4 10 '''' 0]
   = Inr [pair_proposal example_rule 1 4 100, pair_proposal example_rule 2 3 100]"
  by (simp add: Execute1v1_def too_large_def maxAllowed_def NewEngine_def DefaultMaxCandidates_def
      greedy_rules triples_def minMatchScore_def sort_examples example_rule_accepts)

theorem Execute1v1_sound_witness:
  "\<exists>ps. Execute1v1 rat_ext (Some NewEngine) [example_rule] [example_tx 1 10 '''' 0, example_tx 2 12 '''' 0]
      [example_tx 3 12 '''' 0, example_tx 4 10 '''' 0] = Inr ps \<and> length ps = 2 \<and> distinct (left_ids ps) \<and> distinct (right_ids ps)"
  using Execute1v1_sound [OF example_run] example_run by auto

text \<open>
  C21: The engine is deterministic: with distinct IDs, the result of all three modes does not
  depend on the order in which rules and candidates are supplied.
\<close>

theorem Execute_deterministic:
  assumes "externals E" "distinct (map r_ID rules)" "distinct (map c_ID left)" "distinct (map c_ID right)"
    and "mset rules = mset rules'" "mset left = mset left'" "mset right = mset right'"
  shows "Execute1v1 E engine rules left right = Execute1v1 E engine rules' left' right' \<and>
    Execute1vNDetailed E engine rules left right = Execute1vNDetailed E engine rules' left' right' \<and>
    ExecuteNv1Detailed E engine rules left right = ExecuteNv1Detailed E engine rules' left' right'"
proof -
  have "length rules = length rules'" "length left = length left'" "length right = length right'"
    using assms(5-7) by (auto dest: mset_eq_length)
  then have "too_large e rules left right = too_large e rules' left' right'" for e
    by (simp add: too_large_def)
  note eqs = this externals.SortRules_mset [OF assms(1,5,2)] externals.SortTransactions_mset [OF assms(1,6,3)]
    externals.SortTransactions_mset [OF assms(1,7,4)]
  show ?thesis
    unfolding Execute1v1_def Execute1vNDetailed_def ExecuteNv1Detailed_def eqs by simp
qed

theorem Execute_deterministic_witness:
  "Execute1v1 rat_ext (Some NewEngine) [example_rule] [example_tx 2 12 '''' 0, example_tx 1 10 '''' 0] [example_tx 3 12 '''' 0, example_tx 4 10 '''' 0]
   = Inr [pair_proposal example_rule 1 4 100, pair_proposal example_rule 2 3 100]"
  using Execute_deterministic [OF rat_externals, of "[example_rule]" "[example_tx 2 12 '''' 0, example_tx 1 10 '''' 0]"
      "[example_tx 3 12 '''' 0, example_tx 4 10 '''' 0]" "[example_rule]" "[example_tx 1 10 '''' 0, example_tx 2 12 '''' 0]"
      "[example_tx 3 12 '''' 0, example_tx 4 10 '''' 0]" "Some NewEngine"] example_run
  by (simp add: example_tx_def)


lemma example_run_1vN:
  "Execute1vNDetailed rat_ext (Some NewEngine) [example_rule] [example_tx 1 10 ''a'' 0, example_tx 2 10 ''b'' 0] [example_tx 3 10 '''' 0]
   = Inr \<lparr> er_Proposals = [(pair_proposal example_rule 1 3 100)\<lparr> mp_Mode := ''1:N'' \<rparr>], er_AllocFailures = Map.empty \<rparr>"
proof -
  have "r_Allocation example_rule = None" by (simp add: example_rule_def)
  then show ?thesis
    by (simp add: Execute1vNDetailed_def too_large_def maxAllowed_def NewEngine_def DefaultMaxCandidates_def
        matchWithDirectionDetailed_def tryMatchCandidate_def findMatches_def findMatchesForLeft_def
        collectMatches_def new_context_def resolveUsedMaps_def set_used_maps_def addDirectProposal_def
        resolveProposalIDs_def markUsed_def applyAllocationProposalDetailed_def minMatchScore_def
        pair_proposal_def example_rule_accepts sort_examples)
qed


definition reversed_allocation :: "rat AllocationConfig" where
  "reversed_allocation = example_allocation\<lparr> al_Direction := AllocationDirectionRightToLeft \<rparr>"

lemma reversed_proposal:
  "buildAllocationProposalDetailed rat_ext (example_rule\<lparr> r_Allocation := Some reversed_allocation \<rparr>)
     (example_tx i 10 u 0) [example_tx 3 10 '''' 0] 100
   = Inr \<lparr> ap_Proposal = Some \<lparr> mp_RuleID = 7, mp_LeftIDs = [3], mp_RightIDs = [i],
       mp_LeftAllocations = [\<lparr> a_TransactionID = 3, a_AllocatedAmount = 10, a_Currency = ''USD'', a_UseBaseAmount = False \<rparr>],
       mp_RightAllocations = [\<lparr> a_TransactionID = i, a_AllocatedAmount = 10, a_Currency = ''USD'', a_UseBaseAmount = False \<rparr>],
       mp_Score = 100, mp_Mode = ''N:1'' \<rparr>, ap_Failure = None \<rparr>"
  by (simp add: buildAllocationProposalDetailed_def allocateByRuleDetailed_def buildAllocationMatchProposal_def
      AllocateOneToManyDetailed_def validateAllocationConfig_def example_allocation_def reversed_allocation_def
      maxAllocationCandidates_def allocationAmountDetailed_def resolveAllocationCurrency_def
      allocateCandidates_def tryAllocateCandidate_def allocationAmount_def example_tx_def example_rule_def
      withinAllocationTolerance_def buildAllocationResult_def Let_def SortTransactions_def)


end
