(* ===== verification/Triage.thy ===== *)
theory Triage
  imports Externals Go_Sort
begin

text \<open>
  How an exception is triaged: its severity (\<^verbatim>\<open>internal/shared/domain/exception/severity.go\<close>),
  its due date (\<^verbatim>\<open>internal/exception/domain/services/sla.go\<close>), where it is routed
  (\<^verbatim>\<open>internal/exception/domain/services/routing.go\<close>) and the reasons a user gives for overriding
  it (\<^verbatim>\<open>override_reason.go\<close>, \<^verbatim>\<open>adjustment_reason.go\<close>). All three decisions take the first rule of
  an ordered list that matches. An error wraps its sentinel with the index of the rule.
\<close>

section \<open>Severity\<close>

datatype severity_error = ErrInvalidExceptionSeverity | ErrEmptySeverityRules | ErrSeverityRule nat

datatype ExceptionSeverity =
    ExceptionSeverityLow | ExceptionSeverityMedium | ExceptionSeverityHigh | ExceptionSeverityCritical
  | ExceptionSeverityOther string

definition ExceptionSeverity_string :: "ExceptionSeverity \<Rightarrow> string" where
  "ExceptionSeverity_string severity =
     (case severity of
        ExceptionSeverityLow \<Rightarrow> ''LOW'' | ExceptionSeverityMedium \<Rightarrow> ''MEDIUM''
      | ExceptionSeverityHigh \<Rightarrow> ''HIGH'' | ExceptionSeverityCritical \<Rightarrow> ''CRITICAL''
      | ExceptionSeverityOther s \<Rightarrow> s)"

definition ExceptionSeverity_IsValid :: "ExceptionSeverity \<Rightarrow> bool" where
  "ExceptionSeverity_IsValid severity =
     (case severity of ExceptionSeverityOther _ \<Rightarrow> False | _ \<Rightarrow> True)"

definition ExceptionSeverity_of :: "string \<Rightarrow> ExceptionSeverity" where
  "ExceptionSeverity_of s =
     (if s = ''LOW'' then ExceptionSeverityLow else if s = ''MEDIUM'' then ExceptionSeverityMedium
      else if s = ''HIGH'' then ExceptionSeverityHigh else if s = ''CRITICAL'' then ExceptionSeverityCritical
      else ExceptionSeverityOther s)"

definition ParseExceptionSeverity :: "'d ext \<Rightarrow> string \<Rightarrow> severity_error + ExceptionSeverity" where
  "ParseExceptionSeverity E v =
     (let sev = ExceptionSeverity_of (to_upper E (TrimSpace v)) in
      if \<not> ExceptionSeverity_IsValid sev then Inl ErrInvalidExceptionSeverity else Inr sev)"

definition ReasonFXRateUnavailable :: string where
  "ReasonFXRateUnavailable = ''FX_RATE_UNAVAILABLE''"

record 'd SeverityClassificationInput =
  sc_AmountAbsBase :: 'd
  sc_AgeHours :: int
  sc_SourceType :: string
  sc_FXMissing :: bool

record 'd SeverityRule =
  sv_Severity :: ExceptionSeverity
  sv_MinAmountAbsBase :: "'d option"
  sv_MinAgeHours :: "int option"
  sv_RegulatorySourceTypes :: "string list"

record SeverityClassificationResult =
  sr_Severity :: ExceptionSeverity
  sr_Reasons :: "string list"

definition DefaultSeverityRules :: "string list \<Rightarrow> 'd::linordered_idom SeverityRule list" where
  "DefaultSeverityRules regulatorySourceTypes =
     [\<lparr> sv_Severity = ExceptionSeverityCritical, sv_MinAmountAbsBase = Some 100000,
        sv_MinAgeHours = Some 120, sv_RegulatorySourceTypes = regulatorySourceTypes \<rparr>,
      \<lparr> sv_Severity = ExceptionSeverityHigh, sv_MinAmountAbsBase = Some 10000,
        sv_MinAgeHours = Some 72, sv_RegulatorySourceTypes = [] \<rparr>,
      \<lparr> sv_Severity = ExceptionSeverityMedium, sv_MinAmountAbsBase = Some 1000,
        sv_MinAgeHours = Some 24, sv_RegulatorySourceTypes = [] \<rparr>,
      \<lparr> sv_Severity = ExceptionSeverityLow, sv_MinAmountAbsBase = None,
        sv_MinAgeHours = None, sv_RegulatorySourceTypes = [] \<rparr>]"

definition normalizeSeverityInput :: "'d::linordered_idom SeverityClassificationInput \<Rightarrow>
    'd SeverityClassificationInput" where
  "normalizeSeverityInput input = input\<lparr>
     sc_AmountAbsBase := \<bar>sc_AmountAbsBase input\<bar>,
     sc_AgeHours := (if sc_AgeHours input < 0 then 0 else sc_AgeHours input),
     sc_SourceType := TrimSpace (sc_SourceType input) \<rparr>"

definition isSourceTypeAllowed :: "'d ext \<Rightarrow> string \<Rightarrow> string list \<Rightarrow> bool" where
  "isSourceTypeAllowed E sourceType allowed =
     (sourceType \<noteq> '''' \<and> list_ex (\<lambda>candidate. equal_fold E sourceType (TrimSpace candidate)) allowed)"

definition matchesSeverityRule :: "'d::linordered_idom ext \<Rightarrow> 'd SeverityClassificationInput \<Rightarrow>
    'd SeverityRule \<Rightarrow> bool" where
  "matchesSeverityRule E input rule =
     (if sv_MinAmountAbsBase rule = None \<and> sv_MinAgeHours rule = None \<and> sv_RegulatorySourceTypes rule = []
      then True
      else
        let amountMatch = (case sv_MinAmountAbsBase rule of None \<Rightarrow> False
                           | Some m \<Rightarrow> \<not> sc_AmountAbsBase input < m);
            ageMatch = (case sv_MinAgeHours rule of None \<Rightarrow> False | Some m \<Rightarrow> sc_AgeHours input \<ge> m);
            sourceMatch = (sv_RegulatorySourceTypes rule \<noteq> [] \<and>
                           isSourceTypeAllowed E (sc_SourceType input) (sv_RegulatorySourceTypes rule)) in
        amountMatch \<or> ageMatch \<or> sourceMatch)"

primrec classify_loop :: "'d::linordered_idom ext \<Rightarrow> 'd SeverityClassificationInput \<Rightarrow> string list \<Rightarrow> nat \<Rightarrow>
    'd SeverityRule list \<Rightarrow> severity_error + SeverityClassificationResult" where
  "classify_loop E input reasons index [] = Inr \<lparr> sr_Severity = ExceptionSeverityLow, sr_Reasons = reasons \<rparr>"
| "classify_loop E input reasons index (rule # rules) =
     (if \<not> ExceptionSeverity_IsValid (sv_Severity rule) then Inl (ErrSeverityRule index)
      else if matchesSeverityRule E input rule
      then Inr \<lparr> sr_Severity = sv_Severity rule, sr_Reasons = reasons \<rparr>
      else classify_loop E input reasons (Suc index) rules)"

definition ClassifyExceptionSeverity :: "'d::linordered_idom ext \<Rightarrow> 'd SeverityClassificationInput \<Rightarrow>
    'd SeverityRule list \<Rightarrow> severity_error + SeverityClassificationResult" where
  "ClassifyExceptionSeverity E input rules =
     (if rules = [] then Inl ErrEmptySeverityRules
      else
        let normalized = normalizeSeverityInput input;
            reasons = (if sc_FXMissing normalized then [ReasonFXRateUnavailable] else []) in
        classify_loop E normalized reasons 0 rules)"

section \<open>Service levels\<close>

datatype sla_error =
    ErrEmptySLARules | ErrInvalidSLARule nat string | ErrNoMatchingSLARule

record 'd SLAInput =
  si_AmountAbsBase :: 'd
  si_AgeHours :: int
  si_ReferenceTime :: time

record 'd SLARule =
  sl_Name :: string
  sl_MinAmountAbsBase :: "'d option"
  sl_MinAgeHours :: "int option"
  sl_DueIn :: int

record SLAResult =
  sa_DueAt :: time
  sa_RuleName :: string
  sa_RuleIndex :: nat

definition DefaultSLARules :: "'d::linordered_idom SLARule list" where
  "DefaultSLARules =
     [\<lparr> sl_Name = ''CRITICAL'', sl_MinAmountAbsBase = Some 100000, sl_MinAgeHours = Some 120,
        sl_DueIn = 24 * nanos_per_hour \<rparr>,
      \<lparr> sl_Name = ''HIGH'', sl_MinAmountAbsBase = Some 10000, sl_MinAgeHours = Some 72,
        sl_DueIn = 72 * nanos_per_hour \<rparr>,
      \<lparr> sl_Name = ''MEDIUM'', sl_MinAmountAbsBase = Some 1000, sl_MinAgeHours = Some 24,
        sl_DueIn = 120 * nanos_per_hour \<rparr>,
      \<lparr> sl_Name = ''LOW'', sl_MinAmountAbsBase = None, sl_MinAgeHours = None,
        sl_DueIn = 168 * nanos_per_hour \<rparr>]"

definition normalizeSLAInput :: "time \<Rightarrow> 'd::linordered_idom SLAInput \<Rightarrow> 'd SLAInput" where
  "normalizeSLAInput now input = input\<lparr>
     si_AmountAbsBase := \<bar>si_AmountAbsBase input\<bar>,
     si_AgeHours := (if si_AgeHours input < 0 then 0 else si_AgeHours input),
     si_ReferenceTime := (if si_ReferenceTime input = zero_time then now else si_ReferenceTime input) \<rparr>"

definition validateSLARule :: "'d::linordered_idom SLARule \<Rightarrow> nat \<Rightarrow> sla_error option" where
  "validateSLARule rule index =
     (if sl_DueIn rule \<le> 0 then Some (ErrInvalidSLARule index ''due duration'')
      else if (case sl_MinAmountAbsBase rule of None \<Rightarrow> False | Some m \<Rightarrow> m < 0)
      then Some (ErrInvalidSLARule index ''min amount'')
      else if (case sl_MinAgeHours rule of None \<Rightarrow> False | Some m \<Rightarrow> m < 0)
      then Some (ErrInvalidSLARule index ''min age'')
      else None)"

definition matchesSLARule :: "'d::linordered_idom SLAInput \<Rightarrow> 'd SLARule \<Rightarrow> bool" where
  "matchesSLARule input rule =
     (if sl_MinAmountAbsBase rule = None \<and> sl_MinAgeHours rule = None then True
      else
        let amountMatch = (case sl_MinAmountAbsBase rule of None \<Rightarrow> False
                           | Some m \<Rightarrow> \<not> si_AmountAbsBase input < m);
            ageMatch = (case sl_MinAgeHours rule of None \<Rightarrow> False | Some m \<Rightarrow> si_AgeHours input \<ge> m) in
        amountMatch \<or> ageMatch)"

primrec validate_sla_rules :: "nat \<Rightarrow> 'd::linordered_idom SLARule list \<Rightarrow> sla_error option" where
  "validate_sla_rules index [] = None"
| "validate_sla_rules index (rule # rules) =
     (case validateSLARule rule index of Some err \<Rightarrow> Some err | None \<Rightarrow> validate_sla_rules (Suc index) rules)"

primrec sla_loop :: "'d::linordered_idom SLAInput \<Rightarrow> nat \<Rightarrow> 'd SLARule list \<Rightarrow> sla_error + SLAResult" where
  "sla_loop input index [] = Inl ErrNoMatchingSLARule"
| "sla_loop input index (rule # rules) =
     (if matchesSLARule input rule
      then Inr \<lparr> sa_DueAt = si_ReferenceTime input + sl_DueIn rule, sa_RuleName = sl_Name rule, sa_RuleIndex = index \<rparr>
      else sla_loop input (Suc index) rules)"

definition ComputeSLADueAt :: "time \<Rightarrow> 'd::linordered_idom SLAInput \<Rightarrow> 'd SLARule list \<Rightarrow> sla_error + SLAResult" where
  "ComputeSLADueAt now input rules =
     (if rules = [] then Inl ErrEmptySLARules
      else case validate_sla_rules 0 rules of
             Some err \<Rightarrow> Inl err
           | None \<Rightarrow> sla_loop (normalizeSLAInput now input) 0 rules)"

section \<open>Reasons\<close>

datatype reason_error = ErrInvalidOverrideReason | ErrInvalidAdjustmentReason

datatype OverrideReason =
    OverrideReasonPolicyException | OverrideReasonOpsApproval | OverrideReasonCustomerDispute
  | OverrideReasonDataCorrection | OverrideReasonOther string

definition OverrideReason_of :: "string \<Rightarrow> OverrideReason" where
  "OverrideReason_of s =
     (if s = ''POLICY_EXCEPTION'' then OverrideReasonPolicyException
      else if s = ''OPS_APPROVAL'' then OverrideReasonOpsApproval
      else if s = ''CUSTOMER_DISPUTE'' then OverrideReasonCustomerDispute
      else if s = ''DATA_CORRECTION'' then OverrideReasonDataCorrection
      else OverrideReasonOther s)"

definition OverrideReason_string :: "OverrideReason \<Rightarrow> string" where
  "OverrideReason_string reason =
     (case reason of
        OverrideReasonPolicyException \<Rightarrow> ''POLICY_EXCEPTION'' | OverrideReasonOpsApproval \<Rightarrow> ''OPS_APPROVAL''
      | OverrideReasonCustomerDispute \<Rightarrow> ''CUSTOMER_DISPUTE'' | OverrideReasonDataCorrection \<Rightarrow> ''DATA_CORRECTION''
      | OverrideReasonOther s \<Rightarrow> s)"

definition OverrideReason_IsValid :: "OverrideReason \<Rightarrow> bool" where
  "OverrideReason_IsValid reason = (case reason of OverrideReasonOther _ \<Rightarrow> False | _ \<Rightarrow> True)"

definition ParseOverrideReason :: "'d ext \<Rightarrow> string \<Rightarrow> reason_error + OverrideReason" where
  "ParseOverrideReason E v =
     (let trimmed = TrimSpace v in
      if trimmed = '''' then Inl ErrInvalidOverrideReason
      else
        let reason = OverrideReason_of (to_upper E trimmed) in
        if \<not> OverrideReason_IsValid reason then Inl ErrInvalidOverrideReason else Inr reason)"

datatype AdjustmentReasonCode =
    AdjustmentReasonAmountCorrection | AdjustmentReasonCurrencyCorrection
  | AdjustmentReasonDateCorrection | AdjustmentReasonOther | AdjustmentReasonUnknown string

definition AdjustmentReasonCode_of :: "string \<Rightarrow> AdjustmentReasonCode" where
  "AdjustmentReasonCode_of s =
     (if s = ''AMOUNT_CORRECTION'' then AdjustmentReasonAmountCorrection
      else if s = ''CURRENCY_CORRECTION'' then AdjustmentReasonCurrencyCorrection
      else if s = ''DATE_CORRECTION'' then AdjustmentReasonDateCorrection
      else if s = ''OTHER'' then AdjustmentReasonOther
      else AdjustmentReasonUnknown s)"

definition AdjustmentReasonCode_string :: "AdjustmentReasonCode \<Rightarrow> string" where
  "AdjustmentReasonCode_string reason =
     (case reason of
        AdjustmentReasonAmountCorrection \<Rightarrow> ''AMOUNT_CORRECTION''
      | AdjustmentReasonCurrencyCorrection \<Rightarrow> ''CURRENCY_CORRECTION''
      | AdjustmentReasonDateCorrection \<Rightarrow> ''DATE_CORRECTION''
      | AdjustmentReasonOther \<Rightarrow> ''OTHER'' | AdjustmentReasonUnknown s \<Rightarrow> s)"

definition AdjustmentReasonCode_IsValid :: "AdjustmentReasonCode \<Rightarrow> bool" where
  "AdjustmentReasonCode_IsValid reason = (case reason of AdjustmentReasonUnknown _ \<Rightarrow> False | _ \<Rightarrow> True)"

definition ParseAdjustmentReason :: "'d ext \<Rightarrow> string \<Rightarrow> reason_error + AdjustmentReasonCode" where
  "ParseAdjustmentReason E v =
     (let trimmed = TrimSpace v in
      if trimmed = '''' then Inl ErrInvalidAdjustmentReason
      else
        let reason = AdjustmentReasonCode_of (to_upper E trimmed) in
        if \<not> AdjustmentReasonCode_IsValid reason then Inl ErrInvalidAdjustmentReason else Inr reason)"

section \<open>Routing\<close>

datatype routing_error =
    ErrEmptyRoutingRules | ErrInvalidRoutingRule nat string | ErrNoMatchingRoutingRule
  | ErrOverrideReasonRequired nat

datatype RoutingTarget =
    RoutingTargetManual | RoutingTargetJira | RoutingTargetServiceNow | RoutingTargetWebhook
  | RoutingTargetOther string

definition RoutingTarget_IsValid :: "RoutingTarget \<Rightarrow> bool" where
  "RoutingTarget_IsValid target = (case target of RoutingTargetOther _ \<Rightarrow> False | _ \<Rightarrow> True)"

record 'd RoutingInput =
  ri_Severity :: ExceptionSeverity
  ri_AmountAbsBase :: 'd
  ri_AgeHours :: int
  ri_SourceType :: string
  ri_Reason :: string

record 'd RoutingRule =
  rr_Name :: string
  rr_Priority :: int
  rr_MatchAll :: bool
  rr_Severities :: "ExceptionSeverity list"
  rr_MinAmountAbsBase :: "'d option"
  rr_MinAgeHours :: "int option"
  rr_SourceTypes :: "string list"
  rr_Reasons :: "string list"
  rr_Target :: RoutingTarget
  rr_Queue :: string
  rr_Assignee :: string
  rr_OverrideSeverity :: "ExceptionSeverity option"
  rr_OverrideReason :: "OverrideReason option"

record RoutingDecision =
  rd_Target :: RoutingTarget
  rd_Queue :: string
  rd_Assignee :: string
  rd_OverrideSeverity :: "ExceptionSeverity option"
  rd_OverrideReason :: "OverrideReason option"
  rd_RuleName :: string
  rd_RuleIndex :: nat

definition routing_lt :: "'d RoutingRule \<Rightarrow> 'd RoutingRule \<Rightarrow> bool" where
  "routing_lt = then_lt rr_Priority (key_lt rr_Name)"

definition SortRoutingRules :: "'d RoutingRule list \<Rightarrow> 'd RoutingRule list" where
  "SortRoutingRules rules = SliceStable routing_lt rules"

definition normalizeRoutingInput :: "'d::linordered_idom RoutingInput \<Rightarrow> 'd RoutingInput" where
  "normalizeRoutingInput input = input\<lparr>
     ri_AmountAbsBase := \<bar>ri_AmountAbsBase input\<bar>,
     ri_AgeHours := (if ri_AgeHours input < 0 then 0 else ri_AgeHours input),
     ri_SourceType := TrimSpace (ri_SourceType input),
     ri_Reason := TrimSpace (ri_Reason input) \<rparr>"

definition validateRoutingRuleTarget :: "'d RoutingRule \<Rightarrow> nat \<Rightarrow> routing_error option" where
  "validateRoutingRuleTarget rule index =
     (if \<not> RoutingTarget_IsValid (rr_Target rule) then Some (ErrInvalidRoutingRule index ''target'') else None)"

definition validateRoutingRuleOverride :: "'d RoutingRule \<Rightarrow> nat \<Rightarrow> routing_error option" where
  "validateRoutingRuleOverride rule index =
     (case rr_OverrideSeverity rule of
        None \<Rightarrow> None
      | Some severity \<Rightarrow>
          if \<not> ExceptionSeverity_IsValid severity then Some (ErrInvalidRoutingRule index ''override severity'')
          else case rr_OverrideReason rule of
                 None \<Rightarrow> Some (ErrOverrideReasonRequired index)
               | Some reason \<Rightarrow>
                   if \<not> OverrideReason_IsValid reason then Some (ErrOverrideReasonRequired index) else None)"

definition validateRoutingRuleThresholds :: "'d::linordered_idom RoutingRule \<Rightarrow> nat \<Rightarrow> routing_error option" where
  "validateRoutingRuleThresholds rule index =
     (if (case rr_MinAmountAbsBase rule of None \<Rightarrow> False | Some m \<Rightarrow> m < 0)
      then Some (ErrInvalidRoutingRule index ''min amount'')
      else if (case rr_MinAgeHours rule of None \<Rightarrow> False | Some m \<Rightarrow> m < 0)
      then Some (ErrInvalidRoutingRule index ''min age'')
      else None)"

definition validateRoutingRuleSelectors :: "'d RoutingRule \<Rightarrow> nat \<Rightarrow> routing_error option" where
  "validateRoutingRuleSelectors rule index =
     (let hasSelectors = (rr_MatchAll rule \<or> rr_Severities rule \<noteq> [] \<or> rr_MinAmountAbsBase rule \<noteq> None \<or>
            rr_MinAgeHours rule \<noteq> None \<or> rr_SourceTypes rule \<noteq> [] \<or> rr_Reasons rule \<noteq> []) in
      if \<not> hasSelectors then Some (ErrInvalidRoutingRule index ''selectors'')
      else if \<not> list_all ExceptionSeverity_IsValid (rr_Severities rule)
      then Some (ErrInvalidRoutingRule index ''severity'')
      else None)"

definition validateRoutingRule :: "'d::linordered_idom RoutingRule \<Rightarrow> nat \<Rightarrow> routing_error option" where
  "validateRoutingRule rule index =
     (case validateRoutingRuleTarget rule index of Some err \<Rightarrow> Some err
      | None \<Rightarrow> (case validateRoutingRuleOverride rule index of Some err \<Rightarrow> Some err
      | None \<Rightarrow> (case validateRoutingRuleThresholds rule index of Some err \<Rightarrow> Some err
      | None \<Rightarrow> validateRoutingRuleSelectors rule index)))"

definition containsSeverity :: "ExceptionSeverity list \<Rightarrow> ExceptionSeverity \<Rightarrow> bool" where
  "containsSeverity vs candidate = (candidate \<in> set vs)"

definition containsString :: "'d ext \<Rightarrow> string list \<Rightarrow> string \<Rightarrow> bool" where
  "containsString E vs candidate = list_ex (\<lambda>v. equal_fold E (TrimSpace v) candidate) vs"

definition matchesRoutingRule :: "'d::linordered_idom ext \<Rightarrow> 'd RoutingInput \<Rightarrow> 'd RoutingRule \<Rightarrow> bool" where
  "matchesRoutingRule E input rule =
     (if rr_MatchAll rule then True
      else if rr_Severities rule \<noteq> [] \<and> \<not> containsSeverity (rr_Severities rule) (ri_Severity input) then False
      else if (case rr_MinAmountAbsBase rule of None \<Rightarrow> False | Some m \<Rightarrow> ri_AmountAbsBase input < m) then False
      else if (case rr_MinAgeHours rule of None \<Rightarrow> False | Some m \<Rightarrow> ri_AgeHours input < m) then False
      else if rr_SourceTypes rule \<noteq> [] \<and> \<not> containsString E (rr_SourceTypes rule) (ri_SourceType input) then False
      else if rr_Reasons rule \<noteq> [] \<and> \<not> containsString E (rr_Reasons rule) (ri_Reason input) then False
      else True)"

definition routing_decision :: "'d RoutingRule \<Rightarrow> nat \<Rightarrow> RoutingDecision" where
  "routing_decision rule index = \<lparr>
     rd_Target = rr_Target rule, rd_Queue = TrimSpace (rr_Queue rule), rd_Assignee = TrimSpace (rr_Assignee rule),
     rd_OverrideSeverity = rr_OverrideSeverity rule, rd_OverrideReason = rr_OverrideReason rule,
     rd_RuleName = rr_Name rule, rd_RuleIndex = index \<rparr>"

primrec routing_loop :: "'d::linordered_idom ext \<Rightarrow> 'd RoutingInput \<Rightarrow> nat \<Rightarrow> 'd RoutingRule list \<Rightarrow>
    routing_error + RoutingDecision" where
  "routing_loop E input index [] = Inl ErrNoMatchingRoutingRule"
| "routing_loop E input index (rule # rules) =
     (case validateRoutingRule rule index of
        Some err \<Rightarrow> Inl err
      | None \<Rightarrow>
          if matchesRoutingRule E input rule then Inr (routing_decision rule index)
          else routing_loop E input (Suc index) rules)"

definition EvaluateRouting :: "'d::linordered_idom ext \<Rightarrow> 'd RoutingInput \<Rightarrow> 'd RoutingRule list \<Rightarrow>
    routing_error + RoutingDecision" where
  "EvaluateRouting E input rules =
     (if rules = [] then Inl ErrEmptyRoutingRules
      else routing_loop E (normalizeRoutingInput input) 0 (SortRoutingRules rules))"

section \<open>First match\<close>

text \<open>The reference for all three loops: the first index whose rule satisfies a predicate.\<close>

definition first_at :: "('r \<Rightarrow> bool) \<Rightarrow> 'r list \<Rightarrow> nat \<Rightarrow> bool" where
  "first_at P rs i = (i < length rs \<and> P (rs ! i) \<and> (\<forall>j < i. \<not> P (rs ! j)))"

lemma first_at_Cons: "first_at P (r # rs) i \<longleftrightarrow> (if P r then i = 0 else (\<exists>k. i = Suc k \<and> first_at P rs k))"
proof (cases i)
  case 0
  then show ?thesis by (simp add: first_at_def)
next
  case (Suc k)
  have "(\<forall>j < Suc k. \<not> P ((r # rs) ! j)) \<longleftrightarrow> \<not> P r \<and> (\<forall>j < k. \<not> P (rs ! j))"
    by (auto simp: less_Suc_eq_0_disj)
  then show ?thesis using Suc by (auto simp: first_at_def)
qed

lemma first_at_unique: "first_at P rs i \<Longrightarrow> first_at P rs j \<Longrightarrow> i = j"
  unfolding first_at_def by (metis linorder_neqE_nat)

lemma first_at_exists: "(\<exists>i. first_at P rs i) \<longleftrightarrow> (\<exists>r \<in> set rs. P r)"
  by (induction rs) (auto simp: first_at_Cons first_at_def [of P "[]"])

lemma sla_loop_iff:
  "sla_loop input n rules = Inr res \<longleftrightarrow>
     (\<exists>i. first_at (matchesSLARule input) rules i \<and>
        res = \<lparr> sa_DueAt = si_ReferenceTime input + sl_DueIn (rules ! i), sa_RuleName = sl_Name (rules ! i),
                sa_RuleIndex = n + i \<rparr>)"
  by (induction rules arbitrary: n) (auto simp: first_at_Cons first_at_def [of _ "[]"])

lemma classify_loop_iff:
  assumes "\<forall>r \<in> set rules. ExceptionSeverity_IsValid (sv_Severity r)"
  shows "classify_loop E input reasons n rules = Inr res \<longleftrightarrow>
     (\<exists>i. first_at (matchesSeverityRule E input) rules i \<and>
        res = \<lparr> sr_Severity = sv_Severity (rules ! i), sr_Reasons = reasons \<rparr>) \<or>
     (\<forall>r \<in> set rules. \<not> matchesSeverityRule E input r) \<and>
        res = \<lparr> sr_Severity = ExceptionSeverityLow, sr_Reasons = reasons \<rparr>"
  using assms by (induction rules arbitrary: n) (auto simp: first_at_Cons first_at_def [of _ "[]"])

lemma routing_loop_iff:
  assumes "\<forall>r \<in> set rules. \<forall>i. validateRoutingRule r i = None"
  shows "routing_loop E input n rules = Inr res \<longleftrightarrow>
     (\<exists>i. first_at (matchesRoutingRule E input) rules i \<and> res = routing_decision (rules ! i) (n + i))"
  using assms by (induction rules arbitrary: n) (auto simp: first_at_Cons first_at_def [of _ "[]"])

interpretation routing_order: strict_weak_order routing_lt
  unfolding routing_lt_def by (intro strict_weak_order_then strict_weak_order_key)

section \<open>The default rules\<close>

text \<open>The level of an amount and an age, and its due time in hours.\<close>

definition default_level :: "'d::linordered_idom \<Rightarrow> int \<Rightarrow> ExceptionSeverity" where
  "default_level amount age =
     (if 100000 \<le> \<bar>amount\<bar> \<or> 120 \<le> age then ExceptionSeverityCritical
      else if 10000 \<le> \<bar>amount\<bar> \<or> 72 \<le> age then ExceptionSeverityHigh
      else if 1000 \<le> \<bar>amount\<bar> \<or> 24 \<le> age then ExceptionSeverityMedium
      else ExceptionSeverityLow)"

definition due_hours :: "ExceptionSeverity \<Rightarrow> int" where
  "due_hours severity =
     (case severity of
        ExceptionSeverityCritical \<Rightarrow> 24 | ExceptionSeverityHigh \<Rightarrow> 72 | ExceptionSeverityMedium \<Rightarrow> 120 | _ \<Rightarrow> 168)"

lemma allowed_nonempty: "rs \<noteq> [] \<and> isSourceTypeAllowed E s rs \<longleftrightarrow> isSourceTypeAllowed E s rs"
  by (auto simp: isSourceTypeAllowed_def)

lemma default_severity:
  "ClassifyExceptionSeverity E input (DefaultSeverityRules regulatory) = Inr \<lparr>
     sr_Severity = (if isSourceTypeAllowed E (TrimSpace (sc_SourceType input)) regulatory
                    then ExceptionSeverityCritical
                    else default_level (sc_AmountAbsBase input) (sc_AgeHours input)),
     sr_Reasons = (if sc_FXMissing input then [ReasonFXRateUnavailable] else []) \<rparr>"
  by (simp add: ClassifyExceptionSeverity_def DefaultSeverityRules_def normalizeSeverityInput_def
      ExceptionSeverity_IsValid_def matchesSeverityRule_def default_level_def Let_def not_less
      allowed_nonempty)

lemma default_sla:
  "ComputeSLADueAt now input DefaultSLARules = Inr \<lparr>
     sa_DueAt = (if si_ReferenceTime input = zero_time then now else si_ReferenceTime input) +
                  due_hours (default_level (si_AmountAbsBase input) (si_AgeHours input)) * nanos_per_hour,
     sa_RuleName = ExceptionSeverity_string (default_level (si_AmountAbsBase input) (si_AgeHours input)),
     sa_RuleIndex = (case default_level (si_AmountAbsBase input) (si_AgeHours input) of
                       ExceptionSeverityCritical \<Rightarrow> 0 | ExceptionSeverityHigh \<Rightarrow> 1
                     | ExceptionSeverityMedium \<Rightarrow> 2 | _ \<Rightarrow> 3) \<rparr>"
  by (simp add: ComputeSLADueAt_def DefaultSLARules_def validateSLARule_def normalizeSLAInput_def
      matchesSLARule_def default_level_def due_hours_def ExceptionSeverity_string_def nanos_per_hour_def
      Let_def not_less)

text \<open>
  C32: With the default rules the two triage decisions agree: the SLA rule that fires is named
  like the severity, unless a regulatory source made the exception critical, and it is due 24,
  72, 120 or 168 hours after the reference time. A larger amount or a greater age never gives
  a later due date.
\<close>

theorem triage_agrees:
  fixes amount amount' :: "'d::linordered_idom"
  shows "\<exists>sev sla sla'.
    ClassifyExceptionSeverity E \<lparr> sc_AmountAbsBase = amount, sc_AgeHours = age, sc_SourceType = src, sc_FXMissing = fx \<rparr>
      (DefaultSeverityRules regulatory) = Inr sev \<and>
    ComputeSLADueAt now \<lparr> si_AmountAbsBase = amount, si_AgeHours = age, si_ReferenceTime = t \<rparr> DefaultSLARules = Inr sla \<and>
    ComputeSLADueAt now \<lparr> si_AmountAbsBase = amount', si_AgeHours = age', si_ReferenceTime = t \<rparr> DefaultSLARules = Inr sla' \<and>
    (sa_RuleName sla = ExceptionSeverity_string (sr_Severity sev) \<or>
     sr_Severity sev = ExceptionSeverityCritical \<and> isSourceTypeAllowed E (TrimSpace src) regulatory) \<and>
    (t \<noteq> zero_time \<longrightarrow> sa_DueAt sla - t \<in> {24 * nanos_per_hour, 72 * nanos_per_hour, 120 * nanos_per_hour, 168 * nanos_per_hour}) \<and>
    (\<bar>amount\<bar> \<le> \<bar>amount'\<bar> \<longrightarrow> age \<le> age' \<longrightarrow> sa_DueAt sla' \<le> sa_DueAt sla)"
proof -
  have "due_hours (default_level amount' age') \<le> due_hours (default_level amount age)"
    if "\<bar>amount\<bar> \<le> \<bar>amount'\<bar>" "age \<le> age'"
    using that by (auto simp: default_level_def due_hours_def)
  moreover have "due_hours (default_level amount age) \<in> {24, 72, 120, 168}"
    by (simp add: default_level_def due_hours_def)
  ultimately show ?thesis
    unfolding default_severity default_sla by (auto simp: nanos_per_hour_def)
qed

theorem triage_agrees_witness:
  "\<exists>sla sla'. ComputeSLADueAt 0 \<lparr> si_AmountAbsBase = (5 :: rat), si_AgeHours = 1, si_ReferenceTime = 7 \<rparr> DefaultSLARules = Inr sla \<and>
     ComputeSLADueAt 0 \<lparr> si_AmountAbsBase = (- 20000 :: rat), si_AgeHours = 1, si_ReferenceTime = 7 \<rparr> DefaultSLARules = Inr sla' \<and>
     sa_DueAt sla' \<le> sa_DueAt sla"
  using triage_agrees [of rat_ext 5 1 "''''" False "[]" 0 7 "- 20000" 1] by (elim exE) simp

lemma validateRoutingRule_index: "validateRoutingRule r i = None \<longleftrightarrow> validateRoutingRule r 0 = None"
proof -
  have "validateRoutingRule r i = None \<longleftrightarrow> validateRoutingRuleTarget r i = None \<and>
      validateRoutingRuleOverride r i = None \<and> validateRoutingRuleThresholds r i = None \<and>
      validateRoutingRuleSelectors r i = None" for i
    by (simp add: validateRoutingRule_def split: option.split)
  moreover have "validateRoutingRuleTarget r i = None \<longleftrightarrow> validateRoutingRuleTarget r 0 = None"
    by (simp add: validateRoutingRuleTarget_def)
  moreover have "validateRoutingRuleOverride r i = None \<longleftrightarrow> validateRoutingRuleOverride r 0 = None"
    by (simp add: validateRoutingRuleOverride_def split: option.split)
  moreover have "validateRoutingRuleThresholds r i = None \<longleftrightarrow> validateRoutingRuleThresholds r 0 = None"
    by (simp add: validateRoutingRuleThresholds_def)
  moreover have "validateRoutingRuleSelectors r i = None \<longleftrightarrow> validateRoutingRuleSelectors r 0 = None"
    by (simp add: validateRoutingRuleSelectors_def Let_def)
  ultimately show ?thesis by simp
qed

text \<open>
  C23: With valid rules, routing takes the first rule in the order of priority and name that
  matches the normalised input, and fails exactly when no rule matches; with distinct
  priorities and names the decision does not depend on how the rules were ordered.
\<close>

theorem EvaluateRouting_first:
  assumes "rules \<noteq> []" "\<forall>r \<in> set rules. validateRoutingRule r 0 = None"
  shows "(EvaluateRouting E input rules = Inr d \<longleftrightarrow>
      (\<exists>i. first_at (matchesRoutingRule E (normalizeRoutingInput input)) (SortRoutingRules rules) i \<and>
         d = routing_decision (SortRoutingRules rules ! i) i)) \<and>
    ((\<exists>d. EvaluateRouting E input rules = Inr d) \<longleftrightarrow>
      (\<exists>r \<in> set rules. matchesRoutingRule E (normalizeRoutingInput input) r)) \<and>
    sorted_wrt (\<lambda>x y. rr_Priority x < rr_Priority y \<or> rr_Priority x = rr_Priority y \<and> rr_Name x \<le> rr_Name y) (SortRoutingRules rules) \<and>
    (distinct (map (\<lambda>r. (rr_Priority r, rr_Name r)) rules) \<longrightarrow> mset rules' = mset rules \<longrightarrow>
      EvaluateRouting E input rules' = EvaluateRouting E input rules)"
proof -
  have set: "set (SortRoutingRules rules) = set rules" by (simp add: SortRoutingRules_def)
  have ok: "\<forall>r \<in> set (SortRoutingRules rules). \<forall>i. validateRoutingRule r i = None"
    using assms(2) validateRoutingRule_index unfolding set by blast
  note run = routing_loop_iff [OF ok, of E "normalizeRoutingInput input" 0]
  have ev: "EvaluateRouting E input rules = Inr d \<longleftrightarrow>
      (\<exists>i. first_at (matchesRoutingRule E (normalizeRoutingInput input)) (SortRoutingRules rules) i \<and>
         d = routing_decision (SortRoutingRules rules ! i) i)" for d
    using assms(1) run by (simp add: EvaluateRouting_def)
  have "(\<exists>d. EvaluateRouting E input rules = Inr d) \<longleftrightarrow>
      (\<exists>r \<in> set rules. matchesRoutingRule E (normalizeRoutingInput input) r)"
    unfolding ev using first_at_exists [of _ "SortRoutingRules rules", unfolded set] by blast
  moreover have "sorted_wrt (\<lambda>x y. rr_Priority x < rr_Priority y \<or> rr_Priority x = rr_Priority y \<and> rr_Name x \<le> rr_Name y) (SortRoutingRules rules)"
    unfolding SortRoutingRules_def
    by (rule sorted_wrt_mono_rel [OF _ routing_order.sorted])
      (auto simp: routing_lt_def then_lt_def key_lt_def split: if_splits)
  moreover have "EvaluateRouting E input rules' = EvaluateRouting E input rules"
    if d: "distinct (map (\<lambda>r. (rr_Priority r, rr_Name r)) rules)" and m: "mset rules' = mset rules"
  proof -
    have "SortRoutingRules rules = SortRoutingRules rules'"
      unfolding SortRoutingRules_def using m [symmetric]
    proof (rule routing_order.deterministic)
      fix x y assume xy: "x \<in> set rules" "y \<in> set rules" "\<not> routing_lt x y" "\<not> routing_lt y x"
      then have "rr_Priority x = rr_Priority y" "rr_Name x = rr_Name y"
        by (auto simp: routing_lt_def then_lt_def key_lt_def split: if_splits)
      with d xy(1,2) show "x = y" by (auto simp: distinct_map dest: inj_onD)
    qed
    moreover have "rules' \<noteq> []" using m assms(1) by auto
    ultimately show ?thesis using assms(1) by (simp add: EvaluateRouting_def)
  qed
  ultimately show ?thesis using ev [of d] by blast
qed

definition example_route :: "string \<Rightarrow> int \<Rightarrow> rat option \<Rightarrow> rat RoutingRule" where
  "example_route name priority amount = \<lparr>
     rr_Name = name, rr_Priority = priority, rr_MatchAll = (amount = None), rr_Severities = [],
     rr_MinAmountAbsBase = amount, rr_MinAgeHours = None, rr_SourceTypes = [], rr_Reasons = [],
     rr_Target = RoutingTargetManual, rr_Queue = '''', rr_Assignee = '''',
     rr_OverrideSeverity = None, rr_OverrideReason = None \<rparr>"

theorem EvaluateRouting_first_witness:
  "EvaluateRouting rat_ext \<lparr> ri_Severity = ExceptionSeverityLow, ri_AmountAbsBase = 5, ri_AgeHours = 0,
       ri_SourceType = '''', ri_Reason = '''' \<rparr> [example_route ''rest'' 2 None, example_route ''big'' 1 (Some 100)]
   = Inr (routing_decision (example_route ''rest'' 2 None) 1)"
proof -
  let ?rules = "[example_route ''rest'' 2 None, example_route ''big'' 1 (Some 100)]"
  have s: "SortRoutingRules ?rules = [example_route ''big'' 1 (Some 100), example_route ''rest'' 2 None]"
    by (simp add: SortRoutingRules_def routing_lt_def then_lt_def example_route_def)
  have ok: "\<forall>r \<in> set ?rules. validateRoutingRule r 0 = None"
    by (simp add: validateRoutingRule_def validateRoutingRuleTarget_def validateRoutingRuleOverride_def
        validateRoutingRuleThresholds_def validateRoutingRuleSelectors_def example_route_def
        RoutingTarget_IsValid_def Let_def)
  have f: "first_at (matchesRoutingRule rat_ext (normalizeRoutingInput \<lparr> ri_Severity = ExceptionSeverityLow,
      ri_AmountAbsBase = 5, ri_AgeHours = 0, ri_SourceType = [], ri_Reason = [] \<rparr>)) (SortRoutingRules ?rules) 1"
    unfolding s by (simp add: first_at_Cons matchesRoutingRule_def example_route_def normalizeRoutingInput_def)
  show ?thesis
    by (rule EvaluateRouting_first [OF _ ok, THEN conjunct1, THEN iffD2])
      (simp, intro exI [of _ 1] conjI, rule f, simp add: s)
qed

end
