(* ===== verification/Lifecycle.thy ===== *)
theory Lifecycle
  imports Prelude
begin

text \<open>
  The interface of the entities with a status: an operation takes the entity and an event (the
  call with its arguments) and returns an error or the updated entity. A failed call leaves
  the entity as it was, so a history of calls is \<open>run\<close>. The locales collect what the entities
  promise (a transition table, an invariant, final states, a way to finish) and what follows
  for every history of calls; each entity of the development interprets them.
\<close>

definition attempt :: "('s \<Rightarrow> 'e \<Rightarrow> 'err + 's) \<Rightarrow> 's \<Rightarrow> 'e \<Rightarrow> 's" where
  "attempt step s e = (case step s e of Inl err \<Rightarrow> s | Inr s' \<Rightarrow> s')"

primrec run :: "('s \<Rightarrow> 'e \<Rightarrow> 'err + 's) \<Rightarrow> 's \<Rightarrow> 'e list \<Rightarrow> 's" where
  "run step s [] = s"
| "run step s (e # es) = run step (attempt step s e) es"

inductive reach :: "('s \<Rightarrow> 'e \<Rightarrow> 'err + 's) \<Rightarrow> ('s \<Rightarrow> bool) \<Rightarrow> 's \<Rightarrow> bool" for step init where
  reach_init: "init s \<Longrightarrow> reach step init s"
| reach_step: "reach step init s \<Longrightarrow> step s e = Inr s' \<Longrightarrow> reach step init s'"

lemma attempt_simps [simp]:
  "step s e = Inl err \<Longrightarrow> attempt step s e = s"
  "step s e = Inr s' \<Longrightarrow> attempt step s e = s'"
  by (simp_all add: attempt_def)

lemma attempt_cases:
  obtains (rejected) err where "step s e = Inl err" "attempt step s e = s"
  | (taken) s' where "step s e = Inr s'" "attempt step s e = s'"
  using attempt_simps [of step s e] by (cases "step s e") blast+

lemma run_append [simp]: "run step s (es @ fs) = run step (run step s es) fs"
  by (induction es arbitrary: s) simp_all

text \<open>The entities a history of calls leads to are the reachable ones.\<close>

lemma reach_run: "reach step init s \<Longrightarrow> reach step init (run step s es)"
proof (induction es arbitrary: s)
  case Nil
  then show ?case by simp
next
  case (Cons e es)
  have "reach step init (attempt step s e)"
    using Cons.prems by (cases rule: attempt_cases [of step s e]) (simp_all add: reach_step)
  with Cons.IH show ?case by simp
qed

lemma reach_iff_run: "reach step init s \<longleftrightarrow> (\<exists>s0 es. init s0 \<and> s = run step s0 es)"
proof
  assume "reach step init s"
  then show "\<exists>s0 es. init s0 \<and> s = run step s0 es"
  proof induction
    case (reach_init s)
    then show ?case by (intro exI [of _ s] exI [of _ "[]"]) simp
  next
    case (reach_step s e s')
    then obtain s0 es where "init s0" "s = run step s0 es" by blast
    with reach_step(2) show ?case by (intro exI [of _ s0] exI [of _ "es @ [e]"]) simp
  qed
next
  assume "\<exists>s0 es. init s0 \<and> s = run step s0 es"
  then show "reach step init s" by (auto intro: reach_run reach_init)
qed

section \<open>Transition tables\<close>

locale lifecycle =
  fixes step :: "'s \<Rightarrow> 'e \<Rightarrow> 'err + 's"
    and status :: "'s \<Rightarrow> 'st"
    and allowed :: "'st \<Rightarrow> 'st \<Rightarrow> bool"
    and inv :: "'s \<Rightarrow> bool"
  assumes step_inv: "inv s \<Longrightarrow> step s e = Inr s' \<Longrightarrow> inv s'"
    and step_allowed: "inv s \<Longrightarrow> step s e = Inr s' \<Longrightarrow> status s' = status s \<or> allowed (status s) (status s')"
begin

lemma attempt_inv: "inv s \<Longrightarrow> inv (attempt step s e)"
  by (cases rule: attempt_cases [of step s e]) (simp_all add: step_inv)

lemma run_inv: "inv s \<Longrightarrow> inv (run step s es)"
  by (induction es arbitrary: s) (auto intro: attempt_inv)

lemma reach_inv:
  assumes "reach step init s" "\<And>s. init s \<Longrightarrow> inv s"
  shows "inv s"
  using assms(1) by induction (rule assms(2), assumption, rule step_inv)

lemma attempt_allowed: "inv s \<Longrightarrow> allowed\<^sup>*\<^sup>* (status s) (status (attempt step s e))"
proof (cases rule: attempt_cases [of step s e])
  case (taken s')
  assume "inv s"
  from step_allowed [OF this taken(1)] show ?thesis by (auto simp: taken(2))
qed simp

text \<open>A history of calls follows the table.\<close>

lemma run_allowed: "inv s \<Longrightarrow> allowed\<^sup>*\<^sup>* (status s) (status (run step s es))"
proof (induction es arbitrary: s)
  case Nil
  then show ?case by simp
next
  case (Cons e es)
  then show ?case
    using attempt_allowed [of s e] attempt_inv [of s e] by (auto intro: rtranclp_trans)
qed

text \<open>A status the table does not leave is never left.\<close>

lemma run_stays:
  assumes "inv s" "\<And>t. \<not> allowed (status s) t"
  shows "status (run step s es) = status s"
  using run_allowed [OF assms(1), of es] assms(2) by (metis converse_rtranclpE)

end

section \<open>Final states\<close>

locale lifecycle_final = lifecycle +
  fixes final :: "'st \<Rightarrow> bool"
  assumes final_reject: "inv s \<Longrightarrow> final (status s) \<Longrightarrow> \<exists>err. step s e = Inl err"
begin

lemma run_final: "inv s \<Longrightarrow> final (status s) \<Longrightarrow> run step s es = s"
proof (induction es)
  case Nil
  then show ?case by simp
next
  case (Cons e es)
  then obtain err where "step s e = Inl err" using final_reject by blast
  with Cons show ?case by simp
qed

text \<open>What a history ended in a final state cannot be changed by any longer history.\<close>

lemma run_final_prefix:
  "inv s \<Longrightarrow> final (status (run step s es)) \<Longrightarrow> run step s (es @ fs) = run step s es"
  using run_final [OF run_inv] by simp

end

section \<open>Progress\<close>

locale lifecycle_live = lifecycle_final +
  fixes rank :: "'st \<Rightarrow> nat"
  assumes progress: "inv s \<Longrightarrow> \<not> final (status s) \<Longrightarrow>
    \<exists>e s'. step s e = Inr s' \<and> (final (status s') \<or> rank (status s') < rank (status s))"
begin

text \<open>From every state some history of calls leads to a final state.\<close>

lemma can_finish: "inv s \<Longrightarrow> \<exists>es. final (status (run step s es))"
proof (induction "rank (status s)" arbitrary: s rule: less_induct)
  case less
  show ?case
  proof (cases "final (status s)")
    case True
    then show ?thesis by (intro exI [of _ "[]"]) simp
  next
    case False
    then obtain e s' where e: "step s e = Inr s'" "final (status s') \<or> rank (status s') < rank (status s)"
      using progress [OF less.prems] by blast
    then obtain es where "final (status (run step s' es))"
    proof (cases "final (status s')")
      case True
      then show ?thesis using that [of "[]"] by simp
    next
      case False
      with e less.hyps [of s'] step_inv [OF less.prems e(1)] that show ?thesis by blast
    qed
    with e(1) show ?thesis by (intro exI [of _ "e # es"]) simp
  qed
qed

end

end
