(* ===== verification/Exceptions.thy ===== *)
theory Exceptions
  imports Triage Lifecycle
begin

text \<open>
  The exception aggregate (\<^verbatim>\<open>internal/exception/domain/entities\<close>) and its statuses
  (\<^verbatim>\<open>internal/exception/domain/value_objects\<close>). A pointer receiver is an option, \<open>None\<close> for nil;
  an operation returns the updated aggregate or its error. Every operation checks all its guards
  before its first assignment, so a failed call leaves the aggregate as it was. A wrapped error
  is its sentinel.
\<close>

datatype status_error = ErrInvalidExceptionStatus | ErrInvalidResolutionTransition

datatype entity_error =
    ErrExceptionNotFound | ErrExceptionNil | ErrTransactionIDRequired | ErrExceptionSeverityInvalid
  | ErrExceptionMustBeOpenToAssign | ErrExceptionMustBeOpenOrAssignedToResolve
  | ErrResolutionNotesRequired | ErrAssigneeRequired | ErrAssignedExceptionRequiresAssignee
  | ErrExceptionMustBeAssignedToUnassign | ErrExceptionPendingResolution
  | ErrExceptionMustBePendingToAbort | ErrInvalidAbortTargetStatus
  | ErrCommentExceptionIDRequired | ErrCommentAuthorRequired | ErrCommentContentRequired | ErrCommentNotFound

section \<open>Statuses\<close>

datatype ExceptionStatus =
    ExceptionStatusOpen | ExceptionStatusAssigned | ExceptionStatusPendingResolution
  | ExceptionStatusResolved | ExceptionStatusOther string

definition ExceptionStatus_string :: "ExceptionStatus \<Rightarrow> string" where
  "ExceptionStatus_string status =
     (case status of
        ExceptionStatusOpen \<Rightarrow> ''OPEN'' | ExceptionStatusAssigned \<Rightarrow> ''ASSIGNED''
      | ExceptionStatusPendingResolution \<Rightarrow> ''PENDING_RESOLUTION'' | ExceptionStatusResolved \<Rightarrow> ''RESOLVED''
      | ExceptionStatusOther s \<Rightarrow> s)"

definition ExceptionStatus_of :: "string \<Rightarrow> ExceptionStatus" where
  "ExceptionStatus_of s =
     (if s = ''OPEN'' then ExceptionStatusOpen else if s = ''ASSIGNED'' then ExceptionStatusAssigned
      else if s = ''PENDING_RESOLUTION'' then ExceptionStatusPendingResolution
      else if s = ''RESOLVED'' then ExceptionStatusResolved else ExceptionStatusOther s)"

definition ExceptionStatus_IsValid :: "ExceptionStatus \<Rightarrow> bool" where
  "ExceptionStatus_IsValid status = (case status of ExceptionStatusOther _ \<Rightarrow> False | _ \<Rightarrow> True)"

definition ParseExceptionStatus :: "'d ext \<Rightarrow> string \<Rightarrow> status_error + ExceptionStatus" where
  "ParseExceptionStatus E v =
     (let status = ExceptionStatus_of (to_upper E (TrimSpace v)) in
      if \<not> ExceptionStatus_IsValid status then Inl ErrInvalidExceptionStatus else Inr status)"

definition allowedResolutionTransitions :: "ExceptionStatus \<Rightarrow> ExceptionStatus list" where
  "allowedResolutionTransitions from =
     (case from of
        ExceptionStatusOpen \<Rightarrow> [ExceptionStatusAssigned, ExceptionStatusResolved, ExceptionStatusPendingResolution]
      | ExceptionStatusAssigned \<Rightarrow> [ExceptionStatusResolved, ExceptionStatusPendingResolution]
      | ExceptionStatusPendingResolution \<Rightarrow> [ExceptionStatusResolved, ExceptionStatusOpen, ExceptionStatusAssigned]
      | ExceptionStatusResolved \<Rightarrow> []
      | ExceptionStatusOther _ \<Rightarrow> [])"

definition ValidateResolutionTransition :: "ExceptionStatus \<Rightarrow> ExceptionStatus \<Rightarrow> status_error option" where
  "ValidateResolutionTransition from to =
     (if \<not> ExceptionStatus_IsValid from \<or> \<not> ExceptionStatus_IsValid to then Some ErrInvalidExceptionStatus
      else if to \<in> set (allowedResolutionTransitions from) then None
      else Some ErrInvalidResolutionTransition)"

section \<open>The aggregate\<close>

record Exception =
  x_ID :: uuid
  x_TransactionID :: uuid
  x_Severity :: ExceptionSeverity
  x_Status :: ExceptionStatus
  x_ExternalSystem :: "string option"
  x_ExternalIssueID :: "string option"
  x_AssignedTo :: "string option"
  x_DueAt :: "time option"
  x_ResolutionNotes :: "string option"
  x_ResolutionType :: "string option"
  x_ResolutionReason :: "string option"
  x_Reason :: "string option"
  x_Version :: int
  x_CreatedAt :: time
  x_UpdatedAt :: time

record resolveOptions =
  o_resolutionType :: string
  o_resolutionReason :: string

datatype ResolveOption = WithResolutionType string | WithResolutionReason string

primrec apply_option :: "ResolveOption \<Rightarrow> resolveOptions \<Rightarrow> resolveOptions" where
  "apply_option (WithResolutionType t) o' = o'\<lparr> o_resolutionType := t \<rparr>"
| "apply_option (WithResolutionReason r) o' = o'\<lparr> o_resolutionReason := r \<rparr>"

definition NewException :: "uuid \<Rightarrow> time \<Rightarrow> uuid \<Rightarrow> ExceptionSeverity \<Rightarrow> string option \<Rightarrow> entity_error + Exception" where
  "NewException newID now transactionID severity reason =
     (if transactionID = 0 then Inl ErrTransactionIDRequired
      else if \<not> ExceptionSeverity_IsValid severity then Inl ErrExceptionSeverityInvalid
      else Inr \<lparr> x_ID = newID, x_TransactionID = transactionID, x_Severity = severity,
                 x_Status = ExceptionStatusOpen, x_ExternalSystem = None, x_ExternalIssueID = None,
                 x_AssignedTo = None, x_DueAt = None, x_ResolutionNotes = None, x_ResolutionType = None,
                 x_ResolutionReason = None, x_Reason = NormalizeOptionalText reason, x_Version = 0,
                 x_CreatedAt = now, x_UpdatedAt = now \<rparr>)"

definition Assign :: "time \<Rightarrow> Exception option \<Rightarrow> string \<Rightarrow> time option \<Rightarrow> entity_error + Exception" where
  "Assign now exc assignee dueAt =
     (case exc of None \<Rightarrow> Inl ErrExceptionNil
      | Some x \<Rightarrow>
          if x_Status x \<noteq> ExceptionStatusOpen then Inl ErrExceptionMustBeOpenToAssign
          else if TrimSpace assignee = '''' then Inl ErrAssigneeRequired
          else Inr (x\<lparr> x_Status := ExceptionStatusAssigned, x_AssignedTo := Some (TrimSpace assignee),
                      x_DueAt := dueAt, x_UpdatedAt := now \<rparr>))"

definition Unassign :: "time \<Rightarrow> Exception option \<Rightarrow> entity_error + Exception" where
  "Unassign now exc =
     (case exc of None \<Rightarrow> Inl ErrExceptionNil
      | Some x \<Rightarrow>
          if x_Status x \<noteq> ExceptionStatusAssigned then Inl ErrExceptionMustBeAssignedToUnassign
          else Inr (x\<lparr> x_Status := ExceptionStatusOpen, x_AssignedTo := None, x_DueAt := None,
                      x_UpdatedAt := now \<rparr>))"

definition StartResolution :: "time \<Rightarrow> Exception option \<Rightarrow> entity_error + Exception" where
  "StartResolution now exc =
     (case exc of None \<Rightarrow> Inl ErrExceptionNil
      | Some x \<Rightarrow>
          if x_Status x = ExceptionStatusPendingResolution then Inl ErrExceptionPendingResolution
          else if x_Status x \<noteq> ExceptionStatusOpen \<and> x_Status x \<noteq> ExceptionStatusAssigned
          then Inl ErrExceptionMustBeOpenOrAssignedToResolve
          else Inr (x\<lparr> x_Status := ExceptionStatusPendingResolution, x_UpdatedAt := now \<rparr>))"

definition AbortResolution :: "time \<Rightarrow> Exception option \<Rightarrow> ExceptionStatus \<Rightarrow> entity_error + Exception" where
  "AbortResolution now exc previousStatus =
     (case exc of None \<Rightarrow> Inl ErrExceptionNil
      | Some x \<Rightarrow>
          if x_Status x \<noteq> ExceptionStatusPendingResolution then Inl ErrExceptionMustBePendingToAbort
          else if previousStatus \<noteq> ExceptionStatusOpen \<and> previousStatus \<noteq> ExceptionStatusAssigned
          then Inl ErrInvalidAbortTargetStatus
          else Inr (x\<lparr> x_Status := previousStatus, x_UpdatedAt := now \<rparr>))"

definition Resolve :: "time \<Rightarrow> Exception option \<Rightarrow> string \<Rightarrow> ResolveOption list \<Rightarrow> entity_error + Exception" where
  "Resolve now exc notes opts =
     (case exc of None \<Rightarrow> Inl ErrExceptionNil
      | Some x \<Rightarrow>
          if x_Status x \<noteq> ExceptionStatusOpen \<and> x_Status x \<noteq> ExceptionStatusAssigned \<and>
             x_Status x \<noteq> ExceptionStatusPendingResolution
          then Inl ErrExceptionMustBeOpenOrAssignedToResolve
          else if TrimSpace notes = '''' then Inl ErrResolutionNotesRequired
          else if x_Status x = ExceptionStatusAssigned \<and>
                  (case x_AssignedTo x of None \<Rightarrow> True | Some a \<Rightarrow> TrimSpace a = '''')
          then Inl ErrAssignedExceptionRequiresAssignee
          else
            let options = fold apply_option opts \<lparr> o_resolutionType = '''', o_resolutionReason = '''' \<rparr> in
            Inr (x\<lparr> x_Status := ExceptionStatusResolved, x_ResolutionNotes := Some (TrimSpace notes),
                    x_ResolutionType := (if o_resolutionType options \<noteq> '''' then Some (o_resolutionType options)
                                         else x_ResolutionType x),
                    x_ResolutionReason := (if o_resolutionReason options \<noteq> '''' then Some (o_resolutionReason options)
                                           else x_ResolutionReason x),
                    x_UpdatedAt := now \<rparr>))"

section \<open>Comments\<close>

record ExceptionComment =
  cm_ID :: uuid
  cm_ExceptionID :: uuid
  cm_Author :: string
  cm_Content :: string
  cm_CreatedAt :: time
  cm_UpdatedAt :: time

definition NewExceptionComment :: "uuid \<Rightarrow> time \<Rightarrow> uuid \<Rightarrow> string \<Rightarrow> string \<Rightarrow> entity_error + ExceptionComment" where
  "NewExceptionComment newID now exceptionID author content =
     (if exceptionID = 0 then Inl ErrCommentExceptionIDRequired
      else if TrimSpace author = '''' then Inl ErrCommentAuthorRequired
      else if TrimSpace content = '''' then Inl ErrCommentContentRequired
      else Inr \<lparr> cm_ID = newID, cm_ExceptionID = exceptionID, cm_Author = TrimSpace author,
                 cm_Content = TrimSpace content, cm_CreatedAt = now, cm_UpdatedAt = now \<rparr>)"

section \<open>Histories\<close>

text \<open>The operations as events of a lifecycle.\<close>

datatype exception_event =
    EAssign time string "time option" | EUnassign time | EStartResolution time
  | EAbortResolution time ExceptionStatus | EResolve time string "ResolveOption list"

definition exception_step :: "Exception \<Rightarrow> exception_event \<Rightarrow> entity_error + Exception" where
  "exception_step x e =
     (case e of
        EAssign now assignee dueAt \<Rightarrow> Assign now (Some x) assignee dueAt
      | EUnassign now \<Rightarrow> Unassign now (Some x)
      | EStartResolution now \<Rightarrow> StartResolution now (Some x)
      | EAbortResolution now previousStatus \<Rightarrow> AbortResolution now (Some x) previousStatus
      | EResolve now notes opts \<Rightarrow> Resolve now (Some x) notes opts)"

definition exception_moves :: "ExceptionStatus \<Rightarrow> ExceptionStatus \<Rightarrow> bool" where
  "exception_moves a b \<longleftrightarrow> b \<in> set (allowedResolutionTransitions a) \<or>
     a = ExceptionStatusAssigned \<and> b = ExceptionStatusOpen"

definition exception_ok :: "Exception \<Rightarrow> bool" where
  "exception_ok x \<longleftrightarrow> ExceptionStatus_IsValid (x_Status x) \<and> ExceptionSeverity_IsValid (x_Severity x) \<and>
     x_TransactionID x \<noteq> 0 \<and>
     (x_Status x = ExceptionStatusResolved \<longrightarrow>
        (\<exists>notes. x_ResolutionNotes x = Some notes \<and> notes \<noteq> ''''))"

definition exception_final :: "ExceptionStatus \<Rightarrow> bool" where
  "exception_final s \<longleftrightarrow> s = ExceptionStatusResolved"

definition exception_rank :: "ExceptionStatus \<Rightarrow> nat" where
  "exception_rank s = (case s of ExceptionStatusPendingResolution \<Rightarrow> 1 | ExceptionStatusResolved \<Rightarrow> 0 | _ \<Rightarrow> 2)"

lemmas exception_ops = Assign_def Unassign_def StartResolution_def AbortResolution_def Resolve_def

section \<open>Inversion\<close>

lemma Assign_Inr: "Assign now (Some x) a d = Inr x' \<longleftrightarrow> x_Status x = ExceptionStatusOpen \<and> TrimSpace a \<noteq> '''' \<and>
    x' = x\<lparr> x_Status := ExceptionStatusAssigned, x_AssignedTo := Some (TrimSpace a), x_DueAt := d, x_UpdatedAt := now \<rparr>"
  by (auto simp: Assign_def)

lemma Unassign_Inr: "Unassign now (Some x) = Inr x' \<longleftrightarrow> x_Status x = ExceptionStatusAssigned \<and>
    x' = x\<lparr> x_Status := ExceptionStatusOpen, x_AssignedTo := None, x_DueAt := None, x_UpdatedAt := now \<rparr>"
  by (auto simp: Unassign_def)

lemma StartResolution_Inr: "StartResolution now (Some x) = Inr x' \<longleftrightarrow>
    (x_Status x = ExceptionStatusOpen \<or> x_Status x = ExceptionStatusAssigned) \<and>
    x' = x\<lparr> x_Status := ExceptionStatusPendingResolution, x_UpdatedAt := now \<rparr>"
  by (auto simp: StartResolution_def)

lemma AbortResolution_Inr: "AbortResolution now (Some x) p = Inr x' \<longleftrightarrow>
    x_Status x = ExceptionStatusPendingResolution \<and> (p = ExceptionStatusOpen \<or> p = ExceptionStatusAssigned) \<and>
    x' = x\<lparr> x_Status := p, x_UpdatedAt := now \<rparr>"
  by (auto simp: AbortResolution_def)

definition resolved :: "time \<Rightarrow> string \<Rightarrow> ResolveOption list \<Rightarrow> Exception \<Rightarrow> Exception" where
  "resolved now notes opts x =
     (let options = fold apply_option opts \<lparr> o_resolutionType = '''', o_resolutionReason = '''' \<rparr> in
      x\<lparr> x_Status := ExceptionStatusResolved, x_ResolutionNotes := Some (TrimSpace notes),
         x_ResolutionType := (if o_resolutionType options \<noteq> '''' then Some (o_resolutionType options)
                              else x_ResolutionType x),
         x_ResolutionReason := (if o_resolutionReason options \<noteq> '''' then Some (o_resolutionReason options)
                                else x_ResolutionReason x),
         x_UpdatedAt := now \<rparr>)"

lemma resolved_sel [simp]:
  "x_Status (resolved now notes opts x) = ExceptionStatusResolved"
  "x_ResolutionNotes (resolved now notes opts x) = Some (TrimSpace notes)"
  "x_ID (resolved now notes opts x) = x_ID x" "x_TransactionID (resolved now notes opts x) = x_TransactionID x"
  "x_Severity (resolved now notes opts x) = x_Severity x" "x_Version (resolved now notes opts x) = x_Version x"
  "x_AssignedTo (resolved now notes opts x) = x_AssignedTo x" "x_UpdatedAt (resolved now notes opts x) = now"
  by (simp_all add: resolved_def Let_def)

lemma Resolve_Inr: "Resolve now (Some x) notes opts = Inr x' \<longleftrightarrow>
    (x_Status x = ExceptionStatusOpen \<or> x_Status x = ExceptionStatusPendingResolution \<or>
     x_Status x = ExceptionStatusAssigned \<and> (\<exists>a. x_AssignedTo x = Some a \<and> TrimSpace a \<noteq> '''')) \<and>
    TrimSpace notes \<noteq> '''' \<and> x' = resolved now notes opts x"
  by (cases "x_Status x"; cases "x_AssignedTo x") (auto simp: Resolve_def resolved_def Let_def)

lemmas exception_inv = Assign_Inr Unassign_Inr StartResolution_Inr AbortResolution_Inr Resolve_Inr

lemma exception_step_cases:
  assumes "exception_step x e = Inr x'"
  obtains (assign) now a d where "e = EAssign now a d" "Assign now (Some x) a d = Inr x'"
  | (unassign) now where "e = EUnassign now" "Unassign now (Some x) = Inr x'"
  | (start) now where "e = EStartResolution now" "StartResolution now (Some x) = Inr x'"
  | (abort) now p where "e = EAbortResolution now p" "AbortResolution now (Some x) p = Inr x'"
  | (resolve) now n opts where "e = EResolve now n opts" "Resolve now (Some x) n opts = Inr x'"
  using assms by (cases e) (simp_all add: exception_step_def)

interpretation exc: lifecycle_live exception_step x_Status exception_moves exception_ok exception_final exception_rank
proof
  fix x e x' assume inv: "exception_ok x" and st: "exception_step x e = Inr x'"
  from st inv show "exception_ok x'"
    by (cases rule: exception_step_cases)
      (auto simp: exception_inv exception_ok_def ExceptionStatus_IsValid_def)
  from st show "x_Status x' = x_Status x \<or> exception_moves (x_Status x) (x_Status x')"
    by (cases rule: exception_step_cases)
      (auto simp: exception_inv exception_moves_def allowedResolutionTransitions_def)
next
  fix x e assume "exception_ok x" "exception_final (x_Status x)"
  then show "\<exists>err. exception_step x e = Inl err"
    by (cases e) (simp_all add: exception_step_def exception_ops exception_final_def)
next
  fix x assume x: "exception_ok x" "\<not> exception_final (x_Status x)"
  show "\<exists>e x'. exception_step x e = Inr x' \<and>
      (exception_final (x_Status x') \<or> exception_rank (x_Status x') < exception_rank (x_Status x))"
  proof (cases "x_Status x = ExceptionStatusPendingResolution")
    case True
    then have "Resolve 0 (Some x) ''x'' [] = Inr (resolved 0 ''x'' [] x)"
      by (simp add: Resolve_Inr TrimSpace_visible visible_def)
    then show ?thesis
      by (intro exI [of _ "EResolve 0 ''x'' []"]) (simp add: exception_step_def exception_final_def)
  next
    case False
    with x have "x_Status x = ExceptionStatusOpen \<or> x_Status x = ExceptionStatusAssigned"
      by (cases "x_Status x") (auto simp: exception_ok_def exception_final_def ExceptionStatus_IsValid_def)
    then show ?thesis
      by (intro exI [of _ "EStartResolution 0"]) (auto simp: exception_step_def StartResolution_def exception_rank_def)
  qed
qed

section \<open>Properties\<close>

lemma NewException_ok:
  "NewException i now t sev reason = Inr x \<Longrightarrow> exception_ok x \<and> x_Status x = ExceptionStatusOpen"
  by (auto simp: NewException_def exception_ok_def ExceptionStatus_IsValid_def split: if_splits)

text \<open>
  C19: Whatever calls are made on a new exception, in any order and with any arguments: its
  status moves along the published table and back from ASSIGNED to OPEN only; once it is
  RESOLVED it carries resolution notes and no call changes any field of it again; and as long
  as it is not resolved there is a way to resolve it.
\<close>

theorem Exception_history:
  assumes "NewException newID now transactionID severity reason = Inr x"
  shows "exception_moves\<^sup>*\<^sup>* ExceptionStatusOpen (x_Status (run exception_step x es)) \<and>
    (x_Status (run exception_step x es) = ExceptionStatusResolved \<longrightarrow>
       (\<exists>notes. x_ResolutionNotes (run exception_step x es) = Some notes \<and> notes \<noteq> '''') \<and>
       run exception_step x (es @ fs) = run exception_step x es) \<and>
    (\<exists>gs. x_Status (run exception_step x (es @ gs)) = ExceptionStatusResolved)"
proof -
  have x: "exception_ok x" "x_Status x = ExceptionStatusOpen" using NewException_ok [OF assms] by simp_all
  note inv = exc.run_inv [OF x(1), of es]
  have "\<exists>gs. x_Status (run exception_step x (es @ gs)) = ExceptionStatusResolved"
    using exc.can_finish [OF inv] by (simp add: exception_final_def)
  moreover have "\<exists>n. x_ResolutionNotes (run exception_step x es) = Some n \<and> n \<noteq> ''''"
      "run exception_step x (es @ fs) = run exception_step x es"
    if "x_Status (run exception_step x es) = ExceptionStatusResolved"
    using that inv exc.run_final_prefix [OF x(1), of es fs]
    unfolding exception_ok_def exception_final_def by blast+
  ultimately show ?thesis using exc.run_allowed [OF x(1), of es] x(2) by simp
qed

theorem Exception_history_witness:
  "\<exists>x. NewException 1 0 2 ExceptionSeverityLow None = Inr x \<and>
     (\<exists>gs. x_Status (run exception_step x ([EAssign 5 ''me'' None] @ gs)) = ExceptionStatusResolved)"
proof -
  obtain x where x: "NewException 1 0 2 ExceptionSeverityLow None = Inr x"
    by (simp add: NewException_def ExceptionSeverity_IsValid_def)
  from Exception_history [OF this, of "[EAssign 5 ''me'' None]"] x show ?thesis by blast
qed

text \<open>
  C33: The table of resolution transitions is exact: it allows a change of status precisely when
  some call other than Unassign, on some exception, makes that change.
\<close>

theorem resolution_table_exact:
  "ValidateResolutionTransition a b = None \<longleftrightarrow>
     (\<exists>x e x'. (\<forall>now. e \<noteq> EUnassign now) \<and> exception_step x e = Inr x' \<and> x_Status x = a \<and> x_Status x' = b)"
  (is "?table \<longleftrightarrow> ?call")
proof
  assume ?table
  then have ab: "b \<in> set (allowedResolutionTransitions a)"
    by (auto simp: ValidateResolutionTransition_def split: if_splits)
  define x :: Exception where "x = undefined\<lparr> x_Status := a, x_AssignedTo := Some ''me'' \<rparr>"
  have x: "x_Status x = a" "x_AssignedTo x = Some ''me''" by (simp_all add: x_def)
  have me: "TrimSpace ''me'' \<noteq> ''''" "TrimSpace ''x'' \<noteq> ''''" by (simp_all add: TrimSpace_visible visible_def)
  have wit: ?call if "exception_step x e = Inr x'" "x_Status x' = b" "\<forall>now. e \<noteq> EUnassign now" for e x'
    using that x(1) by blast
  consider "b = ExceptionStatusAssigned" "a = ExceptionStatusOpen"
    | "b = ExceptionStatusPendingResolution" "a = ExceptionStatusOpen \<or> a = ExceptionStatusAssigned"
    | "a = ExceptionStatusPendingResolution" "b = ExceptionStatusOpen \<or> b = ExceptionStatusAssigned"
    | "b = ExceptionStatusResolved"
        "a = ExceptionStatusOpen \<or> a = ExceptionStatusAssigned \<or> a = ExceptionStatusPendingResolution"
    using ab by (cases a) (auto simp: allowedResolutionTransitions_def)
  then show ?call
  proof cases
    case 1
    with x me obtain x' where "exception_step x (EAssign 0 ''me'' None) = Inr x'" "x_Status x' = b"
      by (auto simp: exception_step_def Assign_Inr)
    then show ?thesis by (rule wit) simp
  next
    case 2
    with x me obtain x' where "exception_step x (EStartResolution 0) = Inr x'" "x_Status x' = b"
      by (auto simp: exception_step_def StartResolution_Inr)
    then show ?thesis by (rule wit) simp
  next
    case 3
    with x me obtain x' where "exception_step x (EAbortResolution 0 b) = Inr x'" "x_Status x' = b"
      by (auto simp: exception_step_def AbortResolution_Inr)
    then show ?thesis by (rule wit) simp
  next
    case 4
    with x me obtain x' where "exception_step x (EResolve 0 ''x'' []) = Inr x'" "x_Status x' = b"
      by (auto simp: exception_step_def Resolve_Inr)
    then show ?thesis by (rule wit) simp
  qed
next
  assume ?call
  then obtain x e x' where e: "\<forall>now. e \<noteq> EUnassign now" and st: "exception_step x e = Inr x'"
    and ab: "x_Status x = a" "x_Status x' = b" by blast
  from st e ab show ?table
    by (cases rule: exception_step_cases)
      (auto simp: exception_inv ValidateResolutionTransition_def ExceptionStatus_IsValid_def
        allowedResolutionTransitions_def)
qed

end
