(* ===== verification/Disputes.thy ===== *)
theory Disputes
  imports Externals Lifecycle "HOL-Library.Sublist"
begin

text \<open>
  Disputes about exceptions (\<^verbatim>\<open>internal/exception/domain/dispute\<close>): categories, states with their
  transition table, evidence and the aggregate. \<^verbatim>\<open>url.Parse\<close> is a parameter: it gives the scheme
  and the host of a URL, or nothing when the text does not parse.
\<close>

datatype dispute_error =
    ErrDisputeNil | ErrDisputeExceptionIDRequired | ErrDisputeDescriptionRequired
  | ErrDisputeOpenedByRequired | ErrDisputeResolutionRequired | ErrDisputeReopenReasonRequired
  | ErrCannotAddEvidenceInCurrentState | ErrInvalidDisputeState | ErrInvalidDisputeTransition
  | ErrInvalidDisputeCategory | ErrEvidenceCommentRequired | ErrEvidenceSubmitterRequired
  | ErrEvidenceDisputeIDRequired | ErrEvidenceInvalidFileURL

section \<open>Categories and states\<close>

datatype DisputeCategory =
    DisputeCategoryBankFeeError | DisputeCategoryUnrecognizedCharge
  | DisputeCategoryDuplicateTransaction | DisputeCategoryAmountMismatch | DisputeCategoryOther
  | DisputeCategoryUnknown string

definition DisputeCategory_of :: "string \<Rightarrow> DisputeCategory" where
  "DisputeCategory_of s =
     (if s = ''BANK_FEE_ERROR'' then DisputeCategoryBankFeeError
      else if s = ''UNRECOGNIZED_CHARGE'' then DisputeCategoryUnrecognizedCharge
      else if s = ''DUPLICATE_TRANSACTION'' then DisputeCategoryDuplicateTransaction
      else if s = ''AMOUNT_MISMATCH'' then DisputeCategoryAmountMismatch
      else if s = ''OTHER'' then DisputeCategoryOther else DisputeCategoryUnknown s)"

definition DisputeCategory_string :: "DisputeCategory \<Rightarrow> string" where
  "DisputeCategory_string category =
     (case category of
        DisputeCategoryBankFeeError \<Rightarrow> ''BANK_FEE_ERROR''
      | DisputeCategoryUnrecognizedCharge \<Rightarrow> ''UNRECOGNIZED_CHARGE''
      | DisputeCategoryDuplicateTransaction \<Rightarrow> ''DUPLICATE_TRANSACTION''
      | DisputeCategoryAmountMismatch \<Rightarrow> ''AMOUNT_MISMATCH''
      | DisputeCategoryOther \<Rightarrow> ''OTHER'' | DisputeCategoryUnknown s \<Rightarrow> s)"

definition DisputeCategory_IsValid :: "DisputeCategory \<Rightarrow> bool" where
  "DisputeCategory_IsValid category = (case category of DisputeCategoryUnknown _ \<Rightarrow> False | _ \<Rightarrow> True)"

definition ParseDisputeCategory :: "'d ext \<Rightarrow> string \<Rightarrow> dispute_error + DisputeCategory" where
  "ParseDisputeCategory E v =
     (let category = DisputeCategory_of (to_upper E v) in
      if \<not> DisputeCategory_IsValid category then Inl ErrInvalidDisputeCategory else Inr category)"

datatype DisputeState =
    DisputeStateDraft | DisputeStateOpen | DisputeStatePendingEvidence | DisputeStateWon
  | DisputeStateLost | DisputeStateOther string

definition DisputeState_of :: "string \<Rightarrow> DisputeState" where
  "DisputeState_of s =
     (if s = ''DRAFT'' then DisputeStateDraft else if s = ''OPEN'' then DisputeStateOpen
      else if s = ''PENDING_EVIDENCE'' then DisputeStatePendingEvidence
      else if s = ''WON'' then DisputeStateWon else if s = ''LOST'' then DisputeStateLost
      else DisputeStateOther s)"

definition DisputeState_string :: "DisputeState \<Rightarrow> string" where
  "DisputeState_string state =
     (case state of
        DisputeStateDraft \<Rightarrow> ''DRAFT'' | DisputeStateOpen \<Rightarrow> ''OPEN''
      | DisputeStatePendingEvidence \<Rightarrow> ''PENDING_EVIDENCE'' | DisputeStateWon \<Rightarrow> ''WON''
      | DisputeStateLost \<Rightarrow> ''LOST'' | DisputeStateOther s \<Rightarrow> s)"

definition DisputeState_IsValid :: "DisputeState \<Rightarrow> bool" where
  "DisputeState_IsValid state = (case state of DisputeStateOther _ \<Rightarrow> False | _ \<Rightarrow> True)"

definition IsTerminal :: "DisputeState \<Rightarrow> bool" where
  "IsTerminal state = (state = DisputeStateWon \<or> state = DisputeStateLost)"

definition CanReopen :: "DisputeState \<Rightarrow> bool" where
  "CanReopen state = (state = DisputeStateLost)"

definition ParseDisputeState :: "'d ext \<Rightarrow> string \<Rightarrow> dispute_error + DisputeState" where
  "ParseDisputeState E v =
     (let state = DisputeState_of (to_upper E (TrimSpace v)) in
      if \<not> DisputeState_IsValid state then Inl ErrInvalidDisputeState else Inr state)"

definition allowedDisputeTransitions :: "DisputeState \<Rightarrow> DisputeState list" where
  "allowedDisputeTransitions from =
     (case from of
        DisputeStateDraft \<Rightarrow> [DisputeStateOpen]
      | DisputeStateOpen \<Rightarrow> [DisputeStatePendingEvidence, DisputeStateWon, DisputeStateLost]
      | DisputeStatePendingEvidence \<Rightarrow> [DisputeStateOpen, DisputeStateWon, DisputeStateLost]
      | DisputeStateWon \<Rightarrow> []
      | DisputeStateLost \<Rightarrow> [DisputeStateOpen]
      | DisputeStateOther _ \<Rightarrow> [])"

definition ValidateDisputeTransition :: "DisputeState \<Rightarrow> DisputeState \<Rightarrow> dispute_error option" where
  "ValidateDisputeTransition from to =
     (if \<not> DisputeState_IsValid from \<or> \<not> DisputeState_IsValid to then Some ErrInvalidDisputeState
      else if to \<in> set (allowedDisputeTransitions from) then None
      else Some ErrInvalidDisputeTransition)"

section \<open>Evidence\<close>

type_synonym url_parser = "string \<Rightarrow> (string \<times> string) option"

record Evidence =
  ev_ID :: uuid
  ev_DisputeID :: uuid
  ev_FileURL :: "string option"
  ev_Comment :: string
  ev_SubmittedBy :: string
  ev_SubmittedAt :: time

definition validateFileURL :: "url_parser \<Rightarrow> string option \<Rightarrow> dispute_error + string option" where
  "validateFileURL parse fileURL =
     (case NormalizeOptionalText fileURL of
        None \<Rightarrow> Inr None
      | Some normalized \<Rightarrow>
          (case parse normalized of
             None \<Rightarrow> Inl ErrEvidenceInvalidFileURL
           | Some (scheme, host) \<Rightarrow>
               if scheme \<noteq> ''https'' then Inl ErrEvidenceInvalidFileURL
               else if host = '''' then Inl ErrEvidenceInvalidFileURL
               else Inr (Some normalized)))"

definition NewEvidence :: "url_parser \<Rightarrow> uuid \<Rightarrow> time \<Rightarrow> uuid \<Rightarrow> string \<Rightarrow> string \<Rightarrow> string option \<Rightarrow>
    dispute_error + Evidence" where
  "NewEvidence parse newID now disputeID comment submittedBy fileURL =
     (if disputeID = 0 then Inl ErrEvidenceDisputeIDRequired
      else if TrimSpace comment = '''' then Inl ErrEvidenceCommentRequired
      else if TrimSpace submittedBy = '''' then Inl ErrEvidenceSubmitterRequired
      else rbind (validateFileURL parse fileURL) (\<lambda>validatedURL.
        Inr \<lparr> ev_ID = newID, ev_DisputeID = disputeID, ev_FileURL = validatedURL,
              ev_Comment = TrimSpace comment, ev_SubmittedBy = TrimSpace submittedBy, ev_SubmittedAt = now \<rparr>))"

section \<open>The aggregate\<close>

record Dispute =
  d_ID :: uuid
  d_ExceptionID :: uuid
  d_Category :: DisputeCategory
  d_State :: DisputeState
  d_Description :: string
  d_OpenedBy :: string
  d_Resolution :: "string option"
  d_ReopenReason :: "string option"
  d_Evidence :: "Evidence list"
  d_CreatedAt :: time
  d_UpdatedAt :: time

definition NewDispute :: "uuid \<Rightarrow> time \<Rightarrow> uuid \<Rightarrow> DisputeCategory \<Rightarrow> string \<Rightarrow> string \<Rightarrow> dispute_error + Dispute" where
  "NewDispute newID now exceptionID category description openedBy =
     (if exceptionID = 0 then Inl ErrDisputeExceptionIDRequired
      else if \<not> DisputeCategory_IsValid category then Inl ErrInvalidDisputeCategory
      else if TrimSpace description = '''' then Inl ErrDisputeDescriptionRequired
      else if TrimSpace openedBy = '''' then Inl ErrDisputeOpenedByRequired
      else Inr \<lparr> d_ID = newID, d_ExceptionID = exceptionID, d_Category = category, d_State = DisputeStateDraft,
                 d_Description = TrimSpace description, d_OpenedBy = TrimSpace openedBy, d_Resolution = None,
                 d_ReopenReason = None, d_Evidence = [], d_CreatedAt = now, d_UpdatedAt = now \<rparr>)"

definition Open :: "time \<Rightarrow> Dispute option \<Rightarrow> dispute_error + Dispute" where
  "Open now dispute =
     (case dispute of None \<Rightarrow> Inl ErrDisputeNil
      | Some d \<Rightarrow>
          (case ValidateDisputeTransition (d_State d) DisputeStateOpen of
             Some err \<Rightarrow> Inl err
           | None \<Rightarrow> Inr (d\<lparr> d_State := DisputeStateOpen, d_UpdatedAt := now \<rparr>)))"

definition RequestEvidence :: "time \<Rightarrow> Dispute option \<Rightarrow> dispute_error + Dispute" where
  "RequestEvidence now dispute =
     (case dispute of None \<Rightarrow> Inl ErrDisputeNil
      | Some d \<Rightarrow>
          (case ValidateDisputeTransition (d_State d) DisputeStatePendingEvidence of
             Some err \<Rightarrow> Inl err
           | None \<Rightarrow> Inr (d\<lparr> d_State := DisputeStatePendingEvidence, d_UpdatedAt := now \<rparr>)))"

definition AddEvidence :: "url_parser \<Rightarrow> uuid \<Rightarrow> time \<Rightarrow> Dispute option \<Rightarrow> string \<Rightarrow> string \<Rightarrow> string option \<Rightarrow>
    dispute_error + Dispute" where
  "AddEvidence parse newID now dispute comment submittedBy fileURL =
     (case dispute of None \<Rightarrow> Inl ErrDisputeNil
      | Some d \<Rightarrow>
          if d_State d \<noteq> DisputeStateOpen \<and> d_State d \<noteq> DisputeStatePendingEvidence
          then Inl ErrCannotAddEvidenceInCurrentState
          else rbind (NewEvidence parse newID now (d_ID d) comment submittedBy fileURL) (\<lambda>evidence.
            Inr (d\<lparr> d_Evidence := d_Evidence d @ [evidence],
                    d_State := (if d_State d = DisputeStatePendingEvidence then DisputeStateOpen else d_State d),
                    d_UpdatedAt := now \<rparr>)))"

definition Win :: "time \<Rightarrow> Dispute option \<Rightarrow> string \<Rightarrow> dispute_error + Dispute" where
  "Win now dispute resolution =
     (case dispute of None \<Rightarrow> Inl ErrDisputeNil
      | Some d \<Rightarrow>
          if TrimSpace resolution = '''' then Inl ErrDisputeResolutionRequired
          else case ValidateDisputeTransition (d_State d) DisputeStateWon of
                 Some err \<Rightarrow> Inl err
               | None \<Rightarrow> Inr (d\<lparr> d_State := DisputeStateWon, d_Resolution := Some (TrimSpace resolution),
                               d_UpdatedAt := now \<rparr>))"

definition Lose :: "time \<Rightarrow> Dispute option \<Rightarrow> string \<Rightarrow> dispute_error + Dispute" where
  "Lose now dispute resolution =
     (case dispute of None \<Rightarrow> Inl ErrDisputeNil
      | Some d \<Rightarrow>
          if TrimSpace resolution = '''' then Inl ErrDisputeResolutionRequired
          else case ValidateDisputeTransition (d_State d) DisputeStateLost of
                 Some err \<Rightarrow> Inl err
               | None \<Rightarrow> Inr (d\<lparr> d_State := DisputeStateLost, d_Resolution := Some (TrimSpace resolution),
                               d_UpdatedAt := now \<rparr>))"

definition Reopen :: "time \<Rightarrow> Dispute option \<Rightarrow> string \<Rightarrow> dispute_error + Dispute" where
  "Reopen now dispute reason =
     (case dispute of None \<Rightarrow> Inl ErrDisputeNil
      | Some d \<Rightarrow>
          if TrimSpace reason = '''' then Inl ErrDisputeReopenReasonRequired
          else case ValidateDisputeTransition (d_State d) DisputeStateOpen of
                 Some err \<Rightarrow> Inl err
               | None \<Rightarrow> Inr (d\<lparr> d_State := DisputeStateOpen, d_Resolution := None,
                               d_ReopenReason := Some (TrimSpace reason), d_UpdatedAt := now \<rparr>))"

section \<open>Histories\<close>

datatype dispute_event =
    DOpen time | DRequestEvidence time | DAddEvidence uuid time string string "string option"
  | DWin time string | DLose time string | DReopen time string

definition dispute_step :: "url_parser \<Rightarrow> Dispute \<Rightarrow> dispute_event \<Rightarrow> dispute_error + Dispute" where
  "dispute_step parse d e =
     (case e of
        DOpen now \<Rightarrow> Open now (Some d)
      | DRequestEvidence now \<Rightarrow> RequestEvidence now (Some d)
      | DAddEvidence newID now comment submittedBy fileURL \<Rightarrow>
          AddEvidence parse newID now (Some d) comment submittedBy fileURL
      | DWin now resolution \<Rightarrow> Win now (Some d) resolution
      | DLose now resolution \<Rightarrow> Lose now (Some d) resolution
      | DReopen now reason \<Rightarrow> Reopen now (Some d) reason)"

definition dispute_moves :: "DisputeState \<Rightarrow> DisputeState \<Rightarrow> bool" where
  "dispute_moves a b \<longleftrightarrow> ValidateDisputeTransition a b = None"

text \<open>State and category are known ones; a closed dispute has a resolution; every piece of evidence belongs to the dispute, says
  something, and links to https only.\<close>

definition evidence_ok :: "url_parser \<Rightarrow> uuid \<Rightarrow> Evidence \<Rightarrow> bool" where
  "evidence_ok parse disputeID e \<longleftrightarrow> ev_DisputeID e = disputeID \<and> ev_Comment e \<noteq> '''' \<and> ev_SubmittedBy e \<noteq> '''' \<and>
     (\<forall>u. ev_FileURL e = Some u \<longrightarrow> (\<exists>host. parse u = Some (''https'', host) \<and> host \<noteq> ''''))"

definition dispute_ok :: "url_parser \<Rightarrow> Dispute \<Rightarrow> bool" where
  "dispute_ok parse d \<longleftrightarrow> DisputeState_IsValid (d_State d) \<and> DisputeCategory_IsValid (d_Category d) \<and>
     (IsTerminal (d_State d) \<longrightarrow> (\<exists>r. d_Resolution d = Some r \<and> r \<noteq> '''')) \<and>
     (\<forall>e \<in> set (d_Evidence d). evidence_ok parse (d_ID d) e)"

definition dispute_final :: "DisputeState \<Rightarrow> bool" where
  "dispute_final s \<longleftrightarrow> s = DisputeStateWon"

definition dispute_rank :: "DisputeState \<Rightarrow> nat" where
  "dispute_rank s = (case s of DisputeStateDraft \<Rightarrow> 2 | DisputeStateLost \<Rightarrow> 2 | DisputeStateWon \<Rightarrow> 0 | _ \<Rightarrow> 1)"

section \<open>Inversion\<close>

lemma ValidateDisputeTransition_None: "ValidateDisputeTransition a b = None \<longleftrightarrow> b \<in> set (allowedDisputeTransitions a)"
  by (cases a; cases b) (auto simp: ValidateDisputeTransition_def allowedDisputeTransitions_def DisputeState_IsValid_def)

lemma Open_Inr: "Open now (Some d) = Inr d' \<longleftrightarrow>
    (d_State d = DisputeStateDraft \<or> d_State d = DisputeStatePendingEvidence \<or> d_State d = DisputeStateLost) \<and>
    d' = d\<lparr> d_State := DisputeStateOpen, d_UpdatedAt := now \<rparr>"
  using ValidateDisputeTransition_None [of "d_State d" DisputeStateOpen]
  by (cases "d_State d") (auto simp: Open_def allowedDisputeTransitions_def split: option.splits)

lemma RequestEvidence_Inr: "RequestEvidence now (Some d) = Inr d' \<longleftrightarrow> d_State d = DisputeStateOpen \<and>
    d' = d\<lparr> d_State := DisputeStatePendingEvidence, d_UpdatedAt := now \<rparr>"
  using ValidateDisputeTransition_None [of "d_State d" DisputeStatePendingEvidence]
  by (cases "d_State d") (auto simp: RequestEvidence_def allowedDisputeTransitions_def split: option.splits)

lemma Win_Inr: "Win now (Some d) r = Inr d' \<longleftrightarrow>
    (d_State d = DisputeStateOpen \<or> d_State d = DisputeStatePendingEvidence) \<and> TrimSpace r \<noteq> '''' \<and>
    d' = d\<lparr> d_State := DisputeStateWon, d_Resolution := Some (TrimSpace r), d_UpdatedAt := now \<rparr>"
  using ValidateDisputeTransition_None [of "d_State d" DisputeStateWon]
  by (cases "d_State d") (auto simp: Win_def allowedDisputeTransitions_def split: option.splits)

lemma Lose_Inr: "Lose now (Some d) r = Inr d' \<longleftrightarrow>
    (d_State d = DisputeStateOpen \<or> d_State d = DisputeStatePendingEvidence) \<and> TrimSpace r \<noteq> '''' \<and>
    d' = d\<lparr> d_State := DisputeStateLost, d_Resolution := Some (TrimSpace r), d_UpdatedAt := now \<rparr>"
  using ValidateDisputeTransition_None [of "d_State d" DisputeStateLost]
  by (cases "d_State d") (auto simp: Lose_def allowedDisputeTransitions_def split: option.splits)

lemma Reopen_Inr: "Reopen now (Some d) r = Inr d' \<longleftrightarrow>
    (d_State d = DisputeStateDraft \<or> d_State d = DisputeStatePendingEvidence \<or> d_State d = DisputeStateLost) \<and>
    TrimSpace r \<noteq> '''' \<and>
    d' = d\<lparr> d_State := DisputeStateOpen, d_Resolution := None, d_ReopenReason := Some (TrimSpace r), d_UpdatedAt := now \<rparr>"
  using ValidateDisputeTransition_None [of "d_State d" DisputeStateOpen]
  by (cases "d_State d") (auto simp: Reopen_def allowedDisputeTransitions_def split: option.splits)

lemma AddEvidence_Inr: "AddEvidence parse i now (Some d) c b u = Inr d' \<longleftrightarrow>
    (d_State d = DisputeStateOpen \<or> d_State d = DisputeStatePendingEvidence) \<and>
    (\<exists>e. NewEvidence parse i now (d_ID d) c b u = Inr e \<and>
       d' = d\<lparr> d_Evidence := d_Evidence d @ [e], d_State := DisputeStateOpen, d_UpdatedAt := now \<rparr>)"
  by (cases "d_State d") (auto simp: AddEvidence_def)

lemmas dispute_inv = Open_Inr RequestEvidence_Inr Win_Inr Lose_Inr Reopen_Inr AddEvidence_Inr

lemma NewEvidence_ok: "NewEvidence parse i now did c b u = Inr e \<Longrightarrow> evidence_ok parse did e"
  by (auto simp: NewEvidence_def evidence_ok_def validateFileURL_def split: if_splits option.splits)

lemma dispute_step_cases:
  assumes "dispute_step parse d e = Inr d'"
  obtains (open') now where "e = DOpen now" "Open now (Some d) = Inr d'"
  | (request) now where "e = DRequestEvidence now" "RequestEvidence now (Some d) = Inr d'"
  | (evidence) i now c b u where "e = DAddEvidence i now c b u" "AddEvidence parse i now (Some d) c b u = Inr d'"
  | (win) now r where "e = DWin now r" "Win now (Some d) r = Inr d'"
  | (lose) now r where "e = DLose now r" "Lose now (Some d) r = Inr d'"
  | (reopen) now r where "e = DReopen now r" "Reopen now (Some d) r = Inr d'"
  using assms by (cases e) (simp_all add: dispute_step_def)

lemma dispute_step_ok: "dispute_ok parse d \<Longrightarrow> dispute_step parse d e = Inr d' \<Longrightarrow> dispute_ok parse d'"
  by (elim dispute_step_cases)
    (auto simp: dispute_inv dispute_ok_def DisputeState_IsValid_def IsTerminal_def intro: NewEvidence_ok)

lemma dispute_step_moves:
  "dispute_step parse d e = Inr d' \<Longrightarrow> d_State d' = d_State d \<or> dispute_moves (d_State d) (d_State d')"
  by (elim dispute_step_cases)
    (auto simp: dispute_inv dispute_moves_def ValidateDisputeTransition_None allowedDisputeTransitions_def)

interpretation disp: lifecycle_live "dispute_step parse" d_State dispute_moves "dispute_ok parse" dispute_final dispute_rank
proof
  show "dispute_ok parse d \<Longrightarrow> dispute_step parse d e = Inr d' \<Longrightarrow> dispute_ok parse d'" for d e d'
    by (rule dispute_step_ok)
  show "dispute_ok parse d \<Longrightarrow> dispute_step parse d e = Inr d' \<Longrightarrow>
      d_State d' = d_State d \<or> dispute_moves (d_State d) (d_State d')" for d e d'
    by (rule dispute_step_moves)
next
  fix d e assume "dispute_ok parse d" "dispute_final (d_State d)"
  then have "\<not> (\<exists>d'. dispute_step parse d e = Inr d')"
    by (auto elim!: dispute_step_cases simp: dispute_inv dispute_final_def)
  then show "\<exists>err. dispute_step parse d e = Inl err" by (cases "dispute_step parse d e") auto
next
  fix d assume d: "dispute_ok parse d" "\<not> dispute_final (d_State d)"
  have x: "TrimSpace ''x'' \<noteq> ''''" by (simp add: TrimSpace_visible visible_def)
  show "\<exists>e d'. dispute_step parse d e = Inr d' \<and>
      (dispute_final (d_State d') \<or> dispute_rank (d_State d') < dispute_rank (d_State d))"
  proof (cases "d_State d = DisputeStateOpen \<or> d_State d = DisputeStatePendingEvidence")
    case True
    with x have "\<exists>d'. dispute_step parse d (DWin 0 ''x'') = Inr d' \<and> d_State d' = DisputeStateWon"
      by (auto simp: dispute_step_def Win_Inr)
    then show ?thesis unfolding dispute_final_def by blast
  next
    case False
    with d have s: "d_State d = DisputeStateDraft \<or> d_State d = DisputeStateLost"
      by (cases "d_State d") (auto simp: dispute_ok_def dispute_final_def DisputeState_IsValid_def)
    then have "\<exists>d'. dispute_step parse d (DOpen 0) = Inr d' \<and> d_State d' = DisputeStateOpen"
      by (auto simp: dispute_step_def Open_Inr)
    moreover have "dispute_rank DisputeStateOpen < dispute_rank (d_State d)" using s by (auto simp: dispute_rank_def)
    ultimately show ?thesis by metis
  qed
qed

lemma run_evidence: "prefix (d_Evidence d) (d_Evidence (run (dispute_step parse) d es))"
proof (induction es arbitrary: d)
  case Nil
  then show ?case by simp
next
  case (Cons e es)
  have "prefix (d_Evidence d) (d_Evidence (attempt (dispute_step parse) d e))"
  proof (cases rule: attempt_cases [of "dispute_step parse" d e])
    case (taken d')
    then show ?thesis by (auto elim!: dispute_step_cases simp: dispute_inv)
  qed simp
  also have "prefix (d_Evidence (attempt (dispute_step parse) d e)) (d_Evidence (run (dispute_step parse) d (e # es)))"
    using Cons.IH by simp
  finally show ?case .
qed

section \<open>Properties\<close>

text \<open>
  C20: Whatever calls are made on a new dispute: its state follows the transition table; a closed
  dispute has a resolution; evidence is only ever appended, belongs to the dispute and links to
  https URLs with a host; a dispute that was won is never changed again; and from every
  reachable state the dispute can still be won.
\<close>

theorem Dispute_history:
  assumes "NewDispute newID now exceptionID category description openedBy = Inr d"
  shows "dispute_moves\<^sup>*\<^sup>* DisputeStateDraft (d_State (run (dispute_step parse) d es)) \<and>
    dispute_ok parse (run (dispute_step parse) d es) \<and>
    prefix (d_Evidence (run (dispute_step parse) d es)) (d_Evidence (run (dispute_step parse) d (es @ fs))) \<and>
    (d_State (run (dispute_step parse) d es) = DisputeStateWon \<longrightarrow>
       run (dispute_step parse) d (es @ fs) = run (dispute_step parse) d es) \<and>
    (\<exists>gs. d_State (run (dispute_step parse) d (es @ gs)) = DisputeStateWon)"
proof -
  have d: "dispute_ok parse d" "d_State d = DisputeStateDraft"
    using assms by (auto simp: NewDispute_def dispute_ok_def DisputeState_IsValid_def IsTerminal_def split: if_splits)
  note inv = disp.run_inv [OF d(1), of es]
  have "\<exists>gs. d_State (run (dispute_step parse) d (es @ gs)) = DisputeStateWon"
    using disp.can_finish [OF inv] by (simp add: dispute_final_def)
  moreover have "run (dispute_step parse) d (es @ fs) = run (dispute_step parse) d es"
    if "d_State (run (dispute_step parse) d es) = DisputeStateWon"
    using disp.run_final_prefix [OF d(1)] that by (simp add: dispute_final_def)
  ultimately show ?thesis
    using disp.run_allowed [OF d(1), of es] d(2) inv run_evidence [of "run (dispute_step parse) d es"] by simp
qed

theorem Dispute_history_witness:
  "\<exists>d. NewDispute 1 0 2 DisputeCategoryOther ''why'' ''me'' = Inr d \<and>
     (\<exists>gs. d_State (run (dispute_step (\<lambda>_. None)) d ([DOpen 1, DLose 2 ''no''] @ gs)) = DisputeStateWon)"
proof -
  obtain d where d: "NewDispute 1 0 2 DisputeCategoryOther ''why'' ''me'' = Inr d"
    by (simp add: NewDispute_def DisputeCategory_IsValid_def TrimSpace_visible visible_def)
  from Dispute_history [OF this, of "\<lambda>_. None" "[DOpen 1, DLose 2 ''no'']"] d show ?thesis by blast
qed

text \<open>
  C34: Open and Reopen accept the same three states, DRAFT, PENDING_EVIDENCE and LOST, and not
  only the one each is documented for. In particular Open takes a lost dispute back to OPEN
  without a reason and with its old resolution still in place.
\<close>

theorem Open_Reopen_sources:
  "((\<exists>d'. Open now (Some d) = Inr d') \<longleftrightarrow>
      d_State d \<in> {DisputeStateDraft, DisputeStatePendingEvidence, DisputeStateLost}) \<and>
   ((\<exists>d'. Reopen now (Some d) reason = Inr d') \<longleftrightarrow> TrimSpace reason \<noteq> '''' \<and>
      d_State d \<in> {DisputeStateDraft, DisputeStatePendingEvidence, DisputeStateLost}) \<and>
   (d_State d = DisputeStateLost \<longrightarrow>
      Open now (Some d) = Inr (d\<lparr> d_State := DisputeStateOpen, d_UpdatedAt := now \<rparr>))"
  by (auto simp: Open_Inr Reopen_Inr)

theorem Open_Reopen_sources_witness:
  "\<exists>d d'. d_State d = DisputeStateLost \<and> d_Resolution d = Some ''no'' \<and> Open 5 (Some d) = Inr d' \<and>
     d_State d' = DisputeStateOpen \<and> d_Resolution d' = Some ''no'' \<and> d_ReopenReason d' = None"
proof -
  define d where "d = \<lparr> d_ID = 1, d_ExceptionID = 2, d_Category = DisputeCategoryOther, d_State = DisputeStateLost,
      d_Description = ''why'', d_OpenedBy = ''me'', d_Resolution = Some ''no'', d_ReopenReason = None,
      d_Evidence = [], d_CreatedAt = 0, d_UpdatedAt = 0 \<rparr>"
  have "d_State d = DisputeStateLost" by (simp add: d_def)
  with Open_Reopen_sources [of 5 d "''x''"] show ?thesis
    by (intro exI [of _ d] exI [of _ "d\<lparr> d_State := DisputeStateOpen, d_UpdatedAt := 5 \<rparr>"]) (simp add: d_def)
qed

end
