(* ===== verification/Transactions.thy ===== *)
theory Transactions
  imports Prelude
begin

text \<open>
  Stateful code that can fail: an action takes the state of the world and returns an error or a
  value together with the new state. An error skips the rest of the action but does not undo
  what was done before it; only a database transaction does that (\<open>in_tx\<close>, the shape
  \<^verbatim>\<open>BeginTx ... defer Rollback ... Commit\<close> of the command services). The weakest precondition
  \<open>wp\<close> turns a claim about an action into claims about its parts, and the locale
  \<open>guarantee\<close> carries a reflexive and transitive relation on states through every action.
\<close>

type_synonym ('w, 'e, 'a) act = "'w \<Rightarrow> ('e + 'a) \<times> 'w"

definition aret :: "'a \<Rightarrow> ('w, 'e, 'a) act" where
  "aret a w = (Inr a, w)"

definition afail :: "'e \<Rightarrow> ('w, 'e, 'a) act" where
  "afail e w = (Inl e, w)"

definition alift :: "'e + 'a \<Rightarrow> ('w, 'e, 'a) act" where
  "alift r w = (r, w)"

definition acheck :: "'e option \<Rightarrow> ('w, 'e, unit) act" where
  "acheck c w = ((case c of None \<Rightarrow> Inr () | Some e \<Rightarrow> Inl e), w)"

definition aupdate :: "('w \<Rightarrow> 'w) \<Rightarrow> ('w, 'e, unit) act" where
  "aupdate f w = (Inr (), f w)"

definition aget :: "('w \<Rightarrow> 'a) \<Rightarrow> ('w, 'e, 'a) act" where
  "aget f w = (Inr (f w), w)"

definition abind :: "('w, 'e, 'a) act \<Rightarrow> ('a \<Rightarrow> ('w, 'e, 'b) act) \<Rightarrow> ('w, 'e, 'b) act" where
  "abind m f w = (case m w of (Inl e, w') \<Rightarrow> (Inl e, w') | (Inr a, w') \<Rightarrow> f a w')"

text \<open>\<open>acatch m h\<close> runs the handler on an error of \<open>m\<close>; \<open>atry m\<close> returns the outcome of \<open>m\<close> as
  a value, for calls whose error is only logged.\<close>

definition acatch :: "('w, 'e, 'a) act \<Rightarrow> ('e \<Rightarrow> ('w, 'e, 'a) act) \<Rightarrow> ('w, 'e, 'a) act" where
  "acatch m h w = (case m w of (Inl e, w') \<Rightarrow> h e w' | (Inr a, w') \<Rightarrow> (Inr a, w'))"

definition atry :: "('w, 'e, 'a) act \<Rightarrow> ('w, 'e, 'e + 'a) act" where
  "atry m w = (case m w of (r, w') \<Rightarrow> (Inr r, w'))"

text \<open>A transaction on the part of the world selected by \<open>get\<close>: when it cannot begin, when its
  body fails or when the commit fails, that part is as before.\<close>

definition in_tx :: "('w \<Rightarrow> 'd) \<Rightarrow> ('d \<Rightarrow> 'w \<Rightarrow> 'w) \<Rightarrow> 'e option \<Rightarrow> 'e option \<Rightarrow> ('d, 'e, 'a) act \<Rightarrow> ('w, 'e, 'a) act" where
  "in_tx get put begin_err commit_err body w =
     (case begin_err of Some e \<Rightarrow> (Inl e, w)
      | None \<Rightarrow>
          (case body (get w) of
             (Inl e, d) \<Rightarrow> (Inl e, w)
           | (Inr a, d) \<Rightarrow> (case commit_err of Some e \<Rightarrow> (Inl e, w) | None \<Rightarrow> (Inr a, put d w))))"

section \<open>Weakest preconditions\<close>

definition wp :: "('w, 'e, 'a) act \<Rightarrow> ('e + 'a \<Rightarrow> 'w \<Rightarrow> bool) \<Rightarrow> 'w \<Rightarrow> bool" where
  "wp m Q w = (case m w of (r, w') \<Rightarrow> Q r w')"

definition on_ok :: "('e \<Rightarrow> 'w \<Rightarrow> bool) \<Rightarrow> ('a \<Rightarrow> 'w \<Rightarrow> bool) \<Rightarrow> 'e + 'a \<Rightarrow> 'w \<Rightarrow> bool" where
  "on_ok F Q r w = (case r of Inl e \<Rightarrow> F e w | Inr a \<Rightarrow> Q a w)"

lemma on_ok_simps [simp]: "on_ok F Q (Inl e) = F e" "on_ok F Q (Inr a) = Q a"
  by (rule ext, simp add: on_ok_def)+

lemma wp_simps [simp]: "wp (aret a) Q = Q (Inr a)" "wp (afail e) Q = Q (Inl e)" "wp (alift r) Q = Q r"
  by (rule ext, simp add: wp_def aret_def afail_def alift_def)+

lemma wp_state [simp]:
  "wp (aupdate f) Q = (\<lambda>w. Q (Inr ()) (f w))" "wp (aget g) Q' = (\<lambda>w. Q' (Inr (g w)) w)"
  by (rule ext, simp add: wp_def aupdate_def aget_def)+

lemma wp_abind [simp]: "wp (abind m f) Q = wp m (on_ok (\<lambda>e. Q (Inl e)) (\<lambda>a. wp (f a) Q))"
  by (rule ext) (simp add: wp_def abind_def split: prod.splits sum.splits)

lemma wp_acatch [simp]: "wp (acatch m h) Q = wp m (on_ok (\<lambda>e. wp (h e) Q) (\<lambda>a. Q (Inr a)))"
  by (rule ext) (simp add: wp_def acatch_def split: prod.splits sum.splits)

lemma wp_atry [simp]: "wp (atry m) Q = wp m (\<lambda>r. Q (Inr r))"
  by (rule ext) (simp add: wp_def atry_def split: prod.splits)

lemma wp_acheck [simp]:
  "wp (acheck c) Q w \<longleftrightarrow> (c = None \<longrightarrow> Q (Inr ()) w) \<and> (\<forall>e. c = Some e \<longrightarrow> Q (Inl e) w)"
  by (cases c) (auto simp: wp_def acheck_def)

lemma wp_if [simp]: "wp (if b then m else n) Q w \<longleftrightarrow> (b \<longrightarrow> wp m Q w) \<and> (\<not> b \<longrightarrow> wp n Q w)"
  by simp

lemma wp_in_tx:
  "wp (in_tx get put b c body) Q w \<longleftrightarrow>
     (\<forall>e. b = Some e \<longrightarrow> Q (Inl e) w) \<and>
     (b = None \<longrightarrow> wp body (on_ok (\<lambda>e d. Q (Inl e) w)
        (\<lambda>a d. (\<forall>e. c = Some e \<longrightarrow> Q (Inl e) w) \<and> (c = None \<longrightarrow> Q (Inr a) (put d w)))) (get w))"
  by (auto simp: wp_def in_tx_def split: option.splits prod.splits sum.splits)

lemma wp_mono: "wp m Q w \<Longrightarrow> (\<And>r w'. Q r w' \<Longrightarrow> Q' r w') \<Longrightarrow> wp m Q' w"
  by (auto simp: wp_def)

lemma wp_True [simp]: "wp m (\<lambda>r w. True) w"
  by (auto simp: wp_def split: prod.splits)

lemma wp_conj: "wp m (\<lambda>r w. Q r w \<and> Q' r w) w \<longleftrightarrow> wp m Q w \<and> wp m Q' w"
  by (auto simp: wp_def)

lemma wp_snd: "wp m (\<lambda>r w'. P w') w \<longleftrightarrow> P (snd (m w))"
  by (auto simp: wp_def split: prod.splits)

lemma wpD: "wp m Q w \<Longrightarrow> m w = (r, w') \<Longrightarrow> Q r w'"
  by (simp add: wp_def)

lemma abind_assoc: "abind (abind m f) g = abind m (\<lambda>a. abind (f a) g)"
  by (rule ext) (simp add: abind_def split: prod.splits sum.splits)

lemma abind_aret [simp]: "abind (aret a) f = f a" "abind m aret = m"
  by (rule ext, simp add: abind_def aret_def split: prod.splits sum.splits)+

text \<open>A failing transaction leaves its part of the world alone.\<close>

lemma in_tx_rollback: "in_tx get put b c body w = (Inl e, w') \<Longrightarrow> w' = w"
  by (auto simp: in_tx_def split: option.splits prod.splits sum.splits)

section \<open>Guarantees\<close>

locale guarantee =
  fixes R :: "'w \<Rightarrow> 'w \<Rightarrow> bool"
  assumes R_refl: "R w w" and R_trans: "R w w' \<Longrightarrow> R w' w'' \<Longrightarrow> R w w''"
begin

lemma R_abind:
  assumes "R w (snd (m w))" "\<And>a w'. m w = (Inr a, w') \<Longrightarrow> R w' (snd (f a w'))"
  shows "R w (snd (abind m f w))"
  using assms by (auto simp: abind_def split: prod.splits sum.splits intro: R_trans)

text \<open>A loop that runs an action on each item keeps to the relation when every item does.\<close>

lemma R_fold:
  assumes "\<And>a w. a \<in> set as \<Longrightarrow> R w0 w \<Longrightarrow> R w (f a w)"
  shows "R w0 w \<Longrightarrow> R w0 (fold f as w)"
  using assms by (induction as arbitrary: w) (simp, metis (no_types, lifting) R_trans fold_simps(2) list.set_intros)

end

end
