(* ===== verification/Exception_Store.thy ===== *)
theory Exception_Store
  imports Exceptions Disputes Transactions
begin

text \<open>
  The world the exception commands act on: the tenant's database (exceptions, disputes, comments,
  the audit events and the streaming outbox), the streaming bus, the gateway to the ledger, the
  requests sent to external systems and the idempotency keys in Redis, with the repository operations of
  \<^verbatim>\<open>internal/exception/adapters\<close> and the event emission of \<^verbatim>\<open>internal/streaming/emission\<close>.

  What the commands cannot see is in the environment \<open>env\<close>: the clock at each call, whether an
  infrastructure call fails, the state of the read replica, and what other processes commit to the
  database before each transaction of the command (\<open>v_others\<close>). A row lock
  (\<^verbatim>\<open>FOR UPDATE\<close>, or the row lock of an \<^verbatim>\<open>UPDATE\<close>) keeps others from changing a row between the
  statements of one transaction, so a transaction body is one step. A failed commit rolls back.
\<close>

section \<open>Errors\<close>

datatype missing_dependency =
    ErrNilExceptionRepository | ErrNilResolutionExecutor | ErrNilAuditPublisher | ErrNilActorExtractor
  | ErrNilInfraProvider | ErrNilIdempotencyRepository | ErrNilDisputeRepository | ErrNilCallbackRateLimiter
  | ErrNilCommentRepository | ErrNilExternalConnector

datatype usecase_error =
    ErrExceptionIDRequired | ErrActorRequired | ErrZeroAdjustmentAmount | ErrNegativeAdjustmentAmount
  | ErrInvalidCurrency_code | ErrDisputeIDRequired | ErrDisputeCategoryRequired
  | ErrDisputeDescriptionRequired | ErrDisputeCommentRequired | ErrDisputeResolutionRequired
  | ErrUnexpectedNilResult | ErrBulkEmptyIDs | ErrBulkTooManyIDs | ErrBulkAssigneeEmpty
  | ErrBulkResolutionEmpty | ErrCommentIDRequired | ErrCommentContentEmpty | ErrExceptionAlreadyResolved
  | ErrNotCommentAuthor | ErrTargetSystemRequired | ErrUnsupportedTargetSystem
  | ErrDispatchConnectorNotConfigured | ErrBulkTargetSystemEmpty

datatype callback_error =
    ErrCallbackExternalSystem | ErrCallbackExternalIssueID | ErrCallbackStatusRequired
  | ErrCallbackAssigneeRequired | ErrCallbackStatusUnsupported | ErrCallbackOpenNotValidTarget
  | ErrCallbackRateLimitExceeded | ErrCallbackInProgress | ErrCallbackRetryable
  | ErrEmptyIdempotencyKey | ErrInvalidIdempotencyKey | ErrPayloadTime string

datatype connector_error =
    ErrConnectorNotConfigured | ErrUnsupportedTarget | ErrWebhookMissingSharedSecret | ErrCircuitBreakerOpen
  | ErrHTTPClientDo string | ErrServerError int | ErrNonRetryableStatus int | ErrRetryableHTTPStatus int
  | ErrMaxRetriesExceeded | ErrSleepInterrupted | ErrDecodeResponse

datatype cmd_error =
    Infra string | Missing missing_dependency | Usecase usecase_error | Callback callback_error
  | Entity entity_error | Status status_error | Severity severity_error | Reason reason_error
  | Dispute_error dispute_error | ErrDisputeNotFound | ErrConcurrentModification
  | ErrCriticalOutboxTxRequired | ErrTenantIDMissing | Connector connector_error

section \<open>Data\<close>

record AuditEvent =
  ae_ExceptionID :: uuid
  ae_Action :: string
  ae_Actor :: string
  ae_Notes :: string
  ae_ReasonCode :: "string option"
  ae_OccurredAt :: time
  ae_Metadata :: "string \<Rightarrow> string option"

datatype payload_value = PString string | PInt int | PBool bool | PTime time | PUUID uuid

record StreamEvent =
  se_DefinitionKey :: string
  se_Subject :: uuid
  se_Payload :: "string \<Rightarrow> payload_value option"

record db =
  db_exceptions :: "uuid \<Rightarrow> Exception option"
  db_disputes :: "uuid \<Rightarrow> Dispute option"
  db_comments :: "uuid \<Rightarrow> ExceptionComment option"
  db_audit :: "AuditEvent list"
  db_outbox :: "StreamEvent list"

record 'd AdjustmentInput =
  ai_Amount :: 'd
  ai_Currency :: string
  ai_EffectiveAt :: time
  ai_Reason :: AdjustmentReasonCode
  ai_Notes :: string

datatype 'd gateway_call =
    GForceMatch uuid string OverrideReason
  | GAdjustEntry uuid "'d AdjustmentInput"

datatype IdempotencyStatus =
    IdempotencyStatusUnknown | IdempotencyStatusPending | IdempotencyStatusComplete | IdempotencyStatusFailed

text \<open>What is sent to an external system: the JSON body is the record it encodes.\<close>

record dispatchPayload =
  dp_ExceptionID :: string
  dp_TransactionID :: string
  dp_Severity :: string
  dp_Status :: string
  dp_Reason :: "string option"
  dp_Target :: string
  dp_Summary :: string
  dp_Description :: string
  dp_AgeDays :: int
  dp_AssignedTo :: "string option"
  dp_DueAt :: "string option"

record HttpRequest =
  hq_URL :: string
  hq_Authorization :: "string option"
  hq_IdempotencyKey :: string
  hq_Signature :: "string option"
  hq_Body :: dispatchPayload

record 'd world =
  w_db :: db
  w_stream :: "StreamEvent list"
  w_gateway :: "'d gateway_call list"
  w_idem :: "string \<Rightarrow> IdempotencyStatus option"
  w_http :: "HttpRequest list"

text \<open>The places at which infrastructure is called.\<close>

datatype site =
    SFind | SPending | SGateway | SRevert | SBegin | SLease | SUpdate | SAudit | SEmit | SCommit
  | SAcquire | SCached | SReacquire | SComplete | SFailed | SRateLimit | SCreate | SOpen

record env =
  v_actor :: string
  v_tenant :: string
  v_clock :: "site \<Rightarrow> time"
  v_uuid :: uuid
  v_fault :: "site \<Rightarrow> uuid \<Rightarrow> string option"
  v_allowed :: bool
  v_replica :: db
  v_others :: "site \<Rightarrow> uuid \<Rightarrow> db \<Rightarrow> db"

definition fault :: "env \<Rightarrow> site \<Rightarrow> uuid \<Rightarrow> cmd_error option" where
  "fault env s i = map_option Infra (v_fault env s i)"

section \<open>The use case and its dependencies\<close>

text \<open>Which dependencies are wired; a nil one is \<^const>\<open>False\<close>.\<close>

record ExceptionUseCase =
  uc_exceptionRepo :: bool
  uc_actorExtractor :: bool
  uc_auditPublisher :: bool
  uc_infraProvider :: bool
  uc_resolutionExecutor :: bool
  uc_disputeRepo :: bool
  uc_commentRepo :: bool
  uc_connector :: bool
  uc_idempotencyRepo :: bool
  uc_rateLimiter :: bool
  uc_streamEmitter :: bool

datatype UseCaseOption =
    WithResolutionExecutor bool | WithDisputeRepository bool | WithCommentRepository bool
  | WithExternalConnector bool | WithIdempotencyRepository bool | WithCallbackRateLimiter bool
  | WithStreamingEmitter bool

primrec apply_usecase_option :: "UseCaseOption \<Rightarrow> ExceptionUseCase \<Rightarrow> ExceptionUseCase" where
  "apply_usecase_option (WithResolutionExecutor b) uc = (if b then uc\<lparr> uc_resolutionExecutor := True \<rparr> else uc)"
| "apply_usecase_option (WithDisputeRepository b) uc = (if b then uc\<lparr> uc_disputeRepo := True \<rparr> else uc)"
| "apply_usecase_option (WithCommentRepository b) uc = (if b then uc\<lparr> uc_commentRepo := True \<rparr> else uc)"
| "apply_usecase_option (WithExternalConnector b) uc = (if b then uc\<lparr> uc_connector := True \<rparr> else uc)"
| "apply_usecase_option (WithIdempotencyRepository b) uc = (if b then uc\<lparr> uc_idempotencyRepo := True \<rparr> else uc)"
| "apply_usecase_option (WithCallbackRateLimiter b) uc = (if b then uc\<lparr> uc_rateLimiter := True \<rparr> else uc)"
| "apply_usecase_option (WithStreamingEmitter b) uc = (if b then uc\<lparr> uc_streamEmitter := True \<rparr> else uc)"

definition NewExceptionUseCase :: "bool \<Rightarrow> bool \<Rightarrow> bool \<Rightarrow> bool \<Rightarrow> UseCaseOption list \<Rightarrow> missing_dependency + ExceptionUseCase" where
  "NewExceptionUseCase repo actor audit infraProvider opts =
     (if \<not> repo then Inl ErrNilExceptionRepository
      else if \<not> actor then Inl ErrNilActorExtractor
      else if \<not> audit then Inl ErrNilAuditPublisher
      else if \<not> infraProvider then Inl ErrNilInfraProvider
      else Inr (fold apply_usecase_option opts
             \<lparr> uc_exceptionRepo = True, uc_actorExtractor = True, uc_auditPublisher = True,
               uc_infraProvider = True, uc_resolutionExecutor = False, uc_disputeRepo = False,
               uc_commentRepo = False, uc_connector = False, uc_idempotencyRepo = False,
               uc_rateLimiter = False, uc_streamEmitter = False \<rparr>))"

section \<open>Transactions\<close>

text \<open>A transaction of a command, on the database as the other processes left it.
  \<open>session\<close> is the repositories' own transaction (\<^verbatim>\<open>WithTenantTxProvider\<close>), \<open>critical_tx\<close> the one
  the commands begin themselves and whose lease they validate.\<close>

definition interfere :: "env \<Rightarrow> site \<Rightarrow> uuid \<Rightarrow> ('d world, cmd_error, unit) act" where
  "interfere env s i = aupdate (\<lambda>w. w\<lparr> w_db := v_others env s i (w_db w) \<rparr>)"

definition put_db :: "db \<Rightarrow> 'd world \<Rightarrow> 'd world" where
  "put_db d w = w\<lparr> w_db := d \<rparr>"

definition session :: "env \<Rightarrow> site \<Rightarrow> uuid \<Rightarrow> (db, cmd_error, 'a) act \<Rightarrow> ('d world, cmd_error, 'a) act" where
  "session env s i body = abind (interfere env s i) (\<lambda>_. in_tx w_db put_db (fault env s i) None body)"

definition validateCriticalTxLease :: "env \<Rightarrow> uuid \<Rightarrow> cmd_error option" where
  "validateCriticalTxLease env i = map_option (\<lambda>_. ErrCriticalOutboxTxRequired) (v_fault env SLease i)"

definition critical_tx :: "env \<Rightarrow> uuid \<Rightarrow> (db, cmd_error, 'a) act \<Rightarrow> ('d world, cmd_error, 'a) act" where
  "critical_tx env i body =
     abind (interfere env SBegin i) (\<lambda>_. in_tx w_db put_db (fault env SBegin i) (fault env SCommit i)
       (abind (acheck (validateCriticalTxLease env i)) (\<lambda>_. body)))"

section \<open>Exceptions\<close>

text \<open>\<^verbatim>\<open>scanException\<close> reads the columns back; the severity and the status are parsed.\<close>

definition scanException :: "'d ext \<Rightarrow> Exception \<Rightarrow> cmd_error + Exception" where
  "scanException E row =
     (case ParseExceptionSeverity E (ExceptionSeverity_string (x_Severity row)) of
        Inl e \<Rightarrow> Inl (Severity e)
      | Inr sev \<Rightarrow>
          (case ParseExceptionStatus E (ExceptionStatus_string (x_Status row)) of
             Inl e \<Rightarrow> Inl (Status e)
           | Inr st \<Rightarrow> Inr (row\<lparr> x_Severity := sev, x_Status := st \<rparr>)))"

text \<open>\<^verbatim>\<open>UPDATE ... SET ..., version = version + 1 WHERE id = $1 AND version = $13\<close>\<close>

definition updated_row :: "time \<Rightarrow> Exception \<Rightarrow> Exception \<Rightarrow> Exception" where
  "updated_row now x row = row\<lparr>
     x_Severity := x_Severity x, x_Status := x_Status x, x_ExternalSystem := x_ExternalSystem x,
     x_ExternalIssueID := x_ExternalIssueID x, x_AssignedTo := x_AssignedTo x, x_DueAt := x_DueAt x,
     x_ResolutionNotes := x_ResolutionNotes x, x_ResolutionType := x_ResolutionType x,
     x_ResolutionReason := x_ResolutionReason x, x_Reason := x_Reason x,
     x_Version := x_Version row + 1, x_UpdatedAt := now \<rparr>"

definition executeUpdate :: "'d ext \<Rightarrow> time \<Rightarrow> Exception \<Rightarrow> (db, cmd_error, Exception) act" where
  "executeUpdate E now x d =
     (case db_exceptions d (x_ID x) of
        None \<Rightarrow> (Inl (Entity ErrExceptionNotFound), d)
      | Some row \<Rightarrow>
          if x_Version row \<noteq> x_Version x then (Inl ErrConcurrentModification, d)
          else (scanException E (updated_row now x row),
                d\<lparr> db_exceptions := (db_exceptions d)(x_ID x \<mapsto> updated_row now x row) \<rparr>))"

definition Update :: "'d ext \<Rightarrow> env \<Rightarrow> site \<Rightarrow> Exception \<Rightarrow> ('d world, cmd_error, Exception) act" where
  "Update E env s x = session env s (x_ID x) (executeUpdate E (v_clock env s) x)"

definition UpdateWithTx :: "'d ext \<Rightarrow> env \<Rightarrow> Exception \<Rightarrow> (db, cmd_error, Exception) act" where
  "UpdateWithTx E env x = abind (acheck (fault env SUpdate (x_ID x))) (\<lambda>_. executeUpdate E (v_clock env SUpdate) x)"

definition FindByID :: "'d ext \<Rightarrow> env \<Rightarrow> uuid \<Rightarrow> ('d world, cmd_error, Exception) act" where
  "FindByID E env i =
     abind (acheck (fault env SFind i)) (\<lambda>_.
       alift (case db_exceptions (v_replica env) i of
                None \<Rightarrow> Inl (Entity ErrExceptionNotFound) | Some row \<Rightarrow> scanException E row))"

section \<open>Audit and streaming\<close>

definition PublishExceptionEventWithTx :: "env \<Rightarrow> AuditEvent \<Rightarrow> (db, cmd_error, unit) act" where
  "PublishExceptionEventWithTx env ev =
     abind (acheck (fault env SAudit (ae_ExceptionID ev))) (\<lambda>_.
       aupdate (\<lambda>d. d\<lparr> db_audit := db_audit d @ [ev] \<rparr>))"

definition FormatTime :: "time \<Rightarrow> time \<Rightarrow> payload_value" where
  "FormatTime now t = PTime (if t = zero_time then now else t)"

text \<open>\<^verbatim>\<open>emission.Emit\<close> with and without a transaction: the event goes to the outbox of the
  transaction, or straight to the bus.\<close>

definition emit_error :: "env \<Rightarrow> ExceptionUseCase \<Rightarrow> bool \<Rightarrow> uuid \<Rightarrow> cmd_error option" where
  "emit_error env uc requireTx subject =
     (if \<not> uc_streamEmitter uc then (if requireTx then Some ErrCriticalOutboxTxRequired else None)
      else if v_tenant env = '''' then Some ErrTenantIDMissing
      else fault env SEmit subject)"

definition EmitWithTx :: "env \<Rightarrow> ExceptionUseCase \<Rightarrow> StreamEvent \<Rightarrow> (db, cmd_error, unit) act" where
  "EmitWithTx env uc ev =
     abind (acheck (emit_error env uc True (se_Subject ev))) (\<lambda>_.
       aupdate (\<lambda>d. d\<lparr> db_outbox := db_outbox d @ [ev] \<rparr>))"

definition Emit :: "env \<Rightarrow> ExceptionUseCase \<Rightarrow> StreamEvent \<Rightarrow> ('d world, cmd_error, unit) act" where
  "Emit env uc ev =
     abind (acheck (emit_error env uc False (se_Subject ev))) (\<lambda>_.
       if uc_streamEmitter uc then aupdate (\<lambda>w. w\<lparr> w_stream := w_stream w @ [ev] \<rparr>) else aret ())"

definition exceptionPayload :: "Exception \<Rightarrow> (string \<Rightarrow> payload_value option) \<Rightarrow> string \<Rightarrow> payload_value option" where
  "exceptionPayload x extra =
     (let base = [''exception_id'' \<mapsto> PUUID (x_ID x),
                  ''status'' \<mapsto> PString (ExceptionStatus_string (x_Status x)),
                  ''version'' \<mapsto> PInt (x_Version x)];
          typed = (case x_ResolutionType x of None \<Rightarrow> base | Some t \<Rightarrow> base(''resolution_type'' \<mapsto> PString t));
          full = (if x_TransactionID x \<noteq> 0 then typed(''transaction_id'' \<mapsto> PUUID (x_TransactionID x)) else typed)
      in full ++ extra)"

definition emitExceptionCritical :: "env \<Rightarrow> ExceptionUseCase \<Rightarrow> string \<Rightarrow> Exception \<Rightarrow> (string \<Rightarrow> payload_value option) \<Rightarrow>
    (db, cmd_error, unit) act" where
  "emitExceptionCritical env uc key x extra =
     EmitWithTx env uc \<lparr> se_DefinitionKey = key, se_Subject = x_ID x, se_Payload = exceptionPayload x extra \<rparr>"

definition emitExceptionImportant :: "env \<Rightarrow> ExceptionUseCase \<Rightarrow> string \<Rightarrow> Exception \<Rightarrow> (string \<Rightarrow> payload_value option) \<Rightarrow>
    ('d world, cmd_error, unit) act" where
  "emitExceptionImportant env uc key x extra =
     abind (atry (Emit env uc \<lparr> se_DefinitionKey = key, se_Subject = x_ID x, se_Payload = exceptionPayload x extra \<rparr>))
       (\<lambda>_. aret ())"

end
