(* ===== verification/Store_Protocol.thy ===== *)
theory Store_Protocol
  imports Exception_Store "HOL-Library.Sublist"
begin

text \<open>
  The contract every exception command keeps with the database, whatever fails and whatever other
  processes do in between. \<open>db_ok\<close> is the invariant of a database state, \<open>follows\<close> the relation
  between an earlier and a later state: rows are never lost, a row that changes gets a larger
  version unless the matching engine refreshes its severity and reason, statuses move along the lifecycle, what a resolved exception was resolved with is frozen,
  and an exception is resolved only together with an audit event; disputes likewise. Under this
  contract the versioned \<^verbatim>\<open>UPDATE\<close> is a compare-and-swap of the row up to that refresh, however
  stale the replica was that the row was read from.
\<close>

definition resolution_actions :: "string list" where
  "resolution_actions = [''FORCE_MATCH'', ''ADJUST_ENTRY'', ''BULK_RESOLVE'', ''CALLBACK_PROCESSED'']"

definition recorded :: "AuditEvent list \<Rightarrow> uuid \<Rightarrow> bool" where
  "recorded evs i \<longleftrightarrow> (\<exists>ev \<in> set evs. ae_ExceptionID ev = i \<and> ae_Action ev \<in> set resolution_actions)"

definition same_resolution :: "Exception \<Rightarrow> Exception \<Rightarrow> bool" where
  "same_resolution x y \<longleftrightarrow> x_ResolutionNotes y = x_ResolutionNotes x \<and> x_ResolutionType y = x_ResolutionType x \<and>
     x_ResolutionReason y = x_ResolutionReason x"

definition row_step :: "Exception \<Rightarrow> Exception \<Rightarrow> bool" where
  "row_step x y \<longleftrightarrow> x_ID y = x_ID x \<and> x_TransactionID y = x_TransactionID x \<and> x_CreatedAt y = x_CreatedAt x \<and>
     exception_moves\<^sup>*\<^sup>* (x_Status x) (x_Status y) \<and>
     (x_Status x = ExceptionStatusResolved \<longrightarrow> same_resolution x y)"

text \<open>What the upsert of the matching engine may change in a row without giving it a new version.\<close>

definition refreshed :: "Exception \<Rightarrow> Exception \<Rightarrow> bool" where
  "refreshed x y \<longleftrightarrow> (\<exists>severity reason now. y = x\<lparr> x_Severity := severity, x_Reason := reason, x_UpdatedAt := now \<rparr>)"

definition row_le :: "Exception \<Rightarrow> Exception \<Rightarrow> bool" where
  "row_le x y \<longleftrightarrow> row_step x y \<and> (refreshed x y \<or> x_Version x < x_Version y)"

definition dispute_le :: "Dispute \<Rightarrow> Dispute \<Rightarrow> bool" where
  "dispute_le D D' \<longleftrightarrow> d_ID D' = d_ID D \<and> d_ExceptionID D' = d_ExceptionID D \<and>
     dispute_moves\<^sup>*\<^sup>* (d_State D) (d_State D') \<and> prefix (d_Evidence D) (d_Evidence D') \<and>
     (d_State D = DisputeStateWon \<longrightarrow> D' = D)"

definition db_ok :: "url_parser \<Rightarrow> db \<Rightarrow> bool" where
  "db_ok parse d \<longleftrightarrow>
     (\<forall>i x. db_exceptions d i = Some x \<longrightarrow> x_ID x = i \<and> exception_ok x \<and>
        (x_Status x = ExceptionStatusResolved \<longrightarrow> recorded (db_audit d) i)) \<and>
     (\<forall>i D. db_disputes d i = Some D \<longrightarrow> d_ID D = i \<and> dispute_ok parse D)"

definition rows_le :: "AuditEvent list \<Rightarrow> db \<Rightarrow> db \<Rightarrow> bool" where
  "rows_le evs d d' \<longleftrightarrow>
     (\<forall>i x. db_exceptions d i = Some x \<longrightarrow> (\<exists>y. db_exceptions d' i = Some y \<and> row_le x y \<and>
        (x_Status x \<noteq> ExceptionStatusResolved \<longrightarrow> x_Status y = ExceptionStatusResolved \<longrightarrow> recorded evs i)))"

definition follows :: "url_parser \<Rightarrow> db \<Rightarrow> db \<Rightarrow> bool" where
  "follows parse d d' \<longleftrightarrow>
     (\<exists>evs. db_audit d' = db_audit d @ evs \<and> rows_le evs d d') \<and>
     prefix (db_outbox d) (db_outbox d') \<and>
     (\<forall>i D. db_disputes d i = Some D \<longrightarrow> (\<exists>D'. db_disputes d' i = Some D' \<and> dispute_le D D')) \<and>
     (db_ok parse d \<longrightarrow> db_ok parse d')"

text \<open>The environment of a command: the replica is an earlier state of the database, and other
  processes keep the contract too.\<close>

definition serves :: "url_parser \<Rightarrow> env \<Rightarrow> 'd world \<Rightarrow> bool" where
  "serves parse env w \<longleftrightarrow> db_ok parse (v_replica env) \<and> follows parse (v_replica env) (w_db w) \<and>
     (\<forall>s i d. db_ok parse d \<longrightarrow> follows parse d (v_others env s i d))"

section \<open>The contract is a preorder\<close>

lemma recorded_append [simp]: "recorded (as @ bs) i \<longleftrightarrow> recorded as i \<or> recorded bs i"
  by (auto simp: recorded_def)

lemma recorded_Nil [simp]: "\<not> recorded [] i"
  by (simp add: recorded_def)

lemma resolved_final: "exception_moves\<^sup>*\<^sup>* ExceptionStatusResolved s \<longleftrightarrow> s = ExceptionStatusResolved"
proof
  show "exception_moves\<^sup>*\<^sup>* ExceptionStatusResolved s \<Longrightarrow> s = ExceptionStatusResolved"
    by (erule converse_rtranclpE) (simp_all add: exception_moves_def allowedResolutionTransitions_def)
qed simp

lemma row_step_resolved: "row_step x y \<Longrightarrow> x_Status x = ExceptionStatusResolved \<Longrightarrow> x_Status y = ExceptionStatusResolved"
  by (simp add: row_step_def resolved_final)

lemma row_step_refl [simp]: "row_step x x"
  by (simp add: row_step_def same_resolution_def)

lemma row_step_trans: "row_step x y \<Longrightarrow> row_step y z \<Longrightarrow> row_step x z"
  using row_step_resolved [of x y]
  by (auto simp: row_step_def same_resolution_def elim: rtranclp_trans)

lemma refreshed_refl [simp]: "refreshed x x"
  unfolding refreshed_def by (rule exI [of _ "x_Severity x"], rule exI [of _ "x_Reason x"], rule exI [of _ "x_UpdatedAt x"]) simp

lemma refreshed_sel:
  assumes "refreshed x y"
  shows "x_ID y = x_ID x" "x_TransactionID y = x_TransactionID x" "x_CreatedAt y = x_CreatedAt x"
    and "x_Status y = x_Status x" "x_Version y = x_Version x" "same_resolution x y"
  using assms by (auto simp: refreshed_def same_resolution_def)

lemma refreshed_trans:
  assumes "refreshed x y" "refreshed y z"
  shows "refreshed x z"
proof -
  from assms obtain severity reason now where "z = x\<lparr> x_Severity := severity, x_Reason := reason, x_UpdatedAt := now \<rparr>"
    by (auto simp: refreshed_def)
  then show ?thesis unfolding refreshed_def by blast
qed

lemma refreshed_row_step: "refreshed x y \<Longrightarrow> row_step x y"
  by (simp add: refreshed_sel row_step_def)

lemma refreshed_step: "refreshed x y \<Longrightarrow> row_step x z \<Longrightarrow> row_step y z"
  using refreshed_sel [of x y] by (auto simp: row_step_def same_resolution_def)

lemma row_le_refl [simp]: "row_le x x"
  by (simp add: row_le_def)

lemma row_le_trans: "row_le x y \<Longrightarrow> row_le y z \<Longrightarrow> row_le x z"
  unfolding row_le_def using row_step_trans [of x y z] refreshed_trans [of x y z] refreshed_sel(5) [of x y]
    refreshed_sel(5) [of y z] by force

lemma row_le_version: "row_le x y \<Longrightarrow> x_Version x \<le> x_Version y"
  by (auto simp: row_le_def dest: refreshed_sel)

lemma dispute_le_refl [simp]: "dispute_le D D"
  by (simp add: dispute_le_def)

lemma dispute_le_trans: "dispute_le D D' \<Longrightarrow> dispute_le D' D'' \<Longrightarrow> dispute_le D D''"
  by (auto simp: dispute_le_def elim: rtranclp_trans)

lemma rows_le_trans:
  assumes "rows_le evs d d'" "rows_le evs' d' d''"
  shows "rows_le (evs @ evs') d d''"
  unfolding rows_le_def
proof (intro allI impI)
  fix i x assume "db_exceptions d i = Some x"
  with assms(1) obtain y where y: "db_exceptions d' i = Some y" "row_le x y"
      "x_Status x \<noteq> ExceptionStatusResolved \<longrightarrow> x_Status y = ExceptionStatusResolved \<longrightarrow> recorded evs i"
    unfolding rows_le_def by blast
  with assms(2) obtain z where z: "db_exceptions d'' i = Some z" "row_le y z"
      "x_Status y \<noteq> ExceptionStatusResolved \<longrightarrow> x_Status z = ExceptionStatusResolved \<longrightarrow> recorded evs' i"
    unfolding rows_le_def by blast
  with y show "\<exists>z. db_exceptions d'' i = Some z \<and> row_le x z \<and>
      (x_Status x \<noteq> ExceptionStatusResolved \<longrightarrow> x_Status z = ExceptionStatusResolved \<longrightarrow> recorded (evs @ evs') i)"
    using row_le_trans [of x y z] by auto
qed

lemma follows_refl [simp]: "follows parse d d"
  by (auto simp: follows_def rows_le_def intro!: exI [of _ "[]"])

lemma follows_trans:
  assumes "follows parse d d'" "follows parse d' d''"
  shows "follows parse d d''"
proof -
  from assms obtain evs evs' where "db_audit d' = db_audit d @ evs" "rows_le evs d d'"
      "db_audit d'' = db_audit d' @ evs'" "rows_le evs' d' d''"
    unfolding follows_def by blast
  then have "\<exists>evs. db_audit d'' = db_audit d @ evs \<and> rows_le evs d d''"
    using rows_le_trans by fastforce
  moreover have "\<exists>D''. db_disputes d'' i = Some D'' \<and> dispute_le D D''" if "db_disputes d i = Some D" for i D
    using assms that unfolding follows_def by (meson dispute_le_trans)
  moreover have "prefix (db_outbox d) (db_outbox d'')" "db_ok parse d \<longrightarrow> db_ok parse d''"
    using assms unfolding follows_def by (auto dest: prefix_order.trans)
  ultimately show ?thesis unfolding follows_def by blast
qed

interpretation contract: guarantee "follows parse"
  by unfold_locales (auto intro: follows_trans)

lemma follows_ok: "follows parse d d' \<Longrightarrow> db_ok parse d \<Longrightarrow> db_ok parse d'"
  by (simp add: follows_def)

lemma follows_row:
  assumes "follows parse d d'" "db_exceptions d i = Some x"
  obtains y where "db_exceptions d' i = Some y" "row_le x y"
  using assms unfolding follows_def rows_le_def by blast

section \<open>The entity operations keep the contract\<close>

lemma exception_step_row_step:
  assumes "exception_ok x" "exception_step x e = Inr y"
  shows "row_step x y \<and> x_Version y = x_Version x \<and> exception_ok y"
proof -
  have "x_Status x \<noteq> ExceptionStatusResolved"
    using exc.final_reject [OF assms(1), of e] assms(2) by (auto simp: exception_final_def)
  moreover have "exception_moves\<^sup>*\<^sup>* (x_Status x) (x_Status y)" "exception_ok y"
    using exc.step_allowed [OF assms] exc.step_inv [OF assms] by auto
  moreover have "x_ID y = x_ID x \<and> x_TransactionID y = x_TransactionID x \<and> x_CreatedAt y = x_CreatedAt x \<and>
      x_Version y = x_Version x"
    using assms(2) by (cases rule: exception_step_cases) (auto simp: exception_inv resolved_def Let_def)
  ultimately show ?thesis by (simp add: row_step_def)
qed

lemma dispute_step_le:
  assumes "dispute_ok parse D" "dispute_step parse D e = Inr D'"
  shows "dispute_le D D' \<and> dispute_ok parse D'"
proof -
  have "d_State D \<noteq> DisputeStateWon"
    using disp.final_reject [OF assms(1), of e] assms(2) by (auto simp: dispute_final_def)
  moreover have "dispute_moves\<^sup>*\<^sup>* (d_State D) (d_State D')" "dispute_ok parse D'"
    using disp.step_allowed [OF assms] disp.step_inv [OF assms] by auto
  moreover have "d_ID D' = d_ID D \<and> d_ExceptionID D' = d_ExceptionID D \<and> prefix (d_Evidence D) (d_Evidence D')"
    using assms(2) by (cases rule: dispute_step_cases) (auto simp: dispute_inv)
  ultimately show ?thesis by (simp add: dispute_le_def)
qed

section \<open>The versioned update is a compare-and-swap\<close>

text \<open>The row an update writes when the row it was computed from is still current.\<close>

definition bump :: "time \<Rightarrow> Exception \<Rightarrow> Exception" where
  "bump now x = x\<lparr> x_Version := x_Version x + 1, x_UpdatedAt := now \<rparr>"

lemma bump_sel [simp]:
  "x_ID (bump now x) = x_ID x" "x_Status (bump now x) = x_Status x" "x_Version (bump now x) = x_Version x + 1"
  "x_TransactionID (bump now x) = x_TransactionID x" "x_CreatedAt (bump now x) = x_CreatedAt x"
  "exception_ok (bump now x) = exception_ok x" "same_resolution y (bump now x) = same_resolution y x"
  by (simp_all add: bump_def exception_ok_def same_resolution_def)

lemma row_step_bump [simp]: "row_step y (bump now x) = row_step y x"
  by (simp add: row_step_def)

lemma updated_row_bump: "row_step row x \<Longrightarrow> x_Version x = x_Version row \<Longrightarrow> updated_row now x row = bump now x"
  by (simp add: updated_row_def bump_def row_step_def)

lemma scanException_valid:
  assumes "externals E" "exception_ok x"
  shows "scanException E x = Inr x"
proof -
  have sev: "ParseExceptionSeverity E (ExceptionSeverity_string s) = Inr s" if "ExceptionSeverity_IsValid s" for s
    using that externals.to_upper_ascii [OF assms(1)]
    by (cases s) (simp_all add: ParseExceptionSeverity_def ExceptionSeverity_string_def ExceptionSeverity_of_def
        ExceptionSeverity_IsValid_def TrimSpace_visible visible_def is_ascii_def ascii_upper_def)
  have st: "ParseExceptionStatus E (ExceptionStatus_string s) = Inr s" if "ExceptionStatus_IsValid s" for s
    using that externals.to_upper_ascii [OF assms(1)]
    by (cases s) (simp_all add: ParseExceptionStatus_def ExceptionStatus_string_def ExceptionStatus_of_def
        ExceptionStatus_IsValid_def TrimSpace_visible visible_def is_ascii_def ascii_upper_def)
  from assms(2) show ?thesis by (simp add: scanException_def sev st exception_ok_def)
qed

lemma executeUpdate_cas:
  assumes "externals E" "follows parse d0 d" "db_exceptions d0 (x_ID x0) = Some x0"
    and "row_step x0 x" "x_Version x = x_Version x0" "exception_ok x"
  shows "executeUpdate E now x d =
    (if \<exists>row. db_exceptions d (x_ID x) = Some row \<and> refreshed x0 row
     then (Inr (bump now x), d\<lparr> db_exceptions := (db_exceptions d)(x_ID x \<mapsto> bump now x) \<rparr>)
     else (Inl ErrConcurrentModification, d))"
proof -
  have i: "x_ID x = x_ID x0" using assms(4) by (simp add: row_step_def)
  from assms(2,3) obtain y where y: "db_exceptions d (x_ID x0) = Some y" "row_le x0 y" by (rule follows_row)
  show ?thesis
  proof (cases "refreshed x0 y")
    case True
    with y i assms(1,5,6) refreshed_step [OF True assms(4)] refreshed_sel(5) [OF True] show ?thesis
      by (simp add: executeUpdate_def updated_row_bump scanException_valid)
  next
    case False
    with y i assms(5) show ?thesis by (auto simp: executeUpdate_def row_le_def)
  qed
qed

text \<open>Writing the new row keeps the contract, provided the transaction that resolves an exception
  records it.\<close>

lemma follows_write:
  assumes "db_exceptions d (x_ID x) = Some x0" "row_step x0 x" "x_Version x = x_Version x0" "exception_ok x"
    and "x_Status x = ExceptionStatusResolved \<longrightarrow> x_Status x0 = ExceptionStatusResolved \<or> recorded evs (x_ID x)"
    and "db_audit d' = db_audit d @ evs" "prefix (db_outbox d) (db_outbox d')" "db_disputes d' = db_disputes d"
    and "db_exceptions d' = (db_exceptions d)(x_ID x \<mapsto> bump now x)"
  shows "follows parse d d'"
proof -
  have "row_le x0 (bump now x)" using assms(2,3) by (simp add: row_le_def)
  with assms have "rows_le evs d d'" unfolding rows_le_def by (auto intro: row_le_refl)
  moreover have "db_ok parse d'" if "db_ok parse d"
    using that assms unfolding db_ok_def by (auto split: if_splits)
  ultimately show ?thesis using assms(6-8) by (auto simp: follows_def)
qed

lemma follows_append:
  assumes "db_exceptions d' = db_exceptions d" "db_audit d' = db_audit d @ evs"
    and "prefix (db_outbox d) (db_outbox d')" "db_disputes d' = db_disputes d"
  shows "follows parse d d'"
  using assms unfolding follows_def rows_le_def db_ok_def by fastforce

section \<open>Rules for transactions\<close>

lemma wp_interfere [simp]: "wp (interfere env s i) Q w = Q (Inr ()) (w\<lparr> w_db := v_others env s i (w_db w) \<rparr>)"
  by (simp add: interfere_def)

lemma put_db_sel [simp]:
  "w_db (put_db d w) = d" "w_stream (put_db d w) = w_stream w" "w_gateway (put_db d w) = w_gateway w"
  "w_idem (put_db d w) = w_idem w" "w_http (put_db d w) = w_http w"
  by (simp_all add: put_db_def)

text \<open>Whatever goes wrong in a transaction, only what others did remains.\<close>

lemma wp_sessionI:
  assumes "\<And>e. Q (Inl e) (w\<lparr> w_db := v_others env s i (w_db w) \<rparr>)"
    and "wp body (on_ok (\<lambda>_ _. True) (\<lambda>a d. Q (Inr a) (w\<lparr> w_db := d \<rparr>))) (v_others env s i (w_db w))"
  shows "wp (session env s i body) Q w"
proof -
  have "wp body (on_ok (\<lambda>e d. Q (Inl e) (w\<lparr> w_db := v_others env s i (w_db w) \<rparr>))
      (\<lambda>a d. Q (Inr a) (w\<lparr> w_db := d \<rparr>))) (v_others env s i (w_db w))"
    using assms(2) by (rule wp_mono) (auto simp: on_ok_def assms(1) split: sum.splits)
  with assms(1) show ?thesis by (simp add: session_def wp_in_tx put_db_def)
qed

lemma wp_critical_txI:
  assumes "\<And>e. Q (Inl e) (w\<lparr> w_db := v_others env SBegin i (w_db w) \<rparr>)"
    and "wp body (on_ok (\<lambda>_ _. True) (\<lambda>a d. Q (Inr a) (w\<lparr> w_db := d \<rparr>))) (v_others env SBegin i (w_db w))"
  shows "wp (critical_tx env i body) Q w"
proof -
  have "wp body (on_ok (\<lambda>e d. Q (Inl e) (w\<lparr> w_db := v_others env SBegin i (w_db w) \<rparr>))
      (\<lambda>a d. (\<forall>e. fault env SCommit i = Some e \<longrightarrow> Q (Inl e) (w\<lparr> w_db := v_others env SBegin i (w_db w) \<rparr>)) \<and>
        (fault env SCommit i = None \<longrightarrow> Q (Inr a) (w\<lparr> w_db := d \<rparr>)))) (v_others env SBegin i (w_db w))"
    using assms(2) by (rule wp_mono) (auto simp: on_ok_def assms(1) split: sum.splits)
  with assms(1) show ?thesis by (simp add: critical_tx_def wp_in_tx put_db_def)
qed

lemma serves_replica: "serves parse env w \<Longrightarrow> db_exceptions (v_replica env) i = Some x \<Longrightarrow> x_ID x = i \<and> exception_ok x"
  by (auto simp: serves_def db_ok_def)

lemma wp_FindByIDI:
  assumes "externals E" "serves parse env w" "\<And>e. Q (Inl e) w"
    and "\<And>x. db_exceptions (v_replica env) i = Some x \<Longrightarrow> Q (Inr x) w"
  shows "wp (FindByID E env i) Q w"
proof (cases "db_exceptions (v_replica env) i")
  case None
  then show ?thesis by (simp add: FindByID_def assms(3))
next
  case (Some x)
  with serves_replica [OF assms(2)] assms show ?thesis by (simp add: FindByID_def scanException_valid)
qed

text \<open>An update from a snapshot: it writes the row when the snapshot is current, and fails otherwise.\<close>

lemma wp_executeUpdateI:
  assumes "externals E" "follows parse d0 d" "db_exceptions d0 (x_ID x) = Some x0"
    and "row_step x0 x" "x_Version x = x_Version x0" "exception_ok x"
    and "Q (Inl ErrConcurrentModification) d"
    and "\<And>row. db_exceptions d (x_ID x) = Some row \<Longrightarrow> refreshed x0 row \<Longrightarrow>
      Q (Inr (bump now x)) (d\<lparr> db_exceptions := (db_exceptions d)(x_ID x \<mapsto> bump now x) \<rparr>)"
  shows "wp (executeUpdate E now x) Q d"
proof -
  have "x_ID x = x_ID x0" using assms(4) by (simp add: row_step_def)
  with executeUpdate_cas [OF assms(1,2) _ assms(4-6), of now] assms(3,7,8) show ?thesis
    by (auto simp: wp_def)
qed

lemma wp_UpdateWithTxI:
  assumes "externals E" "follows parse d0 d" "db_exceptions d0 (x_ID x) = Some x0"
    and "row_step x0 x" "x_Version x = x_Version x0" "exception_ok x"
    and "\<And>e. Q (Inl e) d"
    and "\<And>row. db_exceptions d (x_ID x) = Some row \<Longrightarrow> refreshed x0 row \<Longrightarrow>
      Q (Inr (bump (v_clock env SUpdate) x)) (d\<lparr> db_exceptions := (db_exceptions d)(x_ID x \<mapsto> bump (v_clock env SUpdate) x) \<rparr>)"
  shows "wp (UpdateWithTx E env x) Q d"
  unfolding UpdateWithTx_def using assms by (auto intro!: wp_executeUpdateI [OF assms(1-6)])

lemma wp_PublishI:
  assumes "\<And>e. Q (Inl e) d" "Q (Inr ()) (d\<lparr> db_audit := db_audit d @ [ev] \<rparr>)"
  shows "wp (PublishExceptionEventWithTx env ev) Q d"
  using assms by (simp add: PublishExceptionEventWithTx_def)

lemma wp_emitI:
  assumes "\<And>e. Q (Inl e) d"
    and "Q (Inr ()) (d\<lparr> db_outbox := db_outbox d @
      [\<lparr> se_DefinitionKey = key, se_Subject = x_ID x, se_Payload = exceptionPayload x extra \<rparr>] \<rparr>)"
  shows "wp (emitExceptionCritical env uc key x extra) Q d"
  using assms by (simp add: emitExceptionCritical_def EmitWithTx_def)

lemma serves_others: "serves parse env w \<Longrightarrow> db_ok parse d \<Longrightarrow> follows parse d (v_others env s i d)"
  by (simp add: serves_def)

lemma serves_db_ok: "serves parse env w \<Longrightarrow> db_ok parse (w_db w)"
  by (auto simp: serves_def dest: follows_ok)

text \<open>A transaction that follows the state it was begun in keeps the contract of the command.\<close>

lemma serves_step:
  assumes "serves parse env w" "follows parse (w_db w) d" 
  shows "follows parse (w_db w) (v_others env s i d)" "follows parse (v_replica env) (v_others env s i d)"
    "db_ok parse (v_others env s i d)"
proof -
  have "db_ok parse d" using assms serves_db_ok follows_ok by blast
  with assms(1) have f: "follows parse d (v_others env s i d)" by (rule serves_others)
  with assms(2) show "follows parse (w_db w) (v_others env s i d)" by (rule follows_trans)
  with assms(1) show "follows parse (v_replica env) (v_others env s i d)"
    unfolding serves_def by (blast intro: follows_trans)
  from f \<open>db_ok parse d\<close> show "db_ok parse (v_others env s i d)" by (rule follows_ok)
qed

end
