(* ===== verification/Resolution_Commands.thy ===== *)
theory Resolution_Commands
  imports Store_Protocol
begin

text \<open>
  Resolving exceptions (\<^verbatim>\<open>internal/exception/services/command\<close>): ForceMatch and AdjustEntry, which
  call the ledger gateway between two transactions and revert the status when it fails, and the bulk
  operations, which assign or resolve each exception in a transaction of its own. The nil checks on
  results of the repositories are dropped: the modelled repositories return an error instead of a nil
  row. A wrapped error is its sentinel; spans, logs and metrics have no effect on the world.
\<close>

section \<open>Currencies\<close>

definition allowedCurrencies :: "string list" where
  "allowedCurrencies =
     [''AED'', ''AFN'', ''ALL'', ''AMD'', ''ANG'', ''AOA'', ''ARS'', ''AUD'', ''AWG'', ''AZN'', ''BAM'', ''BBD'',
      ''BDT'', ''BGN'', ''BHD'', ''BIF'', ''BMD'', ''BND'', ''BOB'', ''BRL'', ''BSD'', ''BTN'', ''BWP'', ''BYN'',
      ''BZD'', ''CAD'', ''CDF'', ''CHF'', ''CLP'', ''CNY'', ''COP'', ''CRC'', ''CUP'', ''CVE'', ''CZK'', ''DJF'',
      ''DKK'', ''DOP'', ''DZD'', ''EGP'', ''ERN'', ''ETB'', ''EUR'', ''FJD'', ''FKP'', ''GBP'', ''GEL'', ''GHS'',
      ''GIP'', ''GMD'', ''GNF'', ''GTQ'', ''GYD'', ''HKD'', ''HNL'', ''HTG'', ''HUF'', ''IDR'', ''ILS'', ''INR'',
      ''IQD'', ''IRR'', ''ISK'', ''JMD'', ''JOD'', ''JPY'', ''KES'', ''KGS'', ''KHR'', ''KMF'', ''KPW'', ''KRW'',
      ''KWD'', ''KYD'', ''KZT'', ''LAK'', ''LBP'', ''LKR'', ''LRD'', ''LSL'', ''LYD'', ''MAD'', ''MDL'', ''MGA'',
      ''MKD'', ''MMK'', ''MNT'', ''MOP'', ''MRU'', ''MUR'', ''MVR'', ''MWK'', ''MXN'', ''MYR'', ''MZN'', ''NAD'',
      ''NGN'', ''NIO'', ''NOK'', ''NPR'', ''NZD'', ''OMR'', ''PAB'', ''PEN'', ''PGK'', ''PHP'', ''PKR'', ''PLN'',
      ''PYG'', ''QAR'', ''RON'', ''RSD'', ''RUB'', ''RWF'', ''SAR'', ''SBD'', ''SCR'', ''SDG'', ''SEK'', ''SGD'',
      ''SHP'', ''SLE'', ''SOS'', ''SRD'', ''SSP'', ''STN'', ''SVC'', ''SYP'', ''SZL'', ''THB'', ''TJS'', ''TMT'',
      ''TND'', ''TOP'', ''TRY'', ''TTD'', ''TWD'', ''TZS'', ''UAH'', ''UGX'', ''USD'', ''UYU'', ''UZS'', ''VES'',
      ''VND'', ''VUV'', ''WST'', ''XAF'', ''XCD'', ''XOF'', ''XPF'', ''YER'', ''ZAR'', ''ZMW'', ''ZWL'']"

definition CurrencyCode_IsValid :: "string \<Rightarrow> bool" where
  "CurrencyCode_IsValid c = (c \<in> set allowedCurrencies)"

definition ParseCurrencyCode :: "'d ext \<Rightarrow> string \<Rightarrow> cmd_error + string" where
  "ParseCurrencyCode E v =
     (let trimmed = TrimSpace v in
      if trimmed = '''' then Inl (Usecase ErrInvalidCurrency_code)
      else let code = to_upper E trimmed in
        if \<not> CurrencyCode_IsValid code then Inl (Usecase ErrInvalidCurrency_code) else Inr code)"

section \<open>Commands and their validation\<close>

definition wrap :: "('e \<Rightarrow> cmd_error) \<Rightarrow> 'e + 'a \<Rightarrow> cmd_error + 'a" where
  "wrap f r = (case r of Inl e \<Rightarrow> Inl (f e) | Inr a \<Rightarrow> Inr a)"

record ForceMatchCommand =
  fm_ExceptionID :: uuid
  fm_OverrideReason :: string
  fm_Notes :: string

record forceMatchParams =
  fp_actor :: string
  fp_notes :: string
  fp_overrideReason :: OverrideReason

record 'd AdjustEntryCommand =
  aj_ExceptionID :: uuid
  aj_ReasonCode :: string
  aj_Notes :: string
  aj_Amount :: 'd
  aj_Currency :: string
  aj_EffectiveAt :: time

record adjustEntryParams =
  ap_actor :: string
  ap_notes :: string
  ap_currency :: string
  ap_reason :: AdjustmentReasonCode

definition validateResolutionDeps :: "ExceptionUseCase option \<Rightarrow> missing_dependency option" where
  "validateResolutionDeps uc =
     (case uc of None \<Rightarrow> Some ErrNilExceptionRepository
      | Some u \<Rightarrow>
          if \<not> uc_exceptionRepo u then Some ErrNilExceptionRepository
          else if \<not> uc_resolutionExecutor u then Some ErrNilResolutionExecutor
          else if \<not> uc_auditPublisher u then Some ErrNilAuditPublisher
          else if \<not> uc_actorExtractor u then Some ErrNilActorExtractor
          else None)"

definition validateForceMatch :: "'d ext \<Rightarrow> env \<Rightarrow> ExceptionUseCase option \<Rightarrow> ForceMatchCommand \<Rightarrow> cmd_error + forceMatchParams" where
  "validateForceMatch E env uc cmd =
     (case validateResolutionDeps uc of Some e \<Rightarrow> Inl (Missing e)
      | None \<Rightarrow>
          let actor = TrimSpace (v_actor env); notes = TrimSpace (fm_Notes cmd) in
          if fm_ExceptionID cmd = 0 then Inl (Usecase ErrExceptionIDRequired)
          else if actor = '''' then Inl (Usecase ErrActorRequired)
          else if notes = '''' then Inl (Entity ErrResolutionNotesRequired)
          else rbind (wrap Reason (ParseOverrideReason E (fm_OverrideReason cmd))) (\<lambda>overrideReason.
            Inr \<lparr> fp_actor = actor, fp_notes = notes, fp_overrideReason = overrideReason \<rparr>))"

definition validateAdjustEntry :: "'d::linordered_idom ext \<Rightarrow> env \<Rightarrow> ExceptionUseCase option \<Rightarrow> 'd AdjustEntryCommand \<Rightarrow>
    cmd_error + adjustEntryParams" where
  "validateAdjustEntry E env uc cmd =
     (case validateResolutionDeps uc of Some e \<Rightarrow> Inl (Missing e)
      | None \<Rightarrow>
          let actor = TrimSpace (v_actor env); notes = TrimSpace (aj_Notes cmd) in
          if aj_ExceptionID cmd = 0 then Inl (Usecase ErrExceptionIDRequired)
          else if actor = '''' then Inl (Usecase ErrActorRequired)
          else if notes = '''' then Inl (Entity ErrResolutionNotesRequired)
          else if aj_Amount cmd = 0 then Inl (Usecase ErrZeroAdjustmentAmount)
          else if aj_Amount cmd < 0 then Inl (Usecase ErrNegativeAdjustmentAmount)
          else rbind (ParseCurrencyCode E (aj_Currency cmd)) (\<lambda>currency.
            rbind (wrap Reason (ParseAdjustmentReason E (aj_ReasonCode cmd))) (\<lambda>reason.
              Inr \<lparr> ap_actor = actor, ap_notes = notes, ap_currency = currency, ap_reason = reason \<rparr>)))"

section \<open>The gateway\<close>

definition gateway :: "env \<Rightarrow> uuid \<Rightarrow> 'd gateway_call \<Rightarrow> ('d world, cmd_error, unit) act" where
  "gateway env i call =
     abind (aupdate (\<lambda>w. w\<lparr> w_gateway := w_gateway w @ [call] \<rparr>)) (\<lambda>_. acheck (fault env SGateway i))"

definition revertExceptionStatus :: "'d ext \<Rightarrow> env \<Rightarrow> Exception \<Rightarrow> ExceptionStatus \<Rightarrow> ('d world, cmd_error, unit) act" where
  "revertExceptionStatus E env exc previousStatus =
     (case AbortResolution (v_clock env SRevert) (Some exc) previousStatus of
        Inl _ \<Rightarrow> aret ()
      | Inr aborted \<Rightarrow> abind (atry (Update E env SRevert aborted)) (\<lambda>_. aret ()))"

definition executeWithRevert :: "'d ext \<Rightarrow> env \<Rightarrow> Exception \<Rightarrow> ExceptionStatus \<Rightarrow> ('d world, cmd_error, unit) act \<Rightarrow>
    ('d world, cmd_error, unit) act" where
  "executeWithRevert E env exc previousStatus gatewayFn =
     acatch gatewayFn (\<lambda>e. abind (revertExceptionStatus E env exc previousStatus) (\<lambda>_. afail e))"

section \<open>ForceMatch\<close>

definition force_match_event :: "'d ext \<Rightarrow> env \<Rightarrow> forceMatchParams \<Rightarrow> ExceptionStatus \<Rightarrow> Exception \<Rightarrow> AuditEvent" where
  "force_match_event E env params previousStatus updated =
     (let reason = OverrideReason_string (fp_overrideReason params) in
      \<lparr> ae_ExceptionID = x_ID updated, ae_Action = ''FORCE_MATCH'', ae_Actor = fp_actor params,
        ae_Notes = fp_notes params, ae_ReasonCode = Some reason, ae_OccurredAt = v_clock env SAudit,
        ae_Metadata = [''previous_status'' \<mapsto> ExceptionStatus_string previousStatus,
          ''resolution_type'' \<mapsto> ''FORCE_MATCH'', ''override_reason'' \<mapsto> reason,
          ''transaction_id'' \<mapsto> uuid_string E (x_TransactionID updated)] \<rparr>)"

definition processForceMatch :: "'d ext \<Rightarrow> env \<Rightarrow> ExceptionUseCase \<Rightarrow> ForceMatchCommand \<Rightarrow> forceMatchParams \<Rightarrow>
    ('d world, cmd_error, Exception) act" where
  "processForceMatch E env uc cmd params =
     abind (FindByID E env (fm_ExceptionID cmd)) (\<lambda>found.
     abind (acheck (map_option Status (ValidateResolutionTransition (x_Status found) ExceptionStatusResolved))) (\<lambda>_.
     abind (alift (wrap Entity (StartResolution (v_clock env SFind) (Some found)))) (\<lambda>started.
     abind (Update E env SPending started) (\<lambda>pending.
     abind (executeWithRevert E env pending (x_Status found)
              (gateway env (x_ID pending) (GForceMatch (x_ID pending) (fp_notes params) (fp_overrideReason params)))) (\<lambda>_.
     abind (alift (wrap Entity (Resolve (v_clock env SGateway) (Some pending) (fp_notes params)
              [WithResolutionType ''FORCE_MATCH'',
               WithResolutionReason (OverrideReason_string (fp_overrideReason params))]))) (\<lambda>res.
     critical_tx env (x_ID res)
       (abind (UpdateWithTx E env res) (\<lambda>updated.
        abind (PublishExceptionEventWithTx env (force_match_event E env params (x_Status found) updated)) (\<lambda>_.
        abind (emitExceptionCritical env uc ''exception.force_match_resolved'' updated
                 [''resolution_type'' \<mapsto> PString ''FORCE_MATCH'',
                  ''override_reason_code'' \<mapsto> PString (OverrideReason_string (fp_overrideReason params)),
                  ''resolved_at'' \<mapsto> FormatTime (v_clock env SEmit) (x_UpdatedAt updated)]) (\<lambda>_.
        aret updated))))))))))"

definition ForceMatch :: "'d ext \<Rightarrow> env \<Rightarrow> ExceptionUseCase option \<Rightarrow> ForceMatchCommand \<Rightarrow> ('d world, cmd_error, Exception) act" where
  "ForceMatch E env uc cmd =
     abind (alift (validateForceMatch E env uc cmd)) (\<lambda>params. processForceMatch E env (the uc) cmd params)"

section \<open>AdjustEntry\<close>

definition adjust_entry_event :: "env \<Rightarrow> adjustEntryParams \<Rightarrow> Exception \<Rightarrow> AuditEvent" where
  "adjust_entry_event env params updated =
     \<lparr> ae_ExceptionID = x_ID updated, ae_Action = ''ADJUST_ENTRY'', ae_Actor = ap_actor params,
       ae_Notes = ap_notes params, ae_ReasonCode = Some (AdjustmentReasonCode_string (ap_reason params)),
       ae_OccurredAt = v_clock env SAudit, ae_Metadata = [''currency'' \<mapsto> ap_currency params] \<rparr>"

definition processAdjustEntry :: "'d ext \<Rightarrow> env \<Rightarrow> ExceptionUseCase \<Rightarrow> 'd AdjustEntryCommand \<Rightarrow> adjustEntryParams \<Rightarrow>
    ('d world, cmd_error, Exception) act" where
  "processAdjustEntry E env uc cmd params =
     abind (FindByID E env (aj_ExceptionID cmd)) (\<lambda>found.
     abind (acheck (map_option Status (ValidateResolutionTransition (x_Status found) ExceptionStatusResolved))) (\<lambda>_.
     abind (alift (wrap Entity (StartResolution (v_clock env SFind) (Some found)))) (\<lambda>started.
     abind (Update E env SPending started) (\<lambda>pending.
     abind (executeWithRevert E env pending (x_Status found)
              (gateway env (x_ID pending) (GAdjustEntry (x_ID pending)
                 \<lparr> ai_Amount = aj_Amount cmd, ai_Currency = ap_currency params, ai_EffectiveAt = aj_EffectiveAt cmd,
                   ai_Reason = ap_reason params, ai_Notes = ap_notes params \<rparr>))) (\<lambda>_.
     abind (alift (wrap Entity (Resolve (v_clock env SGateway) (Some pending) (ap_notes params)
              [WithResolutionType ''ADJUST_ENTRY'',
               WithResolutionReason (AdjustmentReasonCode_string (ap_reason params))]))) (\<lambda>res.
     critical_tx env (x_ID res)
       (abind (UpdateWithTx E env res) (\<lambda>updated.
        abind (PublishExceptionEventWithTx env (adjust_entry_event env params updated)) (\<lambda>_.
        abind (emitExceptionCritical env uc ''exception.adjust_entry_resolved'' updated
                 [''resolution_type'' \<mapsto> PString ''ADJUST_ENTRY'',
                  ''reason_code'' \<mapsto> PString (AdjustmentReasonCode_string (ap_reason params)),
                  ''amount'' \<mapsto> PString (dec_string E (aj_Amount cmd)),
                  ''currency'' \<mapsto> PString (ap_currency params),
                  ''resolved_at'' \<mapsto> FormatTime (v_clock env SEmit) (x_UpdatedAt updated)]) (\<lambda>_.
        aret updated))))))))))"

definition AdjustEntry :: "'d::linordered_idom ext \<Rightarrow> env \<Rightarrow> ExceptionUseCase option \<Rightarrow> 'd AdjustEntryCommand \<Rightarrow>
    ('d world, cmd_error, Exception) act" where
  "AdjustEntry E env uc cmd =
     abind (alift (validateAdjustEntry E env uc cmd)) (\<lambda>params. processAdjustEntry E env (the uc) cmd params)"

section \<open>Bulk operations\<close>

record BulkAssignInput =
  ba_ExceptionIDs :: "uuid list"
  ba_Assignee :: string

record BulkResolveInput =
  br_ExceptionIDs :: "uuid list"
  br_Resolution :: string
  br_Reason :: string

text \<open>A failure carries the error itself instead of its text.\<close>

record BulkActionResult =
  bk_Succeeded :: "uuid list"
  bk_Failed :: "(uuid \<times> cmd_error) list"

definition maxBulkIDs :: nat where
  "maxBulkIDs = 100"

primrec dedup :: "uuid set \<Rightarrow> uuid list \<Rightarrow> uuid list" where
  "dedup seen [] = []"
| "dedup seen (i # is) = (if i \<in> seen then dedup seen is else i # dedup (insert i seen) is)"

definition validateBulkIDs :: "uuid list \<Rightarrow> cmd_error + uuid list" where
  "validateBulkIDs ids =
     (if ids = [] then Inl (Usecase ErrBulkEmptyIDs)
      else if maxBulkIDs < length ids then Inl (Usecase ErrBulkTooManyIDs)
      else Inr (dedup {} ids))"

primrec scanAllRows :: "'d ext \<Rightarrow> Exception list \<Rightarrow> cmd_error + Exception list" where
  "scanAllRows E [] = Inr []"
| "scanAllRows E (row # rows) = rbind (scanException E row) (\<lambda>x. rbind (scanAllRows E rows) (\<lambda>xs. Inr (x # xs)))"

definition FindByIDs :: "'d ext \<Rightarrow> env \<Rightarrow> uuid list \<Rightarrow> ('d world, cmd_error, Exception list) act" where
  "FindByIDs E env ids =
     (if ids = [] then aret []
      else abind (acheck (fault env SFind 0)) (\<lambda>_.
        alift (scanAllRows E (List.map_filter (db_exceptions (v_replica env)) ids))))"

definition preloadExceptions :: "'d ext \<Rightarrow> env \<Rightarrow> uuid list \<Rightarrow> ('d world, cmd_error, uuid \<Rightarrow> Exception option) act" where
  "preloadExceptions E env ids =
     abind (FindByIDs E env ids) (\<lambda>found. aret (fold (\<lambda>x byID. byID(x_ID x \<mapsto> x)) found Map.empty))"

definition resolvePreloaded :: "(uuid \<Rightarrow> Exception option) \<Rightarrow> uuid \<Rightarrow> cmd_error + Exception" where
  "resolvePreloaded preloaded i =
     (case preloaded i of None \<Rightarrow> Inl (Entity ErrExceptionNotFound) | Some x \<Rightarrow> Inr x)"

definition assignSingle :: "'d ext \<Rightarrow> env \<Rightarrow> ExceptionUseCase \<Rightarrow> (uuid \<Rightarrow> Exception option) \<Rightarrow> string \<Rightarrow> string \<Rightarrow> uuid \<Rightarrow>
    ('d world, cmd_error, unit) act" where
  "assignSingle E env uc preloaded assignee actor i =
     abind (alift (resolvePreloaded preloaded i)) (\<lambda>found.
     abind (alift (wrap Entity (Assign (v_clock env SFind) (Some found) assignee None))) (\<lambda>assigned.
     abind (critical_tx env i
       (abind (UpdateWithTx E env assigned) (\<lambda>_.
        PublishExceptionEventWithTx env
          \<lparr> ae_ExceptionID = i, ae_Action = ''BULK_ASSIGN'', ae_Actor = actor,
            ae_Notes = ''Assigned to '' @ assignee @ '' via bulk action'', ae_ReasonCode = None,
            ae_OccurredAt = v_clock env SAudit, ae_Metadata = [''assignee'' \<mapsto> assignee] \<rparr>))) (\<lambda>_.
     emitExceptionImportant env uc ''exception.assigned'' assigned
       [''assigned_at'' \<mapsto> FormatTime (v_clock env SEmit) (x_UpdatedAt assigned)])))"

definition resolveSingle :: "'d ext \<Rightarrow> env \<Rightarrow> ExceptionUseCase \<Rightarrow> (uuid \<Rightarrow> Exception option) \<Rightarrow> string \<Rightarrow> string \<Rightarrow> string \<Rightarrow> uuid \<Rightarrow>
    ('d world, cmd_error, unit) act" where
  "resolveSingle E env uc preloaded resolution reason actor i =
     abind (alift (resolvePreloaded preloaded i)) (\<lambda>found.
     if x_Status found = ExceptionStatusPendingResolution then afail (Entity ErrExceptionPendingResolution)
     else
     abind (acheck (map_option Status (ValidateResolutionTransition (x_Status found) ExceptionStatusResolved))) (\<lambda>_.
     abind (alift (wrap Entity (Resolve (v_clock env SFind) (Some found) resolution
              (if reason \<noteq> '''' then [WithResolutionReason reason] else [])))) (\<lambda>res.
     critical_tx env i
       (abind (UpdateWithTx E env res) (\<lambda>_.
        abind (PublishExceptionEventWithTx env
          \<lparr> ae_ExceptionID = i, ae_Action = ''BULK_RESOLVE'', ae_Actor = actor, ae_Notes = resolution,
            ae_ReasonCode = None, ae_OccurredAt = v_clock env SAudit, ae_Metadata = [''reason'' \<mapsto> reason] \<rparr>) (\<lambda>_.
        emitExceptionCritical env uc ''exception.resolved'' res
          [''resolved_at'' \<mapsto> FormatTime (v_clock env SEmit) (x_UpdatedAt res)]))))))"

primrec bulk_loop :: "(uuid \<Rightarrow> ('d world, cmd_error, unit) act) \<Rightarrow> uuid list \<Rightarrow> BulkActionResult \<Rightarrow>
    ('d world, cmd_error, BulkActionResult) act" where
  "bulk_loop single [] result = aret result"
| "bulk_loop single (i # is) result =
     abind (atry (single i)) (\<lambda>outcome.
       bulk_loop single is
         (case outcome of
            Inl e \<Rightarrow> result\<lparr> bk_Failed := bk_Failed result @ [(i, e)] \<rparr>
          | Inr _ \<Rightarrow> result\<lparr> bk_Succeeded := bk_Succeeded result @ [i] \<rparr>))"

definition BulkAssign :: "'d ext \<Rightarrow> env \<Rightarrow> ExceptionUseCase \<Rightarrow> BulkAssignInput \<Rightarrow> ('d world, cmd_error, BulkActionResult) act" where
  "BulkAssign E env uc input =
     abind (alift (validateBulkIDs (ba_ExceptionIDs input))) (\<lambda>dedupedIDs.
       let assignee = TrimSpace (ba_Assignee input); actor = TrimSpace (v_actor env) in
       if assignee = '''' then afail (Usecase ErrBulkAssigneeEmpty)
       else if actor = '''' then afail (Usecase ErrActorRequired)
       else abind (preloadExceptions E env dedupedIDs) (\<lambda>preloaded.
         bulk_loop (assignSingle E env uc preloaded assignee actor) dedupedIDs
           \<lparr> bk_Succeeded = [], bk_Failed = [] \<rparr>))"

definition BulkResolve :: "'d ext \<Rightarrow> env \<Rightarrow> ExceptionUseCase \<Rightarrow> BulkResolveInput \<Rightarrow> ('d world, cmd_error, BulkActionResult) act" where
  "BulkResolve E env uc input =
     abind (alift (validateBulkIDs (br_ExceptionIDs input))) (\<lambda>dedupedIDs.
       let resolution = TrimSpace (br_Resolution input); actor = TrimSpace (v_actor env) in
       if resolution = '''' then afail (Usecase ErrBulkResolutionEmpty)
       else if actor = '''' then afail (Usecase ErrActorRequired)
       else abind (preloadExceptions E env dedupedIDs) (\<lambda>preloaded.
         bulk_loop (resolveSingle E env uc preloaded resolution (TrimSpace (br_Reason input)) actor) dedupedIDs
           \<lparr> bk_Succeeded = [], bk_Failed = [] \<rparr>))"

section \<open>The shape both gateway commands share\<close>

definition finish_resolution :: "'d ext \<Rightarrow> env \<Rightarrow> ExceptionUseCase \<Rightarrow> string \<Rightarrow> ResolveOption list \<Rightarrow> (Exception \<Rightarrow> AuditEvent) \<Rightarrow>
    string \<Rightarrow> (Exception \<Rightarrow> string \<Rightarrow> payload_value option) \<Rightarrow> Exception \<Rightarrow> ('d world, cmd_error, Exception) act" where
  "finish_resolution E env uc notes opts event key extra pending =
     abind (alift (wrap Entity (Resolve (v_clock env SGateway) (Some pending) notes opts))) (\<lambda>res.
     critical_tx env (x_ID res)
       (abind (UpdateWithTx E env res) (\<lambda>updated.
        abind (PublishExceptionEventWithTx env (event updated)) (\<lambda>_.
        abind (emitExceptionCritical env uc key updated (extra updated)) (\<lambda>_.
        aret updated)))))"

definition gateway_resolution :: "'d ext \<Rightarrow> env \<Rightarrow> ExceptionUseCase \<Rightarrow> uuid \<Rightarrow> (uuid \<Rightarrow> 'd gateway_call) \<Rightarrow> string \<Rightarrow>
    ResolveOption list \<Rightarrow> (ExceptionStatus \<Rightarrow> Exception \<Rightarrow> AuditEvent) \<Rightarrow> string \<Rightarrow>
    (Exception \<Rightarrow> string \<Rightarrow> payload_value option) \<Rightarrow> ('d world, cmd_error, Exception) act" where
  "gateway_resolution E env uc i call notes opts event key extra =
     abind (FindByID E env i) (\<lambda>found.
     abind (acheck (map_option Status (ValidateResolutionTransition (x_Status found) ExceptionStatusResolved))) (\<lambda>_.
     abind (alift (wrap Entity (StartResolution (v_clock env SFind) (Some found)))) (\<lambda>started.
     abind (Update E env SPending started) (\<lambda>pending.
     abind (executeWithRevert E env pending (x_Status found) (gateway env (x_ID pending) (call (x_ID pending)))) (\<lambda>_.
     finish_resolution E env uc notes opts (event (x_Status found)) key extra pending)))))"

lemma processForceMatch_shape:
  "processForceMatch E env uc cmd params =
     gateway_resolution E env uc (fm_ExceptionID cmd)
       (\<lambda>i. GForceMatch i (fp_notes params) (fp_overrideReason params)) (fp_notes params)
       [WithResolutionType ''FORCE_MATCH'', WithResolutionReason (OverrideReason_string (fp_overrideReason params))]
       (force_match_event E env params) ''exception.force_match_resolved''
       (\<lambda>updated. [''resolution_type'' \<mapsto> PString ''FORCE_MATCH'',
          ''override_reason_code'' \<mapsto> PString (OverrideReason_string (fp_overrideReason params)),
          ''resolved_at'' \<mapsto> FormatTime (v_clock env SEmit) (x_UpdatedAt updated)])"
  unfolding processForceMatch_def gateway_resolution_def finish_resolution_def ..

lemma processAdjustEntry_shape:
  "processAdjustEntry E env uc cmd params =
     gateway_resolution E env uc (aj_ExceptionID cmd)
       (\<lambda>i. GAdjustEntry i \<lparr> ai_Amount = aj_Amount cmd, ai_Currency = ap_currency params,
          ai_EffectiveAt = aj_EffectiveAt cmd, ai_Reason = ap_reason params, ai_Notes = ap_notes params \<rparr>)
       (ap_notes params)
       [WithResolutionType ''ADJUST_ENTRY'', WithResolutionReason (AdjustmentReasonCode_string (ap_reason params))]
       (\<lambda>previous. adjust_entry_event env params) ''exception.adjust_entry_resolved''
       (\<lambda>updated. [''resolution_type'' \<mapsto> PString ''ADJUST_ENTRY'',
          ''reason_code'' \<mapsto> PString (AdjustmentReasonCode_string (ap_reason params)),
          ''amount'' \<mapsto> PString (dec_string E (aj_Amount cmd)), ''currency'' \<mapsto> PString (ap_currency params),
          ''resolved_at'' \<mapsto> FormatTime (v_clock env SEmit) (x_UpdatedAt updated)])"
  unfolding processAdjustEntry_def gateway_resolution_def finish_resolution_def ..

lemma wrap_Inr [simp]: "wrap f r = Inr a \<longleftrightarrow> r = Inr a"
  by (cases r) (simp_all add: wrap_def)

lemma on_ok_wrapI:
  "(\<And>e. F e w) \<Longrightarrow> (\<And>a. r = Inr a \<Longrightarrow> Q a w) \<Longrightarrow> on_ok F Q (wrap f r) w"
  by (cases r) (simp_all add: wrap_def)

lemma row_step_ops:
  assumes "exception_ok x"
  shows "StartResolution now (Some x) = Inr y \<Longrightarrow> row_step x y \<and> x_Version y = x_Version x \<and> exception_ok y"
    and "AbortResolution now (Some x) p = Inr y \<Longrightarrow> row_step x y \<and> x_Version y = x_Version x \<and> exception_ok y"
    and "Resolve now (Some x) n opts = Inr y \<Longrightarrow> row_step x y \<and> x_Version y = x_Version x \<and> exception_ok y"
    and "Assign now (Some x) a d = Inr y \<Longrightarrow> row_step x y \<and> x_Version y = x_Version x \<and> exception_ok y"
  using exception_step_row_step [OF assms, of "EStartResolution now"]
    exception_step_row_step [OF assms, of "EAbortResolution now p"]
    exception_step_row_step [OF assms, of "EResolve now n opts"]
    exception_step_row_step [OF assms, of "EAssign now a d"]
  by (simp_all add: exception_step_def)

text \<open>The two kinds of transaction of the commands, from any earlier state \<open>old\<close> the row was read
  from: an update alone, and an update recorded by an audit event and announced in the outbox.\<close>

lemma wp_Update_follows:
  assumes "externals E" "serves parse env start" "follows parse old (w_db w)" "db_exceptions old (x_ID x) = Some row"
    and "row_step row x" "x_Version x = x_Version row" "exception_ok x" "x_Status x \<noteq> ExceptionStatusResolved"
    and "db_ok parse (w_db w)"
    and "\<And>e d'. follows parse (w_db w) d' \<Longrightarrow> Q (Inl e) (w\<lparr> w_db := d' \<rparr>)"
    and "\<And>d'. follows parse (w_db w) d' \<Longrightarrow> db_exceptions d' (x_ID x) = Some (bump (v_clock env s) x) \<Longrightarrow>
      (\<exists>cur. db_exceptions (v_others env s (x_ID x) (w_db w)) (x_ID x) = Some cur \<and> x_Version cur = x_Version row) \<Longrightarrow>
      Q (Inr (bump (v_clock env s) x)) (w\<lparr> w_db := d' \<rparr>)"
  shows "wp (Update E env s x) Q w"
proof -
  let ?d = "v_others env s (x_ID x) (w_db w)"
  have others: "follows parse (w_db w) ?d" using assms(2,9) by (rule serves_others)
  then have snap: "follows parse old ?d" using assms(3) follows_trans by blast
  let ?d' = "?d\<lparr> db_exceptions := (db_exceptions ?d)(x_ID x \<mapsto> bump (v_clock env s) x) \<rparr>"
  have "follows parse ?d ?d'" if "db_exceptions ?d (x_ID x) = Some cur" "refreshed row cur" for cur
    using that refreshed_step [OF that(2) assms(5)] refreshed_sel(5) [OF that(2)] assms(6-8)
    by (intro follows_write [where x = x and evs = "[]" and ?x0.0 = cur]) auto
  then have "follows parse (w_db w) ?d'" if "db_exceptions ?d (x_ID x) = Some cur" "refreshed row cur" for cur
    using that others follows_trans by blast
  then show ?thesis unfolding Update_def using others assms(10,11)
    by (auto simp: refreshed_sel intro!: wp_sessionI wp_executeUpdateI [OF assms(1) snap assms(4-7)])
qed

text \<open>What the rest of a transaction may do after the update of \<open>row\<close> to \<open>x\<close>: append audit events and
  outbox events, with one that records a resolution.\<close>

definition appends :: "(AuditEvent list \<Rightarrow> bool) \<Rightarrow> (db, cmd_error, 'a) act \<Rightarrow> bool" where
  "appends P m \<longleftrightarrow> (\<forall>d. wp m (on_ok (\<lambda>_ _. True) (\<lambda>a d'. (\<exists>evs. db_audit d' = db_audit d @ evs \<and> P evs) \<and>
     db_exceptions d' = db_exceptions d \<and> db_disputes d' = db_disputes d \<and> prefix (db_outbox d) (db_outbox d'))) d)"

lemma appends_event:
  assumes "P [ev]"
  shows "appends P (PublishExceptionEventWithTx env ev)"
    and "appends P (abind (PublishExceptionEventWithTx env ev) (\<lambda>_. emitExceptionCritical env uc key x extra))"
    and "appends P (abind (PublishExceptionEventWithTx env ev) (\<lambda>_.
           abind (emitExceptionCritical env uc key x extra) (\<lambda>_. aret y)))"
  using assms unfolding appends_def by (auto intro!: wp_PublishI wp_emitI)

lemma wp_critical_update:
  assumes "externals E" "serves parse env start" "follows parse old (w_db w)" "db_exceptions old (x_ID x) = Some row"
    and "row_step row x" "x_Version x = x_Version row" "exception_ok x" "db_ok parse (w_db w)"
    and "appends (\<lambda>evs. x_Status x = ExceptionStatusResolved \<longrightarrow> x_Status row = ExceptionStatusResolved \<or> recorded evs (x_ID x))
          (body (bump (v_clock env SUpdate) x))"
    and "\<And>r d'. follows parse (w_db w) d' \<Longrightarrow> Q r (w\<lparr> w_db := d' \<rparr>)"
  shows "wp (critical_tx env i (abind (UpdateWithTx E env x) body)) Q w"
proof -
  let ?d = "v_others env SBegin i (w_db w)"
  let ?x = "bump (v_clock env SUpdate) x"
  let ?u = "?d\<lparr> db_exceptions := (db_exceptions ?d)(x_ID x \<mapsto> ?x) \<rparr>"
  have others: "follows parse (w_db w) ?d" using assms(2,8) by (rule serves_others)
  then have snap: "follows parse old ?d" using assms(3) follows_trans by blast
  have "follows parse (w_db w) d'" if "db_exceptions ?d (x_ID x) = Some cur" "db_audit d' = db_audit ?u @ evs"
      "x_Status x = ExceptionStatusResolved \<longrightarrow> x_Status row = ExceptionStatusResolved \<or> recorded evs (x_ID x)"
      "db_exceptions d' = db_exceptions ?u" "db_disputes d' = db_disputes ?u" "prefix (db_outbox ?u) (db_outbox d')"
      "refreshed row cur" for evs d' cur
    using that follows_write [OF that(1) refreshed_step [OF that(7) assms(5)], of evs d'] assms(6,7)
      refreshed_sel [OF that(7)] others follows_trans by fastforce
  then have "wp (body ?x) (on_ok (\<lambda>_ _. True) (\<lambda>a d'. Q (Inr a) (w\<lparr> w_db := d' \<rparr>))) ?u"
    if "db_exceptions ?d (x_ID x) = Some cur" "refreshed row cur" for cur
    using that assms(9,10) unfolding appends_def
    by (elim allE [of _ ?u] wp_mono) (auto simp: on_ok_def split: sum.splits)
  with others assms(10) show ?thesis
    by (intro wp_critical_txI) (auto intro!: wp_UpdateWithTxI [OF assms(1) snap assms(4-7)])
qed

section \<open>The commands keep the contract\<close>

lemma executeWithRevert_follows:
  assumes "externals E" "serves parse env start" "db_ok parse (w_db w)"
    and "db_exceptions (w_db w) (x_ID x) = Some x" "exception_ok x" 
    and "\<And>e w'. follows parse (w_db w) (w_db w') \<Longrightarrow> w_gateway w' = w_gateway w @ [call] \<Longrightarrow> Q (Inl e) w'"
    and "Q (Inr ()) (w\<lparr> w_gateway := w_gateway w @ [call] \<rparr>)"
  shows "wp (executeWithRevert E env x p (gateway env i call)) Q w"
proof -
  have "wp (Update E env SRevert y) (\<lambda>_ w'. Q (Inl e) w') (w\<lparr> w_gateway := w_gateway w @ [call] \<rparr>)"
    if y: "AbortResolution (v_clock env SRevert) (Some x) p = Inr y" for y e
  proof -
    have "row_step x y \<and> x_Version y = x_Version x \<and> exception_ok y" "x_Status y \<noteq> ExceptionStatusResolved"
      using row_step_ops(2) [OF assms(5) y] y by (auto simp: AbortResolution_Inr)
    moreover then have "x_ID y = x_ID x" by (simp add: row_step_def)
    ultimately show ?thesis using assms
      by (intro wp_Update_follows [where old = "w_db w" and row = x and parse = parse and start = start]) auto
  qed
  with assms(6,7) show ?thesis
    by (auto simp: executeWithRevert_def gateway_def revertExceptionStatus_def split: sum.splits)
qed

lemma finish_resolution_contract:
  assumes E: "externals E" and S: "serves parse env start" and w: "db_ok parse (w_db w)"
    and y: "db_exceptions (w_db w) (x_ID y) = Some y" "exception_ok y"
    and ev: "\<And>y. ae_ExceptionID (event y) = x_ID y \<and> ae_Action (event y) \<in> set resolution_actions"
  shows "wp (finish_resolution E env uc notes opts event key extra y)
    (\<lambda>r w'. follows parse (w_db w) (w_db w') \<and> w_gateway w' = w_gateway w) w"
proof -
  have "wp (critical_tx env (x_ID res) (abind (UpdateWithTx E env res) (\<lambda>updated.
      abind (PublishExceptionEventWithTx env (event updated)) (\<lambda>_.
      abind (emitExceptionCritical env uc key updated (extra updated)) (\<lambda>_. aret updated)))))
      (\<lambda>r w'. follows parse (w_db w) (w_db w') \<and> w_gateway w' = w_gateway w) w"
    if "Resolve (v_clock env SGateway) (Some y) notes opts = Inr res" for res
  proof -
    from row_step_ops(3) [OF y(2) that]
    have res: "row_step y res" "x_Version res = x_Version y" "exception_ok res" by auto
    then have "x_ID res = x_ID y" by (simp add: row_step_def)
    with res y w ev show ?thesis
      by (intro wp_critical_update [OF E S, where old = "w_db w" and row = y])
        (auto intro!: appends_event simp: recorded_def)
  qed
  then show ?thesis unfolding finish_resolution_def by (auto intro!: on_ok_wrapI)
qed

text \<open>A gateway command keeps the contract. It calls the gateway only when the version it read was still
  current when it was set to PENDING_RESOLUTION, and the row is newer afterwards.\<close>

definition gateway_post :: "url_parser \<Rightarrow> env \<Rightarrow> uuid \<Rightarrow> 'd gateway_call \<Rightarrow> 'd world \<Rightarrow> 'd world \<Rightarrow> bool" where
  "gateway_post parse env i call w w' \<longleftrightarrow> follows parse (w_db w) (w_db w') \<and>
     (w_gateway w' = w_gateway w \<or>
      w_gateway w' = w_gateway w @ [call] \<and>
      (\<exists>x cur y. db_exceptions (v_replica env) i = Some x \<and> db_exceptions (v_others env SPending i (w_db w)) i = Some cur \<and>
         x_Version cur = x_Version x \<and> db_exceptions (w_db w') i = Some y \<and> x_Version x < x_Version y))"

lemma gateway_postI:
  assumes "db_exceptions (v_replica env) i = Some x"
    and "\<exists>cur. db_exceptions (v_others env SPending i (w_db w)) i = Some cur \<and> x_Version cur = x_Version x"
    and "db_exceptions d i = Some y" "x_Version x < x_Version y" "follows parse (w_db w) d"
    and "follows parse d (w_db w')" "w_gateway w' = w_gateway w @ [call]"
  shows "gateway_post parse env i call w w'"
proof -
  obtain z where "db_exceptions (w_db w') i = Some z" "row_le y z" using assms(6,3) by (rule follows_row)
  moreover from this have "x_Version x < x_Version z" using assms(4) row_le_version [of y z] by simp
  moreover have "follows parse (w_db w) (w_db w')" using assms(5,6) by (rule follows_trans)
  ultimately show ?thesis using assms(1,2,7) unfolding gateway_post_def by blast
qed

lemma gateway_resolution_contract:
  assumes E: "externals E" and S: "serves parse env w"
    and ev: "\<And>p y. ae_ExceptionID (event p y) = x_ID y \<and> ae_Action (event p y) \<in> set resolution_actions"
  shows "wp (gateway_resolution E env uc i call notes opts event key extra) (\<lambda>r. gateway_post parse env i (call i) w) w"
proof -
  let ?post = "\<lambda>w'. gateway_post parse env i (call i) w w'"
  have quiet: "?post w'" if "follows parse (w_db w) (w_db w')" "w_gateway w' = w_gateway w" for w'
    using that by (simp add: gateway_post_def)
  have phase2: "wp (executeWithRevert E env y p (gateway env (x_ID y) (call (x_ID y))))
      (on_ok (\<lambda>e. ?post) (\<lambda>_. wp (finish_resolution E env uc notes opts (event p) key extra y) (\<lambda>r. ?post)))
      (w\<lparr> w_db := d \<rparr>)"
    if "db_exceptions (v_replica env) i = Some x"
      "\<exists>cur. db_exceptions (v_others env SPending i (w_db w)) i = Some cur \<and> x_Version cur = x_Version x"
      "db_exceptions d i = Some y" "x_Version x < x_Version y" "x_ID y = i" "exception_ok y"
      "follows parse (w_db w) d" for x y d p
  proof -
    note fin = gateway_postI [OF that(1-4,7)]
    have ok: "db_ok parse d" using follows_ok [OF that(7) serves_db_ok [OF S]] .
    have "wp (finish_resolution E env uc notes opts (event p) key extra y) (\<lambda>r. ?post)
        (w\<lparr> w_db := d, w_gateway := w_gateway w @ [call i] \<rparr>)"
      by (rule wp_mono [OF finish_resolution_contract [OF E S]]) (use ok that ev fin in auto)
    then show ?thesis using ok that fin
      by (intro executeWithRevert_follows [OF E S]) auto
  qed
  have phase1: "wp (Update E env SPending started)
      (on_ok (\<lambda>e. ?post) (\<lambda>pending. wp (executeWithRevert E env pending (x_Status x)
           (gateway env (x_ID pending) (call (x_ID pending))))
         (on_ok (\<lambda>e. ?post) (\<lambda>_. wp (finish_resolution E env uc notes opts (event (x_Status x)) key extra pending) (\<lambda>r. ?post))))) w"
    if x: "db_exceptions (v_replica env) i = Some x"
      and st: "StartResolution (v_clock env SFind) (Some x) = Inr started" for x started
  proof -
    have id: "x_ID x = i" "exception_ok x" using serves_replica [OF S x] by auto
    from row_step_ops(1) [OF id(2) st] st
    have y: "row_step x started" "x_Version started = x_Version x" "exception_ok started"
      "x_Status started \<noteq> ExceptionStatusResolved" by (auto simp: StartResolution_Inr)
    then have i: "x_ID started = i" using id(1) by (simp add: row_step_def)
    have snap: "follows parse (v_replica env) (w_db w)" using S by (simp add: serves_def)
    show ?thesis
    proof (rule wp_Update_follows [OF E S snap, where row = x])
      fix d' assume "follows parse (w_db w) d'" "db_exceptions d' (x_ID started) = Some (bump (v_clock env SPending) started)"
        "\<exists>cur. db_exceptions (v_others env SPending (x_ID started) (w_db w)) (x_ID started) = Some cur \<and>
          x_Version cur = x_Version x"
      with phase2 [of x d' "bump (v_clock env SPending) started" "x_Status x"] x id y i
      show "on_ok (\<lambda>e. ?post) (\<lambda>pending. wp (executeWithRevert E env pending (x_Status x)
           (gateway env (x_ID pending) (call (x_ID pending))))
         (on_ok (\<lambda>e. ?post) (\<lambda>_. wp (finish_resolution E env uc notes opts (event (x_Status x)) key extra pending)
           (\<lambda>r. ?post)))) (Inr (bump (v_clock env SPending) started)) (w\<lparr> w_db := d' \<rparr>)"
        by simp
    qed (use x id y i quiet serves_db_ok [OF S] in auto)
  qed
  show ?thesis
    unfolding gateway_resolution_def wp_abind
    by (rule wp_FindByIDI [OF E S]) (auto intro!: on_ok_wrapI phase1 quiet)
qed

corollary gateway_resolution_some_call:
  assumes "externals E" "serves parse env w"
    and "\<And>p y. ae_ExceptionID (event p y) = x_ID y \<and> ae_Action (event p y) \<in> set resolution_actions"
  shows "wp (gateway_resolution E env uc i call notes opts event key extra)
    (\<lambda>r w'. \<exists>call. gateway_post parse env i call w w') w"
  using gateway_resolution_contract [OF assms] by (rule wp_mono) blast

lemma ForceMatch_contract:
  assumes "externals E" "serves parse env w"
  shows "wp (ForceMatch E env uc cmd)
    (\<lambda>r w'. \<exists>call. gateway_post parse env (fm_ExceptionID cmd) call w w') w"
proof -
  have ev: "ae_ExceptionID (force_match_event E env params p y) = x_ID y \<and>
      ae_Action (force_match_event E env params p y) \<in> set resolution_actions" for params p y
    by (simp add: force_match_event_def Let_def resolution_actions_def)
  have "gateway_post parse env (fm_ExceptionID cmd) call w w" for call by (simp add: gateway_post_def)
  then show ?thesis
    by (cases "validateForceMatch E env uc cmd")
      (auto simp: ForceMatch_def processForceMatch_shape
        intro!: gateway_resolution_some_call [OF assms] ev)
qed

lemma AdjustEntry_contract:
  assumes "externals E" "serves parse env w"
  shows "wp (AdjustEntry E env uc cmd)
    (\<lambda>r w'. \<exists>call. gateway_post parse env (aj_ExceptionID cmd) call w w') w"
proof -
  have ev: "ae_ExceptionID (adjust_entry_event env params y) = x_ID y \<and>
      ae_Action (adjust_entry_event env params y) \<in> set resolution_actions" for params y
    by (simp add: adjust_entry_event_def resolution_actions_def)
  have "gateway_post parse env (aj_ExceptionID cmd) call w w" for call by (simp add: gateway_post_def)
  then show ?thesis
    by (cases "validateAdjustEntry E env uc cmd")
      (auto simp: AdjustEntry_def processAdjustEntry_shape
        intro!: gateway_resolution_some_call [OF assms] ev)
qed

lemma bulk_loop_rule:
  assumes "\<And>i w. I w \<Longrightarrow> wp (single i) (\<lambda>r. I) w"
  shows "I w \<Longrightarrow> wp (bulk_loop single ids result) (\<lambda>r. I) w"
proof (induction ids arbitrary: w result)
  case (Cons i ids)
  have "wp (single i) (\<lambda>r. wp (bulk_loop single ids (result' r)) (\<lambda>r. I)) w" for result'
    using assms [OF Cons.prems] by (rule wp_mono) (rule Cons.IH)
  then show ?case by simp
qed simp

lemma fold_byID: "fold (\<lambda>x byID. byID(x_ID x \<mapsto> x)) xs m i = Some x \<Longrightarrow> x \<in> set xs \<and> x_ID x = i \<or> m i = Some x"
proof (induction xs arbitrary: m)
  case (Cons a xs)
  from Cons.IH [of "m(x_ID a \<mapsto> a)"] Cons.prems show ?case by (auto split: if_splits)
qed simp

lemma scanAllRows_valid: "externals E \<Longrightarrow> \<forall>x \<in> set rows. exception_ok x \<Longrightarrow> scanAllRows E rows = Inr rows"
  by (induction rows) (simp_all add: scanException_valid)

text \<open>What is preloaded are rows of the replica.\<close>

lemma wp_preloadI:
  assumes "externals E" "serves parse env w" "\<And>e. Q (Inl e) w"
    and "\<And>preloaded. (\<And>i x. preloaded i = Some x \<Longrightarrow> db_exceptions (v_replica env) i = Some x) \<Longrightarrow> Q (Inr preloaded) w"
  shows "wp (preloadExceptions E env ids) Q w"
proof -
  let ?rows = "List.map_filter (db_exceptions (v_replica env)) ids"
  have rows: "x_ID x = i \<and> exception_ok x" if "db_exceptions (v_replica env) i = Some x" for i x
    using assms(2) that by (rule serves_replica)
  then have "scanAllRows E ?rows = Inr ?rows"
    by (intro scanAllRows_valid [OF assms(1)]) (auto simp: map_filter_def)
  moreover have "db_exceptions (v_replica env) i = Some x"
    if "fold (\<lambda>x byID. byID(x_ID x \<mapsto> x)) ?rows Map.empty i = Some x" for i x
    using fold_byID [OF that] rows by (auto simp: map_filter_def)
  ultimately show ?thesis using assms(3) assms(4) [of Map.empty] assms(4)
    by (auto simp: preloadExceptions_def FindByIDs_def)
qed

lemma emitImportant_db:
  "(\<And>w'. w_db w' = w_db w \<Longrightarrow> w_gateway w' = w_gateway w \<Longrightarrow> Q (Inr ()) w') \<Longrightarrow> wp (emitExceptionImportant env uc key x extra) Q w"
  by (auto simp: emitExceptionImportant_def Emit_def)

lemma assignSingle_contract:
  assumes E: "externals E" and S: "serves parse env start" and w: "follows parse (w_db start) (w_db w)"
    and pre: "\<And>i x. preloaded i = Some x \<Longrightarrow> db_exceptions (v_replica env) i = Some x"
  shows "wp (assignSingle E env uc preloaded assignee actor i) (\<lambda>r w'. follows parse (w_db start) (w_db w')) w"
proof -
  have snap: "follows parse (v_replica env) (w_db w)" using S w unfolding serves_def by (blast intro: follows_trans)
  have ok: "db_ok parse (w_db w)" using follows_ok [OF w serves_db_ok [OF S]] .
  have tx: "wp (critical_tx env i (abind (UpdateWithTx E env y) (\<lambda>_. PublishExceptionEventWithTx env ev))) (on_ok F G) w"
    if x: "preloaded i = Some x" "Assign now (Some x) assignee None = Inr y"
      and F: "\<And>e d'. follows parse (w_db start) d' \<Longrightarrow> F e (w\<lparr> w_db := d' \<rparr>)"
      and G: "\<And>d'. follows parse (w_db start) d' \<Longrightarrow> G () (w\<lparr> w_db := d' \<rparr>)" for x y ev now F G
  proof -
    have id: "x_ID x = i" "exception_ok x" using serves_replica [OF S pre [OF x(1)]] by auto
    from row_step_ops(4) [OF id(2) x(2)] x(2) id(1)
    have "row_step x y" "x_Version y = x_Version x" "exception_ok y" "x_Status y \<noteq> ExceptionStatusResolved" "x_ID y = i"
      by (auto simp: Assign_Inr)
    with pre [OF x(1)] ok F G follows_trans [OF w] show ?thesis
      by (intro wp_critical_update [OF E S snap, where row = x])
        (auto intro!: appends_event simp: on_ok_def split: sum.splits)
  qed
  show ?thesis using w
    by (auto simp: assignSingle_def resolvePreloaded_def split: option.splits
        intro!: on_ok_wrapI tx emitImportant_db)
qed

lemma resolveSingle_contract:
  assumes E: "externals E" and S: "serves parse env start" and w: "follows parse (w_db start) (w_db w)"
    and pre: "\<And>i x. preloaded i = Some x \<Longrightarrow> db_exceptions (v_replica env) i = Some x"
  shows "wp (resolveSingle E env uc preloaded resolution reason actor i) (\<lambda>r w'. follows parse (w_db start) (w_db w')) w"
proof -
  have snap: "follows parse (v_replica env) (w_db w)" using S w unfolding serves_def by (blast intro: follows_trans)
  have ok: "db_ok parse (w_db w)" using follows_ok [OF w serves_db_ok [OF S]] .
  have tx: "wp (critical_tx env i (abind (UpdateWithTx E env y) (\<lambda>_. abind (PublishExceptionEventWithTx env ev) (\<lambda>_.
      emitExceptionCritical env uc key y extra)))) (\<lambda>r w'. follows parse (w_db start) (w_db w')) w"
    if x: "preloaded i = Some x" "Resolve now (Some x) resolution opts = Inr y"
      and ev: "ae_ExceptionID ev = i" "ae_Action ev \<in> set resolution_actions" for x y ev now opts key extra
  proof -
    have id: "x_ID x = i" "exception_ok x" using serves_replica [OF S pre [OF x(1)]] by auto
    from row_step_ops(3) [OF id(2) x(2)] id(1)
    have "row_step x y" "x_Version y = x_Version x" "exception_ok y" "x_ID y = i" by (auto simp: row_step_def)
    with pre [OF x(1)] ok ev follows_trans [OF w] show ?thesis
      by (intro wp_critical_update [OF E S snap, where row = x]) (auto intro!: appends_event simp: recorded_def)
  qed
  show ?thesis using w
    by (auto simp: resolveSingle_def resolvePreloaded_def resolution_actions_def split: option.splits
        intro!: on_ok_wrapI tx)
qed

lemma BulkAssign_contract:
  assumes "externals E" "serves parse env w"
  shows "wp (BulkAssign E env uc input) (\<lambda>r w'. follows parse (w_db w) (w_db w')) w"
  unfolding BulkAssign_def
  by (cases "validateBulkIDs (ba_ExceptionIDs input)")
    (auto simp: Let_def intro!: wp_preloadI [OF assms] bulk_loop_rule assignSingle_contract [OF assms])

lemma BulkResolve_contract:
  assumes "externals E" "serves parse env w"
  shows "wp (BulkResolve E env uc input) (\<lambda>r w'. follows parse (w_db w) (w_db w')) w"
  unfolding BulkResolve_def
  by (cases "validateBulkIDs (br_ExceptionIDs input)")
    (auto simp: Let_def intro!: wp_preloadI [OF assms] bulk_loop_rule resolveSingle_contract [OF assms])

section \<open>Exact results without interference\<close>

definition isolated :: "env \<Rightarrow> 'd world \<Rightarrow> bool" where
  "isolated env w \<longleftrightarrow> v_replica env = w_db w \<and> (\<forall>s i d. v_others env s i d = d)"

definition set_row :: "Exception \<Rightarrow> 'd world \<Rightarrow> 'd world" where
  "set_row x w = w\<lparr> w_db := (w_db w)\<lparr> db_exceptions := (db_exceptions (w_db w))(x_ID x \<mapsto> x) \<rparr> \<rparr>"

lemma isolated_serves: "isolated env w \<Longrightarrow> db_ok parse (w_db w) \<Longrightarrow> serves parse env w"
  by (simp add: isolated_def serves_def)

lemma wp_eq: "wp m (\<lambda>r w'. (r, w') = R) w \<longleftrightarrow> m w = R"
  by (auto simp: wp_def split: prod.splits)

lemma executeUpdate_current:
  assumes "externals E" "db_exceptions d (x_ID x) = Some row" "row_step row x" "x_Version x = x_Version row" "exception_ok x"
  shows "executeUpdate E now x d =
    (Inr (bump now x), d\<lparr> db_exceptions := (db_exceptions d)(x_ID x \<mapsto> bump now x) \<rparr>)"
  using assms by (simp add: executeUpdate_def updated_row_bump scanException_valid)

lemma Update_isolated:
  assumes "externals E" "\<And>s i d. v_others env s i d = d"
    and "db_exceptions (w_db w) (x_ID x) = Some row" "row_step row x" "x_Version x = x_Version row" "exception_ok x"
  shows "Update E env s x w =
    (case fault env s (x_ID x) of Some e \<Rightarrow> (Inl e, w) | None \<Rightarrow> (Inr (bump (v_clock env s) x), set_row (bump (v_clock env s) x) w))"
  using assms by (simp add: Update_def session_def interfere_def abind_def aupdate_def in_tx_def set_row_def put_db_def
      executeUpdate_current split: option.splits)

text \<open>The first error of the transaction that resolves, if any.\<close>

definition tx_error :: "env \<Rightarrow> ExceptionUseCase \<Rightarrow> uuid \<Rightarrow> cmd_error option" where
  "tx_error env uc i =
     (case fault env SBegin i of Some e \<Rightarrow> Some e | None \<Rightarrow>
     (case validateCriticalTxLease env i of Some e \<Rightarrow> Some e | None \<Rightarrow>
     (case fault env SUpdate i of Some e \<Rightarrow> Some e | None \<Rightarrow>
     (case fault env SAudit i of Some e \<Rightarrow> Some e | None \<Rightarrow>
     (case emit_error env uc True i of Some e \<Rightarrow> Some e | None \<Rightarrow> fault env SCommit i)))))"

definition record_row :: "Exception \<Rightarrow> AuditEvent \<Rightarrow> StreamEvent \<Rightarrow> 'd world \<Rightarrow> 'd world" where
  "record_row x ev se w = w\<lparr> w_db := (w_db w)\<lparr> db_exceptions := (db_exceptions (w_db w))(x_ID x \<mapsto> x),
     db_audit := db_audit (w_db w) @ [ev], db_outbox := db_outbox (w_db w) @ [se] \<rparr> \<rparr>"

lemma record_row_sel [simp]:
  "db_exceptions (w_db (record_row y ev se w)) = (db_exceptions (w_db w))(x_ID y \<mapsto> y)"
  "db_audit (w_db (record_row y ev se w)) = db_audit (w_db w) @ [ev]"
  "db_outbox (w_db (record_row y ev se w)) = db_outbox (w_db w) @ [se]" "w_idem (record_row y ev se w) = w_idem w"
  by (simp_all add: record_row_def)

lemma finish_resolution_isolated:
  assumes "externals E" "\<And>s i d. v_others env s i d = d" "\<And>y. ae_ExceptionID (event y) = x_ID y"
    and "db_exceptions (w_db w) (x_ID y) = Some y" "exception_ok y" "x_Status y = ExceptionStatusPendingResolution"
    and "TrimSpace notes \<noteq> ''''"
  shows "finish_resolution E env uc notes opts event key extra y w =
    (case tx_error env uc (x_ID y) of
       Some e \<Rightarrow> (Inl e, w)
     | None \<Rightarrow> let z = bump (v_clock env SUpdate) (resolved (v_clock env SGateway) notes opts y) in
         (Inr z, record_row z (event z)
            \<lparr> se_DefinitionKey = key, se_Subject = x_ID y, se_Payload = exceptionPayload z (extra z) \<rparr> w))"
proof -
  have res: "Resolve (v_clock env SGateway) (Some y) notes opts = Inr (resolved (v_clock env SGateway) notes opts y)"
    using assms(6,7) by (simp add: Resolve_Inr)
  note step = row_step_ops(3) [OF assms(5) res]
  show ?thesis using step assms(1-4)
    by (simp add: finish_resolution_def res wrap_def abind_def alift_def critical_tx_def interfere_def aupdate_def in_tx_def
        acheck_def UpdateWithTx_def executeUpdate_current PublishExceptionEventWithTx_def emitExceptionCritical_def
        EmitWithTx_def aret_def tx_error_def record_row_def put_db_def Let_def split: option.splits)
qed

definition pending_row :: "env \<Rightarrow> Exception \<Rightarrow> Exception" where
  "pending_row env x = bump (v_clock env SPending)
     (x\<lparr> x_Status := ExceptionStatusPendingResolution, x_UpdatedAt := v_clock env SFind \<rparr>)"

definition reverted_row :: "env \<Rightarrow> Exception \<Rightarrow> Exception" where
  "reverted_row env x = bump (v_clock env SRevert)
     ((pending_row env x)\<lparr> x_Status := x_Status x, x_UpdatedAt := v_clock env SRevert \<rparr>)"

definition called :: "'d gateway_call \<Rightarrow> 'd world \<Rightarrow> 'd world" where
  "called call w = w\<lparr> w_gateway := w_gateway w @ [call] \<rparr>"

lemma pending_row_sel [simp]:
  "x_ID (pending_row env x) = x_ID x" "x_Status (pending_row env x) = ExceptionStatusPendingResolution"
  "x_Version (pending_row env x) = x_Version x + 1"
  by (simp_all add: pending_row_def)

lemma reverted_row_sel [simp]:
  "x_ID (reverted_row env x) = x_ID x" "x_Status (reverted_row env x) = x_Status x"
  "x_Version (reverted_row env x) = x_Version x + 2"
  by (simp_all add: reverted_row_def)

lemma set_row_sel [simp]:
  "db_exceptions (w_db (set_row x w)) = (db_exceptions (w_db w))(x_ID x \<mapsto> x)"
  "db_audit (w_db (set_row x w)) = db_audit (w_db w)" "db_outbox (w_db (set_row x w)) = db_outbox (w_db w)"
  "w_gateway (set_row x w) = w_gateway w"
  by (simp_all add: set_row_def)

lemma called_sel [simp]: "w_db (called call w) = w_db w" "w_gateway (called call w) = w_gateway w @ [call]"
  by (simp_all add: called_def)

lemma executeWithRevert_isolated:
  assumes "externals E" "\<And>s i d. v_others env s i d = d"
    and "db_exceptions (w_db w) (x_ID x) = Some (pending_row env x)" "exception_ok x"
    and "x_Status x = ExceptionStatusOpen \<or> x_Status x = ExceptionStatusAssigned"
  shows "executeWithRevert E env (pending_row env x) (x_Status x) (gateway env (x_ID x) call) w =
    (case fault env SGateway (x_ID x) of None \<Rightarrow> (Inr (), called call w)
     | Some e \<Rightarrow> (Inl e, if fault env SRevert (x_ID x) = None then set_row (reverted_row env x) (called call w)
                         else called call w))"
proof -
  have ok: "exception_ok (pending_row env x)"
    using assms(4) by (simp add: pending_row_def bump_def exception_ok_def ExceptionStatus_IsValid_def)
  have ab: "AbortResolution (v_clock env SRevert) (Some (pending_row env x)) (x_Status x) =
      Inr ((pending_row env x)\<lparr> x_Status := x_Status x, x_UpdatedAt := v_clock env SRevert \<rparr>)"
    using assms(5) by (simp add: AbortResolution_Inr)
  note step = row_step_ops(2) [OF ok ab]
  show ?thesis using step assms(1-3)
    by (simp add: executeWithRevert_def gateway_def revertExceptionStatus_def ab acatch_def abind_def aupdate_def acheck_def
        atry_def aret_def afail_def Update_isolated [where row = "pending_row env x"] reverted_row_def called_def
        split: option.splits)
qed

lemma gateway_resolution_exact:
  assumes "externals E" "isolated env w" "db_ok parse (w_db w)" "db_exceptions (w_db w) i = Some x"
    and "\<And>p y. ae_ExceptionID (event p y) = x_ID y" "TrimSpace notes \<noteq> ''''"
    and "x_Status x = ExceptionStatusOpen \<or> x_Status x = ExceptionStatusAssigned"
  shows "gateway_resolution E env uc i call notes opts event key extra w =
    (case fault env SFind i of Some e \<Rightarrow> (Inl e, w) | None \<Rightarrow>
     (case fault env SPending i of Some e \<Rightarrow> (Inl e, w) | None \<Rightarrow>
      let w1 = called (call i) (set_row (pending_row env x) w) in
      (case fault env SGateway i of
         Some e \<Rightarrow> (Inl e, if fault env SRevert i = None then set_row (reverted_row env x) w1 else w1)
       | None \<Rightarrow>
      (case tx_error env uc i of Some e \<Rightarrow> (Inl e, w1) | None \<Rightarrow>
       let z = bump (v_clock env SUpdate) (resolved (v_clock env SGateway) notes opts (pending_row env x)) in
       (Inr z, record_row z (event (x_Status x) z)
          \<lparr> se_DefinitionKey = key, se_Subject = i, se_Payload = exceptionPayload z (extra z) \<rparr> w1)))))"
proof -
  have x: "x_ID x = i" "exception_ok x" using assms(3,4) by (auto simp: db_ok_def)
  have iso: "v_replica env = w_db w" "\<And>s i d. v_others env s i d = d" using assms(2) by (auto simp: isolated_def)
  have st: "StartResolution (v_clock env SFind) (Some x) =
      Inr (x\<lparr> x_Status := ExceptionStatusPendingResolution, x_UpdatedAt := v_clock env SFind \<rparr>)"
    using assms(7) by (simp add: StartResolution_Inr)
  note step = row_step_ops(1) [OF x(2) st]
  have tr: "ValidateResolutionTransition (x_Status x) ExceptionStatusResolved = None"
    using assms(7) by (auto simp: ValidateResolutionTransition_def ExceptionStatus_IsValid_def allowedResolutionTransitions_def)
  have ok: "exception_ok (pending_row env x)"
    using step by (simp add: pending_row_def)
  let ?w = "set_row (pending_row env x) w"
  have up: "Update E env SPending (x\<lparr> x_Status := ExceptionStatusPendingResolution, x_UpdatedAt := v_clock env SFind \<rparr>) w =
      (case fault env SPending i of Some e \<Rightarrow> (Inl e, w) | None \<Rightarrow> (Inr (pending_row env x), ?w))"
    using step x assms(4) by (simp add: Update_isolated [OF assms(1) iso(2), where row = x] pending_row_def split: option.split)
  have rev: "executeWithRevert E env (pending_row env x) (x_Status x) (gateway env i (call i)) ?w =
      (case fault env SGateway i of None \<Rightarrow> (Inr (), called (call i) ?w)
       | Some e \<Rightarrow> (Inl e, if fault env SRevert i = None then set_row (reverted_row env x) (called (call i) ?w)
                           else called (call i) ?w))"
    using executeWithRevert_isolated [OF assms(1) iso(2), of ?w x "call i"] x(2) assms(7)
    unfolding x(1) by (simp add: x(1))
  note fin = finish_resolution_isolated [OF assms(1) iso(2) assms(5), of "called (call i) ?w" "pending_row env x" "notes"]
  show ?thesis using x(1) assms(4,6) iso(1) fin ok
    by (simp add: gateway_resolution_def FindByID_def abind_def acheck_def alift_def wrap_def st tr up rev
        scanException_valid [OF assms(1) x(2)] Let_def split: option.splits)
qed

text \<open>The transaction of the other commands: an update, one audit event, one outbox event.\<close>

lemma critical_record_isolated:
  assumes "externals E" "\<And>s i d. v_others env s i d = d"
    and "db_exceptions (w_db w) i = Some row" "x_ID y = i" "row_step row y" "x_Version y = x_Version row" "exception_ok y"
    and "ae_ExceptionID (event (bump (v_clock env SUpdate) y)) = i" "x_ID (shown (bump (v_clock env SUpdate) y)) = i"
  shows "critical_tx env i (abind (UpdateWithTx E env y) (\<lambda>u. abind (PublishExceptionEventWithTx env (event u)) (\<lambda>_.
      emitExceptionCritical env uc key (shown u) (extra u)))) w =
    (case tx_error env uc i of Some e \<Rightarrow> (Inl e, w)
     | None \<Rightarrow> let z = bump (v_clock env SUpdate) y in
         (Inr (), record_row z (event z)
            \<lparr> se_DefinitionKey = key, se_Subject = i, se_Payload = exceptionPayload (shown z) (extra z) \<rparr> w))"
  using assms
  by (simp add: abind_def critical_tx_def interfere_def aupdate_def in_tx_def acheck_def UpdateWithTx_def
      executeUpdate_current [where row = row] PublishExceptionEventWithTx_def emitExceptionCritical_def EmitWithTx_def
      tx_error_def record_row_def put_db_def Let_def split: option.splits)

end
