(* ===== verification/Dispute_Commands.thy ===== *)
theory Dispute_Commands
  imports Resolution_Commands
begin

text \<open>
  The commands on disputes and comments (\<^verbatim>\<open>dispute_commands.go\<close>, \<^verbatim>\<open>comment_commands.go\<close>) and the
  repositories behind them. A dispute command reads the dispute with a row lock inside the
  transaction that writes it, so its result depends on the primary database alone; the dispute has
  no version. The comment commands read from the replica and write in the repository's own
  transaction. The JSON column of the evidence is the list of evidence; the \<^verbatim>\<open>CHECK\<close> constraints of
  the table are implied by the parsers that read a row back before the transaction commits.
\<close>

section \<open>The dispute repository\<close>

definition ErrNoRows :: cmd_error where
  "ErrNoRows = Infra ''sql: no rows in result set''"

definition scanDispute :: "'d ext \<Rightarrow> Dispute \<Rightarrow> cmd_error + Dispute" where
  "scanDispute E row =
     rbind (wrap Dispute_error (ParseDisputeCategory E (DisputeCategory_string (d_Category row)))) (\<lambda>category.
     rbind (wrap Dispute_error (ParseDisputeState E (DisputeState_string (d_State row)))) (\<lambda>state.
       Inr (row\<lparr> d_Category := category, d_State := state \<rparr>)))"

definition findByIDExec :: "'d ext \<Rightarrow> uuid \<Rightarrow> (db, cmd_error, Dispute) act" where
  "findByIDExec E i d =
     (case db_disputes d i of None \<Rightarrow> Inl ErrNoRows | Some row \<Rightarrow> scanDispute E row, d)"

definition dispute_FindByIDWithTx :: "'d ext \<Rightarrow> env \<Rightarrow> uuid \<Rightarrow> (db, cmd_error, Dispute) act" where
  "dispute_FindByIDWithTx E env i =
     abind (acheck (fault env SFind i)) (\<lambda>_.
       acatch (findByIDExec E i) (\<lambda>e. afail (if e = ErrNoRows then ErrDisputeNotFound else e)))"

definition dispute_executeCreate :: "'d ext \<Rightarrow> Dispute \<Rightarrow> (db, cmd_error, Dispute) act" where
  "dispute_executeCreate E D d =
     (if db_disputes d (d_ID D) \<noteq> None then (Inl (Infra ''duplicate key''), d)
      else if db_exceptions d (d_ExceptionID D) = None then (Inl (Infra ''foreign key''), d)
      else findByIDExec E (d_ID D) (d\<lparr> db_disputes := (db_disputes d)(d_ID D \<mapsto> D) \<rparr>))"

definition dispute_CreateWithTx :: "'d ext \<Rightarrow> env \<Rightarrow> Dispute \<Rightarrow> (db, cmd_error, Dispute) act" where
  "dispute_CreateWithTx E env D = abind (acheck (fault env SCreate (d_ID D))) (\<lambda>_. dispute_executeCreate E D)"

text \<open>\<^verbatim>\<open>UPDATE disputes SET ... WHERE id = $1\<close>: the exception and the creation time stay.\<close>

definition dispute_executeUpdate :: "'d ext \<Rightarrow> Dispute \<Rightarrow> (db, cmd_error, Dispute) act" where
  "dispute_executeUpdate E D d =
     (case db_disputes d (d_ID D) of
        None \<Rightarrow> (Inl ErrDisputeNotFound, d)
      | Some row \<Rightarrow>
          findByIDExec E (d_ID D) (d\<lparr> db_disputes := (db_disputes d)(d_ID D \<mapsto>
            row\<lparr> d_Category := d_Category D, d_State := d_State D, d_Description := d_Description D,
                 d_OpenedBy := d_OpenedBy D, d_Resolution := d_Resolution D, d_ReopenReason := d_ReopenReason D,
                 d_Evidence := d_Evidence D, d_UpdatedAt := d_UpdatedAt D \<rparr>) \<rparr>))"

definition dispute_UpdateWithTx :: "'d ext \<Rightarrow> env \<Rightarrow> Dispute \<Rightarrow> (db, cmd_error, Dispute) act" where
  "dispute_UpdateWithTx E env D = abind (acheck (fault env SUpdate (d_ID D))) (\<lambda>_. dispute_executeUpdate E D)"

definition dispute_stream :: "string \<Rightarrow> Dispute \<Rightarrow> (string \<Rightarrow> payload_value option) \<Rightarrow> StreamEvent" where
  "dispute_stream key D extra =
     (let base = [''dispute_id'' \<mapsto> PUUID (d_ID D), ''exception_id'' \<mapsto> PUUID (d_ExceptionID D),
                  ''state'' \<mapsto> PString (DisputeState_string (d_State D))];
          full = (case d_Resolution D of None \<Rightarrow> base | Some r \<Rightarrow> base(''resolution'' \<mapsto> PString r))
      in \<lparr> se_DefinitionKey = key, se_Subject = d_ID D, se_Payload = full ++ extra \<rparr>)"

definition emitDisputeCritical :: "env \<Rightarrow> ExceptionUseCase \<Rightarrow> string \<Rightarrow> Dispute \<Rightarrow> (string \<Rightarrow> payload_value option) \<Rightarrow>
    (db, cmd_error, unit) act" where
  "emitDisputeCritical env uc key D extra = EmitWithTx env uc (dispute_stream key D extra)"

section \<open>Commands and their validation\<close>

record OpenDisputeCommand =
  od_ExceptionID :: uuid
  od_Category :: string
  od_Description :: string

record openDisputeParams =
  op_actor :: string
  op_category :: DisputeCategory
  op_description :: string

record CloseDisputeCommand =
  cd_DisputeID :: uuid
  cd_Resolution :: string
  cd_Won :: bool

record closeDisputeParams =
  cq_actor :: string
  cq_resolution :: string

record SubmitEvidenceCommand =
  sv_DisputeID :: uuid
  sv_Comment :: string
  sv_FileURL :: "string option"

record submitEvidenceParams =
  sq_actor :: string
  sq_comment :: string
  sq_fileURL :: "string option"

definition validateDisputeDeps :: "ExceptionUseCase option \<Rightarrow> missing_dependency option" where
  "validateDisputeDeps uc =
     (case uc of None \<Rightarrow> Some ErrNilDisputeRepository
      | Some u \<Rightarrow>
          if \<not> uc_disputeRepo u then Some ErrNilDisputeRepository
          else if \<not> uc_exceptionRepo u then Some ErrNilExceptionRepository
          else if \<not> uc_auditPublisher u then Some ErrNilAuditPublisher
          else if \<not> uc_actorExtractor u then Some ErrNilActorExtractor
          else if \<not> uc_infraProvider u then Some ErrNilInfraProvider
          else None)"

definition validateOpenDispute :: "'d ext \<Rightarrow> env \<Rightarrow> ExceptionUseCase option \<Rightarrow> OpenDisputeCommand \<Rightarrow> cmd_error + openDisputeParams" where
  "validateOpenDispute E env uc cmd =
     (case validateDisputeDeps uc of Some e \<Rightarrow> Inl (Missing e)
      | None \<Rightarrow>
          let actor = TrimSpace (v_actor env); trimmedCategory = TrimSpace (od_Category cmd) in
          if od_ExceptionID cmd = 0 then Inl (Usecase ErrExceptionIDRequired)
          else if actor = '''' then Inl (Usecase ErrActorRequired)
          else if trimmedCategory = '''' then Inl (Usecase ErrDisputeCategoryRequired)
          else rbind (wrap Dispute_error (ParseDisputeCategory E trimmedCategory)) (\<lambda>category.
            let description = TrimSpace (od_Description cmd) in
            if description = '''' then Inl (Usecase ErrDisputeDescriptionRequired)
            else Inr \<lparr> op_actor = actor, op_category = category, op_description = description \<rparr>))"

definition validateCloseDispute :: "env \<Rightarrow> ExceptionUseCase option \<Rightarrow> CloseDisputeCommand \<Rightarrow> cmd_error + closeDisputeParams" where
  "validateCloseDispute env uc cmd =
     (case validateDisputeDeps uc of Some e \<Rightarrow> Inl (Missing e)
      | None \<Rightarrow>
          let actor = TrimSpace (v_actor env); resolution = TrimSpace (cd_Resolution cmd) in
          if cd_DisputeID cmd = 0 then Inl (Usecase ErrDisputeIDRequired)
          else if actor = '''' then Inl (Usecase ErrActorRequired)
          else if resolution = '''' then Inl (Usecase ErrDisputeResolutionRequired)
          else Inr \<lparr> cq_actor = actor, cq_resolution = resolution \<rparr>)"

definition parseOptionalFileURL :: "string option \<Rightarrow> string option" where
  "parseOptionalFileURL fileURL =
     (case fileURL of None \<Rightarrow> None
      | Some u \<Rightarrow> let trimmed = TrimSpace u in if trimmed = '''' then None else Some trimmed)"

definition validateSubmitEvidence :: "env \<Rightarrow> ExceptionUseCase option \<Rightarrow> SubmitEvidenceCommand \<Rightarrow> cmd_error + submitEvidenceParams" where
  "validateSubmitEvidence env uc cmd =
     (case validateDisputeDeps uc of Some e \<Rightarrow> Inl (Missing e)
      | None \<Rightarrow>
          let actor = TrimSpace (v_actor env); comment = TrimSpace (sv_Comment cmd) in
          if sv_DisputeID cmd = 0 then Inl (Usecase ErrDisputeIDRequired)
          else if actor = '''' then Inl (Usecase ErrActorRequired)
          else if comment = '''' then Inl (Usecase ErrDisputeCommentRequired)
          else Inr \<lparr> sq_actor = actor, sq_comment = comment, sq_fileURL = parseOptionalFileURL (sv_FileURL cmd) \<rparr>)"

section \<open>OpenDispute\<close>

definition open_dispute_event :: "'d ext \<Rightarrow> env \<Rightarrow> OpenDisputeCommand \<Rightarrow> openDisputeParams \<Rightarrow> Dispute \<Rightarrow> AuditEvent" where
  "open_dispute_event E env cmd params created =
     \<lparr> ae_ExceptionID = od_ExceptionID cmd, ae_Action = ''DISPUTE_OPENED'', ae_Actor = op_actor params,
       ae_Notes = op_description params, ae_ReasonCode = None, ae_OccurredAt = v_clock env SAudit,
       ae_Metadata = [''dispute_id'' \<mapsto> uuid_string E (d_ID created),
                      ''category'' \<mapsto> DisputeCategory_string (op_category params)] \<rparr>"

definition open_dispute_extra :: "env \<Rightarrow> Dispute \<Rightarrow> string \<Rightarrow> payload_value option" where
  "open_dispute_extra env created =
     [''category'' \<mapsto> PString (DisputeCategory_string (d_Category created)),
      ''opened_at'' \<mapsto> FormatTime (v_clock env SEmit) (d_UpdatedAt created)]"

definition processOpenDispute :: "'d ext \<Rightarrow> env \<Rightarrow> ExceptionUseCase \<Rightarrow> OpenDisputeCommand \<Rightarrow> openDisputeParams \<Rightarrow>
    ('d world, cmd_error, Dispute) act" where
  "processOpenDispute E env uc cmd params =
     abind (FindByID E env (od_ExceptionID cmd)) (\<lambda>_.
     abind (alift (wrap Dispute_error (NewDispute (v_uuid env) (v_clock env SCreate) (od_ExceptionID cmd)
       (op_category params) (op_description params) (op_actor params)))) (\<lambda>newDispute.
     abind (alift (wrap Dispute_error (Open (v_clock env SOpen) (Some newDispute)))) (\<lambda>opened.
     critical_tx env (od_ExceptionID cmd)
       (abind (dispute_CreateWithTx E env opened) (\<lambda>created.
        abind (PublishExceptionEventWithTx env (open_dispute_event E env cmd params created)) (\<lambda>_.
        abind (emitDisputeCritical env uc ''dispute.opened'' created (open_dispute_extra env created)) (\<lambda>_.
          aret created)))))))"

definition OpenDispute :: "'d ext \<Rightarrow> env \<Rightarrow> ExceptionUseCase option \<Rightarrow> OpenDisputeCommand \<Rightarrow> ('d world, cmd_error, Dispute) act" where
  "OpenDispute E env uc cmd =
     abind (alift (validateOpenDispute E env uc cmd)) (\<lambda>params. processOpenDispute E env (the uc) cmd params)"

section \<open>CloseDispute\<close>

definition close_dispute_event :: "'d ext \<Rightarrow> env \<Rightarrow> CloseDisputeCommand \<Rightarrow> closeDisputeParams \<Rightarrow> Dispute \<Rightarrow> AuditEvent" where
  "close_dispute_event E env cmd params updated =
     \<lparr> ae_ExceptionID = d_ExceptionID updated, ae_Action = (if cd_Won cmd then ''DISPUTE_WON'' else ''DISPUTE_LOST''),
       ae_Actor = cq_actor params, ae_Notes = cq_resolution params, ae_ReasonCode = None,
       ae_OccurredAt = v_clock env SAudit, ae_Metadata = [''dispute_id'' \<mapsto> uuid_string E (d_ID updated)] \<rparr>"

definition close_dispute :: "env \<Rightarrow> CloseDisputeCommand \<Rightarrow> closeDisputeParams \<Rightarrow> Dispute \<Rightarrow> dispute_error + Dispute" where
  "close_dispute env cmd params existing =
     (if cd_Won cmd then Win (v_clock env SOpen) (Some existing) (cq_resolution params)
      else Lose (v_clock env SOpen) (Some existing) (cq_resolution params))"

definition close_stream :: "env \<Rightarrow> CloseDisputeCommand \<Rightarrow> Dispute \<Rightarrow> StreamEvent" where
  "close_stream env cmd updated =
     dispute_stream (if cd_Won cmd then ''dispute.won'' else ''dispute.lost'') updated
       [''closed_at'' \<mapsto> FormatTime (v_clock env SEmit) (d_UpdatedAt updated)]"

definition processCloseDispute :: "'d ext \<Rightarrow> env \<Rightarrow> ExceptionUseCase \<Rightarrow> CloseDisputeCommand \<Rightarrow> closeDisputeParams \<Rightarrow>
    ('d world, cmd_error, Dispute) act" where
  "processCloseDispute E env uc cmd params =
     critical_tx env (cd_DisputeID cmd)
       (abind (dispute_FindByIDWithTx E env (cd_DisputeID cmd)) (\<lambda>existing.
        abind (alift (wrap Dispute_error (close_dispute env cmd params existing))) (\<lambda>closed.
        abind (dispute_UpdateWithTx E env closed) (\<lambda>updated.
        abind (PublishExceptionEventWithTx env (close_dispute_event E env cmd params updated)) (\<lambda>_.
        abind (EmitWithTx env uc (close_stream env cmd updated)) (\<lambda>_.
          aret updated))))))"

definition CloseDispute :: "'d ext \<Rightarrow> env \<Rightarrow> ExceptionUseCase option \<Rightarrow> CloseDisputeCommand \<Rightarrow> ('d world, cmd_error, Dispute) act" where
  "CloseDispute E env uc cmd =
     abind (alift (validateCloseDispute env uc cmd)) (\<lambda>params. processCloseDispute E env (the uc) cmd params)"

section \<open>SubmitEvidence\<close>

definition submit_evidence_event :: "'d ext \<Rightarrow> env \<Rightarrow> submitEvidenceParams \<Rightarrow> Dispute \<Rightarrow> AuditEvent" where
  "submit_evidence_event E env params updated =
     \<lparr> ae_ExceptionID = d_ExceptionID updated, ae_Action = ''EVIDENCE_SUBMITTED'', ae_Actor = sq_actor params,
       ae_Notes = sq_comment params, ae_ReasonCode = None, ae_OccurredAt = v_clock env SAudit,
       ae_Metadata = (case sq_fileURL params of
           None \<Rightarrow> [''dispute_id'' \<mapsto> uuid_string E (d_ID updated)]
         | Some u \<Rightarrow> [''dispute_id'' \<mapsto> uuid_string E (d_ID updated), ''file_url'' \<mapsto> u]) \<rparr>"

definition evidence_stream :: "env \<Rightarrow> Dispute \<Rightarrow> StreamEvent option" where
  "evidence_stream env updated =
     (if d_Evidence updated = [] then None
      else let latestEvidence = last (d_Evidence updated) in
        Some \<lparr> se_DefinitionKey = ''evidence.submitted'', se_Subject = ev_ID latestEvidence,
               se_Payload = [''evidence_id'' \<mapsto> PUUID (ev_ID latestEvidence), ''dispute_id'' \<mapsto> PUUID (d_ID updated),
                 ''exception_id'' \<mapsto> PUUID (d_ExceptionID updated),
                 ''has_file'' \<mapsto> PBool (ev_FileURL latestEvidence \<noteq> None),
                 ''submitted_at'' \<mapsto> FormatTime (v_clock env SEmit) (ev_SubmittedAt latestEvidence)] \<rparr>)"

definition submit_evidence :: "url_parser \<Rightarrow> env \<Rightarrow> submitEvidenceParams \<Rightarrow> Dispute \<Rightarrow> dispute_error + Dispute" where
  "submit_evidence parse env params existing =
     AddEvidence parse (v_uuid env) (v_clock env SOpen) (Some existing) (sq_comment params) (sq_actor params) (sq_fileURL params)"

definition processSubmitEvidence :: "'d ext \<Rightarrow> url_parser \<Rightarrow> env \<Rightarrow> ExceptionUseCase \<Rightarrow> SubmitEvidenceCommand \<Rightarrow>
    submitEvidenceParams \<Rightarrow> ('d world, cmd_error, Dispute) act" where
  "processSubmitEvidence E parse env uc cmd params =
     critical_tx env (sv_DisputeID cmd)
       (abind (dispute_FindByIDWithTx E env (sv_DisputeID cmd)) (\<lambda>existing.
        abind (alift (wrap Dispute_error (submit_evidence parse env params existing))) (\<lambda>added.
        abind (dispute_UpdateWithTx E env added) (\<lambda>updated.
        abind (PublishExceptionEventWithTx env (submit_evidence_event E env params updated)) (\<lambda>_.
        abind (case evidence_stream env updated of None \<Rightarrow> aret () | Some ev \<Rightarrow> EmitWithTx env uc ev) (\<lambda>_.
          aret updated))))))"

definition SubmitEvidence :: "'d ext \<Rightarrow> url_parser \<Rightarrow> env \<Rightarrow> ExceptionUseCase option \<Rightarrow> SubmitEvidenceCommand \<Rightarrow>
    ('d world, cmd_error, Dispute) act" where
  "SubmitEvidence E parse env uc cmd =
     abind (alift (validateSubmitEvidence env uc cmd)) (\<lambda>params. processSubmitEvidence E parse env (the uc) cmd params)"

section \<open>Comments\<close>

record AddCommentInput =
  ac_ExceptionID :: uuid
  ac_Content :: string

definition validateCommentDeps :: "ExceptionUseCase option \<Rightarrow> missing_dependency option" where
  "validateCommentDeps uc =
     (case uc of None \<Rightarrow> Some ErrNilCommentRepository
      | Some u \<Rightarrow>
          if \<not> uc_commentRepo u then Some ErrNilCommentRepository
          else if \<not> uc_exceptionRepo u then Some ErrNilExceptionRepository
          else if \<not> uc_actorExtractor u then Some ErrNilActorExtractor
          else None)"

definition comment_executeCreate :: "ExceptionComment \<Rightarrow> (db, cmd_error, ExceptionComment) act" where
  "comment_executeCreate c d =
     (if db_comments d (cm_ID c) \<noteq> None then (Inl (Infra ''duplicate key''), d)
      else if db_exceptions d (cm_ExceptionID c) = None then (Inl (Infra ''foreign key''), d)
      else (Inr c, d\<lparr> db_comments := (db_comments d)(cm_ID c \<mapsto> c) \<rparr>))"

definition comment_Create :: "env \<Rightarrow> ExceptionComment \<Rightarrow> ('d world, cmd_error, ExceptionComment) act" where
  "comment_Create env c = session env SCreate (cm_ID c) (comment_executeCreate c)"

text \<open>Unlike the other repositories, this one does not turn a missing row into its not-found error.\<close>

definition comment_FindByID :: "env \<Rightarrow> uuid \<Rightarrow> ('d world, cmd_error, ExceptionComment) act" where
  "comment_FindByID env i =
     abind (acheck (fault env SFind i)) (\<lambda>_.
       alift (case db_comments (v_replica env) i of None \<Rightarrow> Inl ErrNoRows | Some c \<Rightarrow> Inr c))"

definition executeDeleteByExceptionAndID :: "uuid \<Rightarrow> uuid \<Rightarrow> (db, cmd_error, unit) act" where
  "executeDeleteByExceptionAndID exceptionID commentID d =
     (case db_comments d commentID of
        None \<Rightarrow> (Inl (Entity ErrCommentNotFound), d)
      | Some c \<Rightarrow>
          if cm_ExceptionID c \<noteq> exceptionID then (Inl (Entity ErrCommentNotFound), d)
          else (Inr (), d\<lparr> db_comments := (db_comments d)(commentID := None) \<rparr>))"

definition DeleteByExceptionAndID :: "env \<Rightarrow> uuid \<Rightarrow> uuid \<Rightarrow> ('d world, cmd_error, unit) act" where
  "DeleteByExceptionAndID env exceptionID commentID =
     session env SUpdate commentID (executeDeleteByExceptionAndID exceptionID commentID)"

definition comment_added :: "env \<Rightarrow> ExceptionComment \<Rightarrow> StreamEvent" where
  "comment_added env c =
     \<lparr> se_DefinitionKey = ''exception_comment.added'', se_Subject = cm_ID c,
       se_Payload = [''comment_id'' \<mapsto> PUUID (cm_ID c), ''exception_id'' \<mapsto> PUUID (cm_ExceptionID c),
                     ''created_at'' \<mapsto> FormatTime (v_clock env SEmit) (cm_CreatedAt c)] \<rparr>"

definition emitCommentAdded :: "env \<Rightarrow> ExceptionUseCase \<Rightarrow> ExceptionComment \<Rightarrow> ('d world, cmd_error, unit) act" where
  "emitCommentAdded env uc c = abind (atry (Emit env uc (comment_added env c))) (\<lambda>_. aret ())"

definition comment_deleted :: "env \<Rightarrow> uuid \<Rightarrow> uuid \<Rightarrow> string \<Rightarrow> StreamEvent" where
  "comment_deleted env exceptionID commentID actor =
     \<lparr> se_DefinitionKey = ''exception_comment.deleted'', se_Subject = commentID,
       se_Payload = [''comment_id'' \<mapsto> PUUID commentID, ''exception_id'' \<mapsto> PUUID exceptionID,
                     ''actor'' \<mapsto> PString actor,
                     ''deleted_at'' \<mapsto> FormatTime (v_clock env SEmit) (v_clock env SFailed)] \<rparr>"

definition emitCommentDeleted :: "env \<Rightarrow> ExceptionUseCase \<Rightarrow> uuid \<Rightarrow> uuid \<Rightarrow> string \<Rightarrow> ('d world, cmd_error, unit) act" where
  "emitCommentDeleted env uc exceptionID commentID actor =
     abind (atry (Emit env uc (comment_deleted env exceptionID commentID actor))) (\<lambda>_. aret ())"

definition AddComment :: "'d ext \<Rightarrow> env \<Rightarrow> ExceptionUseCase option \<Rightarrow> AddCommentInput \<Rightarrow> ('d world, cmd_error, ExceptionComment) act" where
  "AddComment E env uc input =
     (case validateCommentDeps uc of Some e \<Rightarrow> afail (Missing e)
      | None \<Rightarrow>
          if ac_ExceptionID input = 0 then afail (Usecase ErrExceptionIDRequired)
          else if v_actor env = '''' then afail (Usecase ErrActorRequired)
          else if TrimSpace (ac_Content input) = '''' then afail (Usecase ErrCommentContentEmpty)
          else
            abind (FindByID E env (ac_ExceptionID input)) (\<lambda>exception.
              if x_Status exception = ExceptionStatusResolved then afail (Usecase ErrExceptionAlreadyResolved)
              else
                abind (alift (wrap Entity (NewExceptionComment (v_uuid env) (v_clock env SCreate) (ac_ExceptionID input)
                  (v_actor env) (ac_Content input)))) (\<lambda>comment.
                abind (comment_Create env comment) (\<lambda>result.
                abind (emitCommentAdded env (the uc) result) (\<lambda>_.
                  aret result)))))"

definition DeleteComment :: "env \<Rightarrow> ExceptionUseCase option \<Rightarrow> uuid \<Rightarrow> uuid \<Rightarrow> ('d world, cmd_error, unit) act" where
  "DeleteComment env uc exceptionID commentID =
     (case validateCommentDeps uc of Some e \<Rightarrow> afail (Missing e)
      | None \<Rightarrow>
          if exceptionID = 0 then afail (Usecase ErrExceptionIDRequired)
          else if commentID = 0 then afail (Usecase ErrCommentIDRequired)
          else if v_actor env = '''' then afail (Usecase ErrActorRequired)
          else
            abind (comment_FindByID env commentID) (\<lambda>comment.
              if cm_ExceptionID comment \<noteq> exceptionID then afail (Entity ErrCommentNotFound)
              else if cm_Author comment \<noteq> v_actor env then afail (Usecase ErrNotCommentAuthor)
              else
                abind (DeleteByExceptionAndID env exceptionID commentID) (\<lambda>_.
                  emitCommentDeleted env (the uc) exceptionID commentID (v_actor env))))"


section \<open>The repository is faithful\<close>

lemma scanDispute_valid:
  assumes "externals E" "dispute_ok parse D"
  shows "scanDispute E D = Inr D"
proof -
  have cat: "ParseDisputeCategory E (DisputeCategory_string c) = Inr c" if "DisputeCategory_IsValid c" for c
    using that externals.to_upper_ascii [OF assms(1)]
    by (cases c) (simp_all add: ParseDisputeCategory_def DisputeCategory_string_def DisputeCategory_of_def
        DisputeCategory_IsValid_def is_ascii_def ascii_upper_def)
  have st: "ParseDisputeState E (DisputeState_string s) = Inr s" if "DisputeState_IsValid s" for s
    using that externals.to_upper_ascii [OF assms(1)]
    by (cases s) (simp_all add: ParseDisputeState_def DisputeState_string_def DisputeState_of_def
        DisputeState_IsValid_def TrimSpace_visible visible_def is_ascii_def ascii_upper_def)
  from assms(2) show ?thesis by (simp add: scanDispute_def wrap_def cat st dispute_ok_def)
qed

lemma wp_dispute_FindI:
  assumes "externals E" "db_ok parse d" "\<And>e. Q (Inl e) d"
    and "\<And>D. db_disputes d i = Some D \<Longrightarrow> d_ID D = i \<Longrightarrow> dispute_ok parse D \<Longrightarrow> Q (Inr D) d"
  shows "wp (dispute_FindByIDWithTx E env i) Q d"
proof -
  have "wp (findByIDExec E i) (on_ok (\<lambda>e. Q (Inl (if e = ErrNoRows then ErrDisputeNotFound else e))) (\<lambda>a. Q (Inr a))) d"
  proof (cases "db_disputes d i")
    case None
    with assms(3) show ?thesis by (simp add: findByIDExec_def wp_def)
  next
    case (Some D)
    with assms(2) have D: "d_ID D = i" "dispute_ok parse D" by (simp_all add: db_ok_def)
    with Some assms(4) scanDispute_valid [OF assms(1) D(2)] show ?thesis by (simp add: findByIDExec_def wp_def)
  qed
  with assms(3) show ?thesis by (simp add: dispute_FindByIDWithTx_def)
qed

lemma dispute_executeUpdate_row:
  assumes "externals E" "dispute_ok parse D'" "db_disputes d (d_ID D') = Some D"
    and "d_ID D = d_ID D'" "d_ExceptionID D = d_ExceptionID D'" "d_CreatedAt D = d_CreatedAt D'"
  shows "dispute_executeUpdate E D' d = (Inr D', d\<lparr> db_disputes := (db_disputes d)(d_ID D' \<mapsto> D') \<rparr>)"
proof -
  have "D\<lparr> d_Category := d_Category D', d_State := d_State D', d_Description := d_Description D',
      d_OpenedBy := d_OpenedBy D', d_Resolution := d_Resolution D', d_ReopenReason := d_ReopenReason D',
      d_Evidence := d_Evidence D', d_UpdatedAt := d_UpdatedAt D' \<rparr> = D'"
    using assms(4-6) by simp
  with assms(1-3) show ?thesis by (simp add: dispute_executeUpdate_def findByIDExec_def scanDispute_valid)
qed

lemma dispute_step_keeps:
  assumes "dispute_step parse D e = Inr D'"
  shows "d_ID D' = d_ID D \<and> d_ExceptionID D' = d_ExceptionID D \<and> d_CreatedAt D' = d_CreatedAt D"
  using assms by (cases rule: dispute_step_cases) (auto simp: dispute_inv)

section \<open>One transaction per command\<close>

text \<open>The shape CloseDispute and SubmitEvidence share.\<close>

definition dispute_change :: "'d ext \<Rightarrow> env \<Rightarrow> ExceptionUseCase \<Rightarrow> uuid \<Rightarrow> (Dispute \<Rightarrow> dispute_error + Dispute) \<Rightarrow>
    (Dispute \<Rightarrow> AuditEvent) \<Rightarrow> (Dispute \<Rightarrow> StreamEvent option) \<Rightarrow> ('d world, cmd_error, Dispute) act" where
  "dispute_change E env uc i f ev se =
     critical_tx env i
       (abind (dispute_FindByIDWithTx E env i) (\<lambda>existing.
        abind (alift (wrap Dispute_error (f existing))) (\<lambda>changed.
        abind (dispute_UpdateWithTx E env changed) (\<lambda>updated.
        abind (PublishExceptionEventWithTx env (ev updated)) (\<lambda>_.
        abind (case se updated of None \<Rightarrow> aret () | Some e \<Rightarrow> EmitWithTx env uc e) (\<lambda>_.
          aret updated))))))"

lemma processCloseDispute_shape:
  "processCloseDispute E env uc cmd params =
     dispute_change E env uc (cd_DisputeID cmd) (close_dispute env cmd params) (close_dispute_event E env cmd params)
       (\<lambda>D. Some (close_stream env cmd D))"
  by (simp add: processCloseDispute_def dispute_change_def)

lemma processSubmitEvidence_shape:
  "processSubmitEvidence E parse env uc cmd params =
     dispute_change E env uc (sv_DisputeID cmd) (submit_evidence parse env params) (submit_evidence_event E env params)
       (evidence_stream env)"
  by (simp add: processSubmitEvidence_def dispute_change_def)

text \<open>A database in which a dispute was written together with its audit event and its outbox entry.\<close>

definition dispute_written :: "Dispute \<Rightarrow> AuditEvent \<Rightarrow> StreamEvent option \<Rightarrow> db \<Rightarrow> db" where
  "dispute_written D ev se d = d\<lparr> db_disputes := (db_disputes d)(d_ID D \<mapsto> D), db_audit := db_audit d @ [ev],
     db_outbox := db_outbox d @ (case se of None \<Rightarrow> [] | Some e \<Rightarrow> [e]) \<rparr>"

lemma follows_dispute:
  assumes "dispute_ok parse D'" "\<forall>D. db_disputes d (d_ID D') = Some D \<longrightarrow> dispute_le D D'"
  shows "follows parse d (dispute_written D' ev se d)"
  unfolding follows_def
proof (intro conjI)
  show "\<exists>evs. db_audit (dispute_written D' ev se d) = db_audit d @ evs \<and> rows_le evs d (dispute_written D' ev se d)"
    by (auto simp: dispute_written_def rows_le_def)
  show "db_ok parse d \<longrightarrow> db_ok parse (dispute_written D' ev se d)"
    using assms(1) by (auto simp: db_ok_def dispute_written_def)
qed (use assms(2) in \<open>auto simp: dispute_written_def\<close>)

lemma dispute_change_post:
  assumes "externals E" "serves parse env w" "\<And>D. \<exists>e. f D = dispute_step parse D e"
  shows "wp (dispute_change E env uc i f ev se)
    (on_ok (\<lambda>e w'. w' = w\<lparr> w_db := v_others env SBegin i (w_db w) \<rparr>)
       (\<lambda>D' w'. \<exists>D. db_disputes (v_others env SBegin i (w_db w)) i = Some D \<and> f D = Inr D' \<and>
          w' = w\<lparr> w_db := dispute_written D' (ev D') (se D') (v_others env SBegin i (w_db w)) \<rparr>)) w"
  unfolding dispute_change_def
proof (rule wp_critical_txI, goal_cases)
  case 2
  let ?d = "v_others env SBegin i (w_db w)"
  have ok: "db_ok parse ?d" using serves_step(3) [OF assms(2) follows_refl] .
  show ?case
  proof (simp, rule wp_dispute_FindI [OF assms(1) ok], goal_cases)
    case (2 D)
    then obtain e where e: "f D = dispute_step parse D e" using assms(3) by blast
    show ?case
    proof (cases "f D")
      case (Inr D')
      with e have keep: "d_ID D' = d_ID D" "d_ExceptionID D' = d_ExceptionID D" "d_CreatedAt D' = d_CreatedAt D"
        and ok': "dispute_ok parse D'"
        using dispute_step_keeps [of parse D e D'] dispute_step_le [OF 2(3), of e D'] by auto
      with 2 dispute_executeUpdate_row [OF assms(1) ok', of ?d D]
      have "dispute_executeUpdate E D' ?d = (Inr D', ?d\<lparr> db_disputes := (db_disputes ?d)(d_ID D' \<mapsto> D') \<rparr>)" by simp
      with Inr 2 show ?thesis
        by (cases "se D'") (auto simp: wrap_def dispute_UpdateWithTx_def wp_def [of "dispute_executeUpdate E D'"]
            PublishExceptionEventWithTx_def EmitWithTx_def dispute_written_def keep)
    qed (simp add: wrap_def)
  qed simp
qed simp


lemma close_dispute_step: "\<exists>e. close_dispute env cmd params D = dispute_step parse D e"
  by (cases "cd_Won cmd")
    (auto simp: close_dispute_def dispute_step_def
      intro: exI [of _ "DWin (v_clock env SOpen) (cq_resolution params)"] exI [of _ "DLose (v_clock env SOpen) (cq_resolution params)"])

lemma submit_evidence_step: "\<exists>e. submit_evidence parse env params D = dispute_step parse D e"
  by (rule exI [of _ "DAddEvidence (v_uuid env) (v_clock env SOpen) (sq_comment params) (sq_actor params) (sq_fileURL params)"])
    (simp add: submit_evidence_def dispute_step_def)

lemma processOpenDispute_post:
  assumes "externals E" "serves parse env w"
  shows "wp (processOpenDispute E env uc cmd params)
    (on_ok (\<lambda>e w'. w' = w \<or> w' = w\<lparr> w_db := v_others env SBegin (od_ExceptionID cmd) (w_db w) \<rparr>)
       (\<lambda>D w'. \<exists>N. NewDispute (v_uuid env) (v_clock env SCreate) (od_ExceptionID cmd) (op_category params)
            (op_description params) (op_actor params) = Inr N \<and> Open (v_clock env SOpen) (Some N) = Inr D \<and>
          db_disputes (v_others env SBegin (od_ExceptionID cmd) (w_db w)) (d_ID D) = None \<and>
          w' = w\<lparr> w_db := dispute_written D (open_dispute_event E env cmd params D)
            (Some (dispute_stream ''dispute.opened'' D (open_dispute_extra env D)))
            (v_others env SBegin (od_ExceptionID cmd) (w_db w)) \<rparr>)) w"
    (is "wp _ ?Q w")
  unfolding processOpenDispute_def wp_abind
proof (rule wp_FindByIDI [OF assms], goal_cases)
  case (2 x)
  let ?d = "v_others env SBegin (od_ExceptionID cmd) (w_db w)"
  let ?new = "NewDispute (v_uuid env) (v_clock env SCreate) (od_ExceptionID cmd) (op_category params)
    (op_description params) (op_actor params)"
  show ?case
  proof (cases ?new)
    case (Inr N)
    then obtain D where D: "Open (v_clock env SOpen) (Some N) = Inr D" "dispute_ok parse D"
      by (auto simp: NewDispute_def Open_Inr dispute_ok_def DisputeState_IsValid_def IsTerminal_def split: if_splits)
    have "wp (dispute_executeCreate E D) (on_ok (\<lambda>_ _. True) (\<lambda>a d. a = D \<and> db_disputes ?d (d_ID D) = None \<and>
        d = ?d\<lparr> db_disputes := (db_disputes ?d)(d_ID D \<mapsto> D) \<rparr>)) ?d"
      using scanDispute_valid [OF assms(1) D(2)]
      by (simp add: wp_def dispute_executeCreate_def findByIDExec_def)
    then have "wp (abind (dispute_CreateWithTx E env D) (\<lambda>created.
        abind (PublishExceptionEventWithTx env (open_dispute_event E env cmd params created)) (\<lambda>_.
        abind (emitDisputeCritical env uc ''dispute.opened'' created (open_dispute_extra env created)) (\<lambda>_. aret created))))
        (on_ok (\<lambda>_ _. True) (\<lambda>a d. ?Q (Inr a) (w\<lparr> w_db := d \<rparr>))) ?d"
      using Inr D(1)
      by (auto simp: dispute_CreateWithTx_def PublishExceptionEventWithTx_def emitDisputeCritical_def EmitWithTx_def
          dispute_written_def on_ok_def elim!: wp_mono split: sum.splits)
    then show ?thesis using Inr D(1) by (auto simp: wrap_def simp del: wp_abind intro!: wp_critical_txI)
  qed (simp add: wrap_def)
qed simp


section \<open>The commands keep the contract\<close>

lemma dispute_change_contract:
  assumes "externals E" "serves parse env w" "\<And>D. \<exists>e. f D = dispute_step parse D e"
  shows "wp (dispute_change E env uc i f ev se) (\<lambda>r w'. follows parse (w_db w) (w_db w')) w"
proof (rule wp_mono [OF dispute_change_post [OF assms]], goal_cases)
  case (1 r w')
  let ?d = "v_others env SBegin i (w_db w)"
  have d: "follows parse (w_db w) ?d" "db_ok parse ?d" using serves_step [OF assms(2) follows_refl] by blast+
  show ?case
  proof (cases r)
    case (Inr D')
    with 1 obtain D where D: "db_disputes ?d i = Some D" "f D = Inr D'" "w_db w' = dispute_written D' (ev D') (se D') ?d"
      by auto
    from assms(3) [of D] D(2) obtain e where e: "dispute_step parse D e = Inr D'" by auto
    have ok: "d_ID D = i" "dispute_ok parse D" using d(2) D(1) by (auto simp: db_ok_def)
    from dispute_step_le [OF ok(2) e] D(1) ok(1) have "follows parse ?d (dispute_written D' (ev D') (se D') ?d)"
      by (intro follows_dispute) (auto simp: dispute_le_def)
    with d(1) D(3) show ?thesis using follows_trans by simp
  qed (use 1 d in auto)
qed

lemma CloseDispute_contract:
  assumes "externals E" "serves parse env w"
  shows "wp (CloseDispute E env uc cmd) (\<lambda>r w'. follows parse (w_db w) (w_db w')) w"
  by (cases "validateCloseDispute env uc cmd")
    (simp_all add: CloseDispute_def processCloseDispute_shape
      dispute_change_contract [OF assms close_dispute_step])

lemma SubmitEvidence_contract:
  assumes "externals E" "serves parse env w"
  shows "wp (SubmitEvidence E parse env uc cmd) (\<lambda>r w'. follows parse (w_db w) (w_db w')) w"
  by (cases "validateSubmitEvidence env uc cmd")
    (simp_all add: SubmitEvidence_def processSubmitEvidence_shape
      dispute_change_contract [OF assms submit_evidence_step])

lemma OpenDispute_contract:
  assumes "externals E" "serves parse env w"
  shows "wp (OpenDispute E env uc cmd) (\<lambda>r w'. follows parse (w_db w) (w_db w')) w"
proof (cases "validateOpenDispute E env uc cmd")
  case (Inr params)
  let ?d = "v_others env SBegin (od_ExceptionID cmd) (w_db w)"
  have d: "follows parse (w_db w) ?d" using serves_step [OF assms(2) follows_refl] by blast
  have "wp (processOpenDispute E env (the uc) cmd params) (\<lambda>r w'. follows parse (w_db w) (w_db w')) w"
  proof (rule wp_mono [OF processOpenDispute_post [OF assms]], goal_cases)
    case (1 r w')
    show ?case
    proof (cases r)
      case (Inr D)
      with 1 have "dispute_ok parse D"
        by (auto simp: NewDispute_def Open_Inr dispute_ok_def DisputeState_IsValid_def IsTerminal_def split: if_splits)
      with 1 Inr have "follows parse ?d (w_db w')" by (auto intro!: follows_dispute)
      with d show ?thesis by (rule follows_trans)
    qed (use 1 d in auto)
  qed
  with Inr show ?thesis by (simp add: OpenDispute_def)
qed (simp add: OpenDispute_def)

section \<open>Comments\<close>

text \<open>Comments are outside the contract of the other tables.\<close>

definition comment_set :: "uuid \<Rightarrow> ExceptionComment option \<Rightarrow> db \<Rightarrow> db" where
  "comment_set i c d = d\<lparr> db_comments := (db_comments d)(i := c) \<rparr>"

lemma follows_comment: "follows parse d (comment_set i c d)"
  by (rule follows_append [where evs = "[]"]) (simp_all add: comment_set_def)

definition emitted :: "StreamEvent \<Rightarrow> 'd world \<Rightarrow> 'd world \<Rightarrow> bool" where
  "emitted ev w w' \<longleftrightarrow> w' = w \<or> w' = w\<lparr> w_stream := w_stream w @ [ev] \<rparr>"

lemma wp_emitCommentAdded:
  "(\<And>w'. emitted (comment_added env c) w w' \<Longrightarrow> Q (Inr ()) w') \<Longrightarrow> wp (emitCommentAdded env uc c) Q w"
  by (auto simp: emitCommentAdded_def Emit_def emitted_def)

lemma wp_emitCommentDeleted:
  "(\<And>w'. emitted (comment_deleted env i j a) w w' \<Longrightarrow> Q (Inr ()) w') \<Longrightarrow> wp (emitCommentDeleted env uc i j a) Q w"
  by (auto simp: emitCommentDeleted_def Emit_def emitted_def)

lemma AddComment_post:
  assumes "externals E" "serves parse env w"
  shows "wp (AddComment E env uc input)
    (on_ok (\<lambda>e w'. w' = w \<or> w' = w\<lparr> w_db := v_others env SCreate (v_uuid env) (w_db w) \<rparr>)
       (\<lambda>c w'. \<exists>x. db_exceptions (v_replica env) (ac_ExceptionID input) = Some x \<and>
          x_Status x \<noteq> ExceptionStatusResolved \<and>
          NewExceptionComment (v_uuid env) (v_clock env SCreate) (ac_ExceptionID input) (v_actor env) (ac_Content input) = Inr c \<and>
          db_comments (v_others env SCreate (v_uuid env) (w_db w)) (v_uuid env) = None \<and>
          emitted (comment_added env c)
            (w\<lparr> w_db := comment_set (v_uuid env) (Some c) (v_others env SCreate (v_uuid env) (w_db w)) \<rparr>) w')) w"
    (is "wp _ ?Q w")
proof -
  let ?d = "v_others env SCreate (v_uuid env) (w_db w)"
  let ?new = "NewExceptionComment (v_uuid env) (v_clock env SCreate) (ac_ExceptionID input) (v_actor env) (ac_Content input)"
  have "wp (abind (comment_Create env c) (\<lambda>result. abind (emitCommentAdded env (the uc) result) (\<lambda>_. aret result))) ?Q w"
    if "?new = Inr c" "db_exceptions (v_replica env) (ac_ExceptionID input) = Some x"
      "x_Status x \<noteq> ExceptionStatusResolved" for c x
  proof -
    have i: "cm_ID c = v_uuid env" using that(1) by (auto simp: NewExceptionComment_def split: if_splits)
    have "wp (comment_executeCreate c) (on_ok (\<lambda>_ _. True) (\<lambda>a d. a = c \<and> db_comments ?d (v_uuid env) = None \<and>
        d = comment_set (v_uuid env) (Some c) ?d)) ?d"
      by (simp add: wp_def comment_executeCreate_def i comment_set_def)
    then show ?thesis using that
      by (auto simp: comment_Create_def i on_ok_def intro!: wp_sessionI wp_emitCommentAdded elim!: wp_mono split: sum.splits)
  qed
  then show ?thesis unfolding AddComment_def
    by (cases ?new) (auto simp: wrap_def simp del: wp_abind split: option.splits
        intro!: wp_abind [THEN fun_cong, THEN iffD2] wp_FindByIDI [OF assms])
qed


lemma DeleteComment_post:
  "wp (DeleteComment env uc exceptionID commentID)
    (on_ok (\<lambda>e w'. w' = w \<or> w' = w\<lparr> w_db := v_others env SUpdate commentID (w_db w) \<rparr>)
       (\<lambda>_ w'. \<exists>c c'. db_comments (v_replica env) commentID = Some c \<and> cm_ExceptionID c = exceptionID \<and>
          cm_Author c = v_actor env \<and>
          db_comments (v_others env SUpdate commentID (w_db w)) commentID = Some c' \<and> cm_ExceptionID c' = exceptionID \<and>
          emitted (comment_deleted env exceptionID commentID (v_actor env))
            (w\<lparr> w_db := comment_set commentID None (v_others env SUpdate commentID (w_db w)) \<rparr>) w')) w"
    (is "wp _ ?Q w")
proof -
  let ?d = "v_others env SUpdate commentID (w_db w)"
  have "wp (abind (DeleteByExceptionAndID env exceptionID commentID)
      (\<lambda>_. emitCommentDeleted env (the uc) exceptionID commentID (v_actor env))) ?Q w"
    if "db_comments (v_replica env) commentID = Some c" "cm_ExceptionID c = exceptionID" "cm_Author c = v_actor env" for c
  proof -
    have "wp (executeDeleteByExceptionAndID exceptionID commentID) (on_ok (\<lambda>_ _. True) (\<lambda>_ d.
        (\<exists>c'. db_comments ?d commentID = Some c' \<and> cm_ExceptionID c' = exceptionID) \<and> d = comment_set commentID None ?d)) ?d"
      by (simp add: wp_def executeDeleteByExceptionAndID_def comment_set_def split: option.splits)
    then show ?thesis using that
      by (auto simp: DeleteByExceptionAndID_def on_ok_def intro!: wp_sessionI wp_emitCommentDeleted
          elim!: wp_mono split: sum.splits)
  qed
  then show ?thesis unfolding DeleteComment_def
    by (auto simp: comment_FindByID_def split: option.splits)
qed

lemma AddComment_contract:
  assumes "externals E" "serves parse env w"
  shows "wp (AddComment E env uc input) (\<lambda>r w'. follows parse (w_db w) (w_db w')) w"
proof (rule wp_mono [OF AddComment_post [OF assms]], goal_cases)
  case (1 r w')
  have d: "follows parse (w_db w) (v_others env SCreate (v_uuid env) (w_db w))"
    using serves_step [OF assms(2) follows_refl] by blast
  from 1 show ?case
    by (cases r) (auto simp: emitted_def d intro!: follows_trans [OF d follows_comment])
qed

lemma DeleteComment_contract:
  assumes "serves parse env w"
  shows "wp (DeleteComment env uc exceptionID commentID) (\<lambda>r w'. follows parse (w_db w) (w_db w')) w"
proof (rule wp_mono [OF DeleteComment_post], goal_cases)
  case (1 r w')
  have d: "follows parse (w_db w) (v_others env SUpdate commentID (w_db w))"
    using serves_step [OF assms follows_refl] by blast
  from 1 show ?case
    by (cases r) (auto simp: emitted_def d intro!: follows_trans [OF d follows_comment])
qed

section \<open>Results when nothing fails\<close>

text \<open>Every infrastructure call succeeds and events can be emitted.\<close>

definition healthy :: "env \<Rightarrow> ExceptionUseCase \<Rightarrow> bool" where
  "healthy env uc \<longleftrightarrow> (\<forall>s i. v_fault env s i = None) \<and> uc_streamEmitter uc \<and> v_tenant env \<noteq> ''''"

lemma dispute_change_healthy:
  assumes "externals E" "serves parse env w" "\<And>D. \<exists>e. f D = dispute_step parse D e" "healthy env uc"
  shows "fst (dispute_change E env uc i f ev se w) =
    (case db_disputes (v_others env SBegin i (w_db w)) i of
       None \<Rightarrow> Inl ErrDisputeNotFound | Some D \<Rightarrow> wrap Dispute_error (f D))"
proof -
  let ?d = "v_others env SBegin i (w_db w)"
  have ok: "db_ok parse ?d" using serves_step(3) [OF assms(2) follows_refl] .
  have fault: "fault env s j = None" "v_fault env s j = None" for s j using assms(4) by (simp_all add: healthy_def fault_def)
  have emit: "emit_error env uc True j = None" for j using assms(4) by (simp add: emit_error_def fault healthy_def)
  have "wp (dispute_change E env uc i f ev se) (\<lambda>r w'. r = (case db_disputes ?d i of
      None \<Rightarrow> Inl ErrDisputeNotFound | Some D \<Rightarrow> wrap Dispute_error (f D))) w"
  proof (cases "db_disputes ?d i")
    case None
    then show ?thesis
      by (simp add: dispute_change_def critical_tx_def wp_in_tx validateCriticalTxLease_def fault
          dispute_FindByIDWithTx_def findByIDExec_def wp_def [of "findByIDExec E i"])
  next
    case (Some D)
    with ok have D: "d_ID D = i" "dispute_ok parse D" by (auto simp: db_ok_def)
    from assms(3) obtain e where e: "f D = dispute_step parse D e" by blast
    have find: "findByIDExec E i ?d = (Inr D, ?d)"
      using Some scanDispute_valid [OF assms(1) D(2)] by (simp add: findByIDExec_def)
    show ?thesis
    proof (cases "f D")
      case (Inr D')
      with e have "d_ID D' = d_ID D" "d_ExceptionID D' = d_ExceptionID D" "d_CreatedAt D' = d_CreatedAt D"
        and ok': "dispute_ok parse D'"
        using dispute_step_keeps [of parse D e D'] dispute_step_le [OF D(2), of e D'] by auto
      with Some D dispute_executeUpdate_row [OF assms(1) ok', of ?d D]
      have "dispute_executeUpdate E D' ?d = (Inr D', ?d\<lparr> db_disputes := (db_disputes ?d)(d_ID D' \<mapsto> D') \<rparr>)" by simp
      with Inr Some find show ?thesis
        by (cases "se D'") (simp_all add: dispute_change_def critical_tx_def wp_in_tx validateCriticalTxLease_def fault
          dispute_FindByIDWithTx_def wp_def [of "findByIDExec E i"] wrap_def dispute_UpdateWithTx_def
          wp_def [of "dispute_executeUpdate E D'"] PublishExceptionEventWithTx_def EmitWithTx_def emit)
    qed (use Some find in \<open>simp add: dispute_change_def critical_tx_def wp_in_tx validateCriticalTxLease_def fault
          dispute_FindByIDWithTx_def wp_def [of "findByIDExec E i"] wrap_def\<close>)
  qed
  then show ?thesis by (simp add: wp_def split: prod.splits)
qed

end
