(* ===== verification/Connector.thy ===== *)
theory Connector
  imports Exception_Store
begin

text \<open>
  The HTTP connector to external systems (\<^verbatim>\<open>internal/exception/adapters/http/connectors\<close>): the
  routing of a dispatch to its target, and the retry loop around one request. What the network and
  the circuit breaker answer at each attempt is in \<open>http_env\<close>, as are interrupted waits between
  attempts and the HMAC-SHA256 of a body; time-outs and delays are not part of the world. Every call
  of \<^verbatim>\<open>client.Do\<close> is recorded in \<open>w_http\<close>. Error texts are dropped, an error is its sentinel.
\<close>

section \<open>Configuration\<close>

record BaseConnectorConfig =
  bc_MaxRetries :: "int option"

record JiraConnectorConfig =
  jc_Base :: BaseConnectorConfig
  jc_BaseURL :: string
  jc_AuthToken :: string

record WebhookConnectorConfig =
  wc_Base :: BaseConnectorConfig
  wc_URL :: string
  wc_SharedSecret :: string
  wc_RequireSignedPayloads :: bool

record ConnectorConfig =
  cc_Jira :: "JiraConnectorConfig option"
  cc_Webhook :: "WebhookConnectorConfig option"

definition DefaultMaxRetries :: int where
  "DefaultMaxRetries = 3"

definition MaxRetriesOrDefault :: "BaseConnectorConfig \<Rightarrow> int" where
  "MaxRetriesOrDefault b = (case bc_MaxRetries b of None \<Rightarrow> DefaultMaxRetries | Some n \<Rightarrow> n)"

section \<open>One attempt\<close>

record http_env =
  hx_breaker :: bool
  hx_register :: "string \<Rightarrow> nat \<Rightarrow> bool"
  hx_reject :: "string \<Rightarrow> nat \<Rightarrow> bool"
  hx_do :: "string \<Rightarrow> nat \<Rightarrow> string + (int \<times> string)"
  hx_interrupted :: "string \<Rightarrow> nat \<Rightarrow> bool"
  hx_key :: "string \<Rightarrow> string option"
  hx_hmac :: "dispatchPayload \<Rightarrow> string \<Rightarrow> string"

definition client_Do :: "http_env \<Rightarrow> nat \<Rightarrow> HttpRequest \<Rightarrow> ('d world, connector_error, int \<times> string) act" where
  "client_Do hx k req =
     abind (aupdate (\<lambda>w. w\<lparr> w_http := w_http w @ [req] \<rparr>)) (\<lambda>_.
       alift (case hx_do hx (hq_IdempotencyKey req) k of Inl e \<Rightarrow> Inl (ErrHTTPClientDo e) | Inr resp \<Rightarrow> Inr resp))"

text \<open>A breaker that cannot be registered is bypassed; one that executes the call counts server
  errors as failures.\<close>

definition doHTTPWithBreaker :: "http_env \<Rightarrow> nat \<Rightarrow> HttpRequest \<Rightarrow> ('d world, connector_error, int \<times> string) act" where
  "doHTTPWithBreaker hx k req =
     (if \<not> hx_breaker hx \<or> \<not> hx_register hx (hq_IdempotencyKey req) k then client_Do hx k req
      else if hx_reject hx (hq_IdempotencyKey req) k then afail ErrCircuitBreakerOpen
      else abind (client_Do hx k req) (\<lambda>resp.
        if fst resp \<ge> 500 then afail (ErrServerError (fst resp)) else aret resp))"

definition isRetryableStatus :: "int \<Rightarrow> bool" where
  "isRetryableStatus statusCode \<longleftrightarrow> statusCode = 429 \<or> statusCode \<ge> 500"

text \<open>The error of a failed attempt comes with the decision to try again.\<close>

definition executeAttempt :: "http_env \<Rightarrow> HttpRequest \<Rightarrow> nat \<Rightarrow> nat \<Rightarrow>
    ('d world, connector_error, (connector_error \<times> bool) + (int \<times> string)) act" where
  "executeAttempt hx req k maxRetries =
     abind (atry (doHTTPWithBreaker hx k req)) (\<lambda>r.
       aret (case r of
          Inl err \<Rightarrow> Inl (err, err \<noteq> ErrCircuitBreakerOpen \<and> Suc k < maxRetries)
        | Inr resp \<Rightarrow>
            if fst resp \<ge> 200 \<and> fst resp < 300 then Inr resp
            else if \<not> isRetryableStatus (fst resp) then Inl (ErrNonRetryableStatus (fst resp), False)
            else Inl (ErrRetryableHTTPStatus (fst resp), Suc k < maxRetries)))"

section \<open>The retry loop\<close>

primrec retry_loop :: "http_env \<Rightarrow> HttpRequest \<Rightarrow> nat \<Rightarrow> nat \<Rightarrow> ('d world, connector_error, int \<times> string) act" where
  "retry_loop hx req maxRetries 0 = afail ErrMaxRetriesExceeded"
| "retry_loop hx req maxRetries (Suc left) =
     abind (executeAttempt hx req (maxRetries - Suc left) maxRetries) (\<lambda>r.
       case r of
         Inr resp \<Rightarrow> aret resp
       | Inl (err, retry) \<Rightarrow>
           if \<not> retry then afail err
           else if hx_interrupted hx (hq_IdempotencyKey req) (maxRetries - Suc left) then afail ErrSleepInterrupted
           else retry_loop hx req maxRetries left)"

definition executeWithRetry :: "http_env \<Rightarrow> HttpRequest \<Rightarrow> int \<Rightarrow> ('d world, connector_error, int \<times> string) act" where
  "executeWithRetry hx req maxRetries = retry_loop hx req (nat maxRetries) (nat maxRetries)"

section \<open>Targets\<close>

record DispatchResult =
  dr_Target :: RoutingTarget
  dr_ExternalReference :: string
  dr_Acknowledged :: bool

definition RoutingTarget_string :: "RoutingTarget \<Rightarrow> string" where
  "RoutingTarget_string target =
     (case target of
        RoutingTargetManual \<Rightarrow> ''MANUAL'' | RoutingTargetJira \<Rightarrow> ''JIRA'' | RoutingTargetServiceNow \<Rightarrow> ''SERVICENOW''
      | RoutingTargetWebhook \<Rightarrow> ''WEBHOOK'' | RoutingTargetOther s \<Rightarrow> s)"

definition RoutingTarget_of :: "string \<Rightarrow> RoutingTarget" where
  "RoutingTarget_of s =
     (if s = ''MANUAL'' then RoutingTargetManual else if s = ''JIRA'' then RoutingTargetJira
      else if s = ''SERVICENOW'' then RoutingTargetServiceNow else if s = ''WEBHOOK'' then RoutingTargetWebhook
      else RoutingTargetOther s)"

definition generateIdempotencyKey :: "string \<Rightarrow> RoutingTarget \<Rightarrow> string \<Rightarrow> string" where
  "generateIdempotencyKey exceptionID target queue =
     (let key = ''dispatch:'' @ RoutingTarget_string target @ '':'' @ exceptionID in
      if queue \<noteq> '''' then key @ '':'' @ queue else key)"

definition dispatchToJira :: "http_env \<Rightarrow> ConnectorConfig \<Rightarrow> string \<Rightarrow> RoutingTarget \<Rightarrow> string \<Rightarrow> dispatchPayload \<Rightarrow>
    ('d world, connector_error, DispatchResult) act" where
  "dispatchToJira hx config exceptionID target queue payload =
     (case cc_Jira config of None \<Rightarrow> afail ErrConnectorNotConfigured
      | Some jira \<Rightarrow>
          abind (executeWithRetry hx
            \<lparr> hq_URL = jc_BaseURL jira @ ''/rest/api/2/issue'', hq_Authorization = Some (''Bearer '' @ jc_AuthToken jira),
              hq_IdempotencyKey = generateIdempotencyKey exceptionID target queue, hq_Signature = None, hq_Body = payload \<rparr>
            (MaxRetriesOrDefault (jc_Base jira))) (\<lambda>resp.
            case hx_key hx (snd resp) of None \<Rightarrow> afail ErrDecodeResponse
            | Some key \<Rightarrow> aret \<lparr> dr_Target = target, dr_ExternalReference = key, dr_Acknowledged = True \<rparr>))"

definition dispatchToWebhook :: "http_env \<Rightarrow> ConnectorConfig \<Rightarrow> string \<Rightarrow> RoutingTarget \<Rightarrow> string \<Rightarrow> dispatchPayload \<Rightarrow>
    ('d world, connector_error, DispatchResult) act" where
  "dispatchToWebhook hx config exceptionID target queue payload =
     (case cc_Webhook config of None \<Rightarrow> afail ErrConnectorNotConfigured
      | Some webhook \<Rightarrow>
          if wc_RequireSignedPayloads webhook \<and> TrimSpace (wc_SharedSecret webhook) = ''''
          then afail ErrWebhookMissingSharedSecret
          else
            abind (executeWithRetry hx
              \<lparr> hq_URL = wc_URL webhook, hq_Authorization = None,
                hq_IdempotencyKey = generateIdempotencyKey exceptionID target queue,
                hq_Signature = (if wc_SharedSecret webhook \<noteq> '''' then Some (hx_hmac hx payload (wc_SharedSecret webhook)) else None),
                hq_Body = payload \<rparr>
              (MaxRetriesOrDefault (wc_Base webhook))) (\<lambda>_.
              aret \<lparr> dr_Target = target, dr_ExternalReference = '''', dr_Acknowledged = True \<rparr>))"

definition connector_Dispatch :: "http_env \<Rightarrow> ConnectorConfig \<Rightarrow> string \<Rightarrow> RoutingTarget \<Rightarrow> string \<Rightarrow> dispatchPayload \<Rightarrow>
    ('d world, connector_error, DispatchResult) act" where
  "connector_Dispatch hx config exceptionID target queue payload =
     (case target of
        RoutingTargetManual \<Rightarrow> aret \<lparr> dr_Target = target, dr_ExternalReference = '''', dr_Acknowledged = True \<rparr>
      | RoutingTargetJira \<Rightarrow> dispatchToJira hx config exceptionID target queue payload
      | RoutingTargetWebhook \<Rightarrow> dispatchToWebhook hx config exceptionID target queue payload
      | RoutingTargetServiceNow \<Rightarrow> afail ErrUnsupportedTarget
      | RoutingTargetOther _ \<Rightarrow> afail ErrUnsupportedTarget)"


section \<open>What the retry loop does\<close>

text \<open>The answer to an attempt, and when it is a delivery or a reason to try again.\<close>

definition rejected :: "http_env \<Rightarrow> string \<Rightarrow> nat \<Rightarrow> bool" where
  "rejected hx key k \<longleftrightarrow> hx_breaker hx \<and> hx_register hx key k \<and> hx_reject hx key k"

definition answer :: "http_env \<Rightarrow> string \<Rightarrow> nat \<Rightarrow> connector_error + (int \<times> string)" where
  "answer hx key k =
     (if rejected hx key k then Inl ErrCircuitBreakerOpen
      else case hx_do hx key k of
        Inl e \<Rightarrow> Inl (ErrHTTPClientDo e)
      | Inr resp \<Rightarrow> if hx_breaker hx \<and> hx_register hx key k \<and> fst resp \<ge> 500 then Inl (ErrServerError (fst resp)) else Inr resp)"

definition delivered :: "http_env \<Rightarrow> string \<Rightarrow> nat \<Rightarrow> int \<times> string \<Rightarrow> bool" where
  "delivered hx key k resp \<longleftrightarrow> \<not> rejected hx key k \<and> hx_do hx key k = Inr resp \<and> 200 \<le> fst resp \<and> fst resp < 300"

definition transient :: "http_env \<Rightarrow> string \<Rightarrow> nat \<Rightarrow> bool" where
  "transient hx key k \<longleftrightarrow> \<not> rejected hx key k \<and>
     (case hx_do hx key k of Inl e \<Rightarrow> True | Inr resp \<Rightarrow> fst resp = 429 \<or> fst resp \<ge> 500)"

lemma doHTTPWithBreaker_exact:
  "doHTTPWithBreaker hx k req w =
     (answer hx (hq_IdempotencyKey req) k,
      w\<lparr> w_http := w_http w @ (if rejected hx (hq_IdempotencyKey req) k then [] else [req]) \<rparr>)"
  by (auto simp: doHTTPWithBreaker_def client_Do_def answer_def rejected_def abind_def aupdate_def alift_def afail_def
      aret_def split: sum.splits)

lemma retry_loop_Suc:
  "retry_loop hx req n (Suc left) w =
     (let key = hq_IdempotencyKey req; k = n - Suc left;
          w' = w\<lparr> w_http := w_http w @ (if rejected hx key k then [] else [req]) \<rparr> in
      case answer hx key k of
        Inr resp \<Rightarrow>
          if 200 \<le> fst resp \<and> fst resp < 300 then (Inr resp, w')
          else if \<not> isRetryableStatus (fst resp) then (Inl (ErrNonRetryableStatus (fst resp)), w')
          else if \<not> Suc k < n then (Inl (ErrRetryableHTTPStatus (fst resp)), w')
          else if hx_interrupted hx key k then (Inl ErrSleepInterrupted, w')
          else retry_loop hx req n left w'
      | Inl err \<Rightarrow>
          if err = ErrCircuitBreakerOpen \<or> \<not> Suc k < n then (Inl err, w')
          else if hx_interrupted hx key k then (Inl ErrSleepInterrupted, w')
          else retry_loop hx req n left w')"
  by (cases "answer hx (hq_IdempotencyKey req) (n - Suc left)")
    (auto simp: executeAttempt_def doHTTPWithBreaker_exact abind_def atry_def aret_def afail_def Let_def)

lemma answer_cases:
  obtains (delivered) resp where "answer hx key k = Inr resp" "delivered hx key k resp" "\<not> transient hx key k"
  | (rejected) "answer hx key k = Inl ErrCircuitBreakerOpen" "\<not> transient hx key k" "rejected hx key k"
  | (failed) err where "answer hx key k = Inl err" "err \<noteq> ErrCircuitBreakerOpen" "err \<noteq> ErrMaxRetriesExceeded" "transient hx key k"
  | (retryable) resp where "answer hx key k = Inr resp" "isRetryableStatus (fst resp)" "transient hx key k"
      "\<not> (200 \<le> fst resp \<and> fst resp < 300)"
  | (refused) resp where "answer hx key k = Inr resp" "\<not> isRetryableStatus (fst resp)" "\<not> transient hx key k"
      "\<not> (200 \<le> fst resp \<and> fst resp < 300)"
  by (cases "rejected hx key k"; cases "hx_do hx key k")
    (fastforce simp: answer_def delivered_def transient_def isRetryableStatus_def split: if_splits)+

lemma delivered_answer: "delivered hx key k resp \<Longrightarrow> answer hx key k = Inr resp \<and> \<not> transient hx key k"
  by (auto simp: delivered_def answer_def transient_def)

definition delivery :: "http_env \<Rightarrow> string \<Rightarrow> nat \<Rightarrow> nat \<Rightarrow> int \<times> string \<Rightarrow> bool" where
  "delivery hx key from n resp \<longleftrightarrow> (\<exists>k. from \<le> k \<and> k < n \<and> delivered hx key k resp \<and>
     (\<forall>j. from \<le> j \<and> j < k \<longrightarrow> transient hx key j \<and> \<not> hx_interrupted hx key j))"

lemma delivery_step:
  assumes "from < n"
  shows "delivery hx key from n resp \<longleftrightarrow> delivered hx key from resp \<or>
    transient hx key from \<and> \<not> hx_interrupted hx key from \<and> delivery hx key (Suc from) n resp"
proof
  assume "delivery hx key from n resp"
  then obtain k where k: "from \<le> k" "k < n" "delivered hx key k resp"
      "\<forall>j. from \<le> j \<and> j < k \<longrightarrow> transient hx key j \<and> \<not> hx_interrupted hx key j" by (auto simp: delivery_def)
  show "delivered hx key from resp \<or>
    transient hx key from \<and> \<not> hx_interrupted hx key from \<and> delivery hx key (Suc from) n resp"
  proof (cases "k = from")
    case False
    with k show ?thesis by (auto simp: delivery_def intro!: exI [of _ k])
  qed (use k in simp)
next
  assume "delivered hx key from resp \<or>
    transient hx key from \<and> \<not> hx_interrupted hx key from \<and> delivery hx key (Suc from) n resp"
  then show "delivery hx key from n resp"
  proof
    assume "delivered hx key from resp"
    with assms show ?thesis by (auto simp: delivery_def)
  next
    assume "transient hx key from \<and> \<not> hx_interrupted hx key from \<and> delivery hx key (Suc from) n resp"
    then show ?thesis unfolding delivery_def by (metis Suc_leD le_antisym not_less_eq_eq)
  qed
qed


declare retry_loop.simps(2) [simp del]

text \<open>An attempt delivers, is final, or is followed by another one.\<close>

lemma retry_loop_cases:
  fixes hx :: http_env and req :: HttpRequest and w :: "'d world"
  assumes "Suc left \<le> n"
  defines "key \<equiv> hq_IdempotencyKey req" and "k \<equiv> n - Suc left"
  defines "w' \<equiv> w\<lparr> w_http := w_http w @ (if rejected hx key k then [] else [req]) \<rparr>"
  obtains (delivered) resp where "retry_loop hx req n (Suc left) w = (Inr resp, w')" "delivered hx key k resp"
  | (final) err where "retry_loop hx req n (Suc left) w = (Inl err, w')" "err \<noteq> ErrMaxRetriesExceeded"
      "\<nexists>resp. delivered hx key k resp" "transient hx key k \<longrightarrow> left = 0 \<or> hx_interrupted hx key k"
  | (again) "retry_loop hx req n (Suc left) w = retry_loop hx req n left w'" "left > 0" "transient hx key k"
      "\<not> hx_interrupted hx key k" "\<nexists>resp. delivered hx key k resp"
proof -
  have next': "Suc k < n \<longleftrightarrow> left > 0" using assms(1) by (auto simp: k_def)
  note shape = retry_loop_Suc [of hx req n left w, folded key_def k_def, unfolded Let_def, folded w'_def]
  have no: "\<nexists>resp. delivered hx key k resp" if "transient hx key k \<or> (\<exists>e. answer hx key k = Inl e)"
    using that by (auto dest: delivered_answer)
  show thesis
  proof (cases rule: answer_cases [of hx key k])
    case (delivered resp)
    then show thesis using that(1) [of resp] shape by (auto simp: delivered_def)
  next
    case rejected
    then show thesis using that(2) [of ErrCircuitBreakerOpen] shape no by auto
  next
    case (failed err)
    then show thesis using that(2) [of "if left = 0 then err else ErrSleepInterrupted"] that(3) shape no next'
      by (cases "left = 0"; cases "hx_interrupted hx key k") auto
  next
    case (retryable resp)
    then show thesis using that(2) [of "if left = 0 then ErrRetryableHTTPStatus (fst resp) else ErrSleepInterrupted"]
        that(3) shape no next'
      by (cases "left = 0"; cases "hx_interrupted hx key k") auto
  next
    case (refused resp)
    have "r = resp" if "delivered hx key k r" for r using delivered_answer [OF that] refused(1) by simp
    with refused(4) have "\<nexists>r. delivered hx key k r" unfolding delivered_def by blast
    with refused show thesis using that(2) [of "ErrNonRetryableStatus (fst resp)"] shape by auto
  qed
qed

definition sends :: "HttpRequest \<Rightarrow> nat \<Rightarrow> 'd world \<Rightarrow> 'd world \<Rightarrow> bool" where
  "sends req n w w' \<longleftrightarrow> (\<exists>m \<le> n. w' = w\<lparr> w_http := w_http w @ replicate m req \<rparr>)"

lemma sends_Suc:
  assumes "sends req n (w\<lparr> w_http := w_http w @ (if b then [] else [req]) \<rparr>) w'"
  shows "sends req (Suc n) w w'"
proof -
  from assms obtain m where "m \<le> n" "w' = w\<lparr> w_http := (w_http w @ (if b then [] else [req])) @ replicate m req \<rparr>"
    by (auto simp: sends_def)
  then show ?thesis unfolding sends_def by (intro exI [of _ "if b then m else Suc m"]) auto
qed

lemma sends_refl: "sends req n w w"
  unfolding sends_def by (rule exI [of _ 0]) simp

lemma retry_loop_spec:
  "left \<le> n \<Longrightarrow> sends req left w (snd (retry_loop hx req n left w)) \<and>
    (\<forall>resp. fst (retry_loop hx req n left w) = Inr resp \<longleftrightarrow> delivery hx (hq_IdempotencyKey req) (n - left) n resp) \<and>
    (fst (retry_loop hx req n left w) = Inl ErrMaxRetriesExceeded \<longleftrightarrow> left = 0)"
proof (induction left arbitrary: w)
  case 0
  then show ?case by (auto simp: afail_def delivery_def sends_refl)
next
  case (Suc left)
  let ?key = "hq_IdempotencyKey req" and ?k = "n - Suc left"
  let ?w = "w\<lparr> w_http := w_http w @ (if rejected hx ?key ?k then [] else [req]) \<rparr>"
  have next': "Suc ?k = n - left" and k: "?k < n" using Suc.prems by simp_all
  note step = delivery_step [OF k, of hx ?key, unfolded next']
  have one: "sends req (Suc left) w ?w" by (rule sends_Suc, rule sends_refl)
  from Suc.prems have "Suc left \<le> n" .
  then show ?case
  proof (cases rule: retry_loop_cases [of left n hx req w])
    case (delivered resp)
    then have "\<not> transient hx ?key ?k" "delivered hx ?key ?k r \<longleftrightarrow> r = resp" for r
      using delivered_answer [of hx ?key ?k resp] delivered_answer [of hx ?key ?k r] by auto
    with delivered one step show ?thesis by auto
  next
    case (final err)
    then show ?thesis using one step by (cases "left = 0") (auto simp: delivery_def)
  next
    case again
    with Suc.IH [of ?w] Suc.prems step show ?thesis by (auto intro: sends_Suc)
  qed
qed


section \<open>Properties\<close>

text \<open>
  C18: The retry loop sends at most as many requests as it has attempts, all of them equal and so all
  under the same idempotency key. It returns a response exactly when some attempt is answered with a
  2xx status after attempts that all failed in a way that is worth another try (a transport error, a
  429 or a 5xx) and whose waits were not interrupted. Exhausting the attempts is reported as the error
  of the last one: the error for exceeded retries is returned only when no attempt is allowed at all.
\<close>

theorem executeWithRetry_delivers:
  "(\<exists>m \<le> nat maxRetries. snd (executeWithRetry hx req maxRetries w) = w\<lparr> w_http := w_http w @ replicate m req \<rparr>) \<and>
   (fst (executeWithRetry hx req maxRetries w) = Inr resp \<longleftrightarrow>
      (\<exists>k < nat maxRetries. delivered hx (hq_IdempotencyKey req) k resp \<and>
         (\<forall>j < k. transient hx (hq_IdempotencyKey req) j \<and> \<not> hx_interrupted hx (hq_IdempotencyKey req) j))) \<and>
   (fst (executeWithRetry hx req maxRetries w) = Inl ErrMaxRetriesExceeded \<longleftrightarrow> maxRetries \<le> 0)"
proof -
  note spec = retry_loop_spec [of "nat maxRetries" "nat maxRetries" req w hx, folded executeWithRetry_def, simplified]
  have "fst (executeWithRetry hx req maxRetries w) = Inr resp \<longleftrightarrow> delivery hx (hq_IdempotencyKey req) 0 (nat maxRetries) resp"
    using spec by (cases resp) simp
  with spec show ?thesis by (simp add: sends_def delivery_def)
qed

theorem executeWithRetry_delivers_witness:
  "\<exists>hx (req :: HttpRequest) (w :: rat world). fst (executeWithRetry hx req 3 w) = Inr (201, ''ok'')"
proof -
  define hx where "hx = \<lparr> hx_breaker = True, hx_register = \<lambda>_ _. True, hx_reject = \<lambda>_ _. False,
    hx_do = \<lambda>_ k. if k = 0 then Inl ''reset'' else if k = 1 then Inr (503, '''') else Inr (201, ''ok''),
    hx_interrupted = \<lambda>_ _. False, hx_key = Some, hx_hmac = \<lambda>_ s. s \<rparr>"
  have "\<exists>k < nat 3. delivered hx key k (201, ''ok'') \<and> (\<forall>j < k. transient hx key j \<and> \<not> hx_interrupted hx key j)" for key
    by (intro exI [of _ 2]) (auto simp: hx_def delivered_def transient_def rejected_def)
  with executeWithRetry_delivers [of 3 hx _ _ "(201, ''ok'')"] show ?thesis by blast
qed

lemma executeWithRetry_sends:
  assumes "executeWithRetry hx req maxRetries w = (r, w')"
  obtains m where "m \<le> nat maxRetries" "w' = w\<lparr> w_http := w_http w @ replicate m req \<rparr>"
  using retry_loop_spec [of "nat maxRetries" "nat maxRetries" req w hx] assms
  by (auto simp: executeWithRetry_def sends_def)

text \<open>What a dispatch may send.\<close>

definition request_ok :: "http_env \<Rightarrow> ConnectorConfig \<Rightarrow> string \<Rightarrow> RoutingTarget \<Rightarrow> string \<Rightarrow> dispatchPayload \<Rightarrow> HttpRequest \<Rightarrow> bool" where
  "request_ok hx config exceptionID target queue payload req \<longleftrightarrow>
     hq_IdempotencyKey req = generateIdempotencyKey exceptionID target queue \<and> hq_Body req = payload \<and>
     (case target of
        RoutingTargetJira \<Rightarrow> (\<exists>jira. cc_Jira config = Some jira \<and> hq_URL req = jc_BaseURL jira @ ''/rest/api/2/issue'')
      | RoutingTargetWebhook \<Rightarrow> (\<exists>webhook. cc_Webhook config = Some webhook \<and> hq_URL req = wc_URL webhook \<and>
          hq_Authorization req = None \<and>
          (hq_Signature req = Some (hx_hmac hx payload (wc_SharedSecret webhook)) \<or>
           wc_SharedSecret webhook = '''' \<and> \<not> wc_RequireSignedPayloads webhook))
      | _ \<Rightarrow> False)"

definition max_requests :: "ConnectorConfig \<Rightarrow> RoutingTarget \<Rightarrow> nat" where
  "max_requests config target =
     (case target of
        RoutingTargetJira \<Rightarrow> (case cc_Jira config of None \<Rightarrow> 0 | Some jira \<Rightarrow> nat (MaxRetriesOrDefault (jc_Base jira)))
      | RoutingTargetWebhook \<Rightarrow> (case cc_Webhook config of None \<Rightarrow> 0 | Some webhook \<Rightarrow> nat (MaxRetriesOrDefault (wc_Base webhook)))
      | _ \<Rightarrow> 0)"

definition requests :: "nat \<Rightarrow> (HttpRequest \<Rightarrow> bool) \<Rightarrow> 'd world \<Rightarrow> 'd world \<Rightarrow> bool" where
  "requests n ok w w' \<longleftrightarrow> (\<exists>m req. m \<le> n \<and> (m = 0 \<or> ok req) \<and> w' = w\<lparr> w_http := w_http w @ replicate m req \<rparr>)"

lemma requests_none: "requests n ok w w"
  unfolding requests_def by (rule exI [of _ 0]) simp

lemma requests_some: "m \<le> n \<Longrightarrow> ok req \<Longrightarrow> requests n ok w (w\<lparr> w_http := w_http w @ replicate m req \<rparr>)"
  unfolding requests_def by blast

lemma wp_executeWithRetry:
  assumes "\<And>r m. m \<le> nat n \<Longrightarrow> Q r (w\<lparr> w_http := w_http w @ replicate m req \<rparr>)"
  shows "wp (executeWithRetry hx req n) Q w"
  unfolding wp_def by (auto split: prod.splits elim!: executeWithRetry_sends intro: assms)

lemma connector_requests:
  "wp (connector_Dispatch hx config exceptionID target queue payload)
     (\<lambda>r w'. requests (max_requests config target) (request_ok hx config exceptionID target queue payload) w w') w"
proof (cases target)
  case RoutingTargetJira
  then show ?thesis
    by (cases "cc_Jira config")
      (auto simp: connector_Dispatch_def dispatchToJira_def request_ok_def max_requests_def on_ok_def
        split: sum.splits option.splits intro!: wp_executeWithRetry requests_some requests_none)
next
  case RoutingTargetWebhook
  then show ?thesis
    by (cases "cc_Webhook config")
      (auto simp: connector_Dispatch_def dispatchToWebhook_def request_ok_def max_requests_def on_ok_def
        split: sum.splits intro!: wp_executeWithRetry requests_some requests_none)
qed (simp_all add: connector_Dispatch_def requests_none)


end
