(* ===== verification/Resolution_Properties.thy ===== *)
theory Resolution_Properties
  imports Resolution_Commands
begin

text \<open>
  What the gateway commands and the bulk operations guarantee: exclusive gateway calls under
  concurrency, the exact outcome for every pattern of failures, and the per-item outcome of the
  bulk operations.
\<close>

section \<open>Properties of the gateway commands\<close>

datatype 'd resolution = RForceMatch ForceMatchCommand | RAdjustEntry "'d AdjustEntryCommand"

definition resolution_id :: "'d resolution \<Rightarrow> uuid" where
  "resolution_id c = (case c of RForceMatch cmd \<Rightarrow> fm_ExceptionID cmd | RAdjustEntry cmd \<Rightarrow> aj_ExceptionID cmd)"

definition resolve_exception :: "'d::linordered_idom ext \<Rightarrow> env \<Rightarrow> ExceptionUseCase option \<Rightarrow> 'd resolution \<Rightarrow>
    ('d world, cmd_error, Exception) act" where
  "resolve_exception E env uc c =
     (case c of RForceMatch cmd \<Rightarrow> ForceMatch E env uc cmd | RAdjustEntry cmd \<Rightarrow> AdjustEntry E env uc cmd)"

lemma resolve_exception_contract:
  assumes "externals E" "serves parse env w"
  shows "wp (resolve_exception E env uc c) (\<lambda>r w'. \<exists>call. gateway_post parse env (resolution_id c) call w w') w"
  using ForceMatch_contract [OF assms] AdjustEntry_contract [OF assms]
  by (cases c) (simp_all add: resolve_exception_def resolution_id_def)


definition example_row :: Exception where
  "example_row = \<lparr> x_ID = 7, x_TransactionID = 8, x_Severity = ExceptionSeverityHigh, x_Status = ExceptionStatusOpen,
     x_ExternalSystem = None, x_ExternalIssueID = None, x_AssignedTo = None, x_DueAt = None, x_ResolutionNotes = None,
     x_ResolutionType = None, x_ResolutionReason = None, x_Reason = None, x_Version = 0, x_CreatedAt = 0, x_UpdatedAt = 0 \<rparr>"

definition example_db :: db where
  "example_db = \<lparr> db_exceptions = [7 \<mapsto> example_row], db_disputes = Map.empty, db_comments = Map.empty,
     db_audit = [], db_outbox = [] \<rparr>"

definition example_world :: "rat world" where
  "example_world = \<lparr> w_db = example_db, w_stream = [], w_gateway = [], w_idem = Map.empty,
     w_http = [] \<rparr>"

definition example_env :: "(site \<Rightarrow> uuid \<Rightarrow> string option) \<Rightarrow> (site \<Rightarrow> uuid \<Rightarrow> db \<Rightarrow> db) \<Rightarrow> env" where
  "example_env faults others = \<lparr> v_actor = ''ana'', v_tenant = ''t'', v_clock = (\<lambda>_. 5), v_uuid = 9, v_fault = faults,
     v_allowed = True, v_replica = example_db, v_others = others \<rparr>"

definition example_uc :: ExceptionUseCase where
  "example_uc = \<lparr> uc_exceptionRepo = True, uc_actorExtractor = True, uc_auditPublisher = True, uc_infraProvider = True,
     uc_resolutionExecutor = True, uc_disputeRepo = True, uc_commentRepo = True, uc_connector = True,
     uc_idempotencyRepo = True, uc_rateLimiter = True, uc_streamEmitter = True \<rparr>"

definition example_force :: ForceMatchCommand where
  "example_force = \<lparr> fm_ExceptionID = 7, fm_OverrideReason = ''POLICY_EXCEPTION'', fm_Notes = ''ok'' \<rparr>"

lemma example_ok: "db_ok parse example_db"
  by (auto simp: db_ok_def example_db_def example_row_def exception_ok_def ExceptionStatus_IsValid_def
      ExceptionSeverity_IsValid_def split: if_splits)

lemma example_isolated: "isolated (example_env faults (\<lambda>s i d. d)) example_world"
  by (simp add: isolated_def example_env_def example_world_def)

lemma example_params:
  "validateForceMatch rat_ext (example_env faults others) (Some example_uc) example_force =
     Inr \<lparr> fp_actor = ''ana'', fp_notes = ''ok'', fp_overrideReason = OverrideReasonPolicyException \<rparr>"
  by (simp add: validateForceMatch_def validateResolutionDeps_def example_uc_def example_force_def example_env_def
      TrimSpace_visible visible_def ParseOverrideReason_def OverrideReason_of_def OverrideReason_IsValid_def
      rat_ext_def ascii_upper_def wrap_def)

lemma example_env_sel [simp]:
  "v_clock (example_env faults others) s = 5" "v_fault (example_env faults others) = faults"
  "v_others (example_env faults others) = others" "v_replica (example_env faults others) = example_db"
  "v_tenant (example_env faults others) = ''t''"
  by (simp_all add: example_env_def)

lemma example_ForceMatch:
  assumes "\<And>s i. faults s i = None"
  shows "ForceMatch rat_ext (example_env faults (\<lambda>s i d. d)) (Some example_uc) example_force example_world =
    (let env = example_env faults (\<lambda>s i d. d);
         params = \<lparr> fp_actor = ''ana'', fp_notes = ''ok'', fp_overrideReason = OverrideReasonPolicyException \<rparr>;
         z = bump 5 (resolved 5 ''ok'' [WithResolutionType ''FORCE_MATCH'', WithResolutionReason ''POLICY_EXCEPTION'']
               (pending_row env example_row)) in
     (Inr z, record_row z (force_match_event rat_ext env params ExceptionStatusOpen z)
        \<lparr> se_DefinitionKey = ''exception.force_match_resolved'', se_Subject = 7, se_Payload = exceptionPayload z
            [''resolution_type'' \<mapsto> PString ''FORCE_MATCH'', ''override_reason_code'' \<mapsto> PString ''POLICY_EXCEPTION'',
             ''resolved_at'' \<mapsto> FormatTime 5 (x_UpdatedAt z)] \<rparr>
        (called (GForceMatch 7 ''ok'' OverrideReasonPolicyException) (set_row (pending_row env example_row) example_world))))"
proof -
  let ?env = "example_env faults (\<lambda>s i d. d)"
  have row: "db_exceptions (w_db example_world) 7 = Some example_row" "x_Status example_row = ExceptionStatusOpen"
    by (simp_all add: example_world_def example_db_def example_row_def)
  have id7: "fm_ExceptionID example_force = 7" by (simp add: example_force_def)
  have ok: "db_ok (\<lambda>_. None) (w_db example_world)" using example_ok by (simp add: example_world_def)
  have "tx_error ?env example_uc 7 = None" "fault ?env s i = None" for s i
    using assms by (simp_all add: tx_error_def fault_def validateCriticalTxLease_def emit_error_def example_uc_def)
  moreover have "TrimSpace ''ok'' \<noteq> ''''" by (simp add: TrimSpace_visible visible_def)
  moreover have "ae_ExceptionID (force_match_event E env params p y) = x_ID y" for E :: "rat ext" and env params p y
    by (simp add: force_match_event_def Let_def)
  ultimately show ?thesis
    using gateway_resolution_exact [OF rat_externals example_isolated ok row(1)] row(2)
    by (simp add: ForceMatch_def abind_def alift_def example_params processForceMatch_shape id7 Let_def
        OverrideReason_string_def)
qed


lemma gateway_resolution_refused:
  assumes "externals E" "isolated env w" "db_ok parse (w_db w)" "db_exceptions (w_db w) i = Some x"
    and "x_Status x \<noteq> ExceptionStatusOpen" "x_Status x \<noteq> ExceptionStatusAssigned"
  shows "\<exists>e. gateway_resolution E env uc i call notes opts event key extra w = (Inl e, w)"
proof -
  have x: "x_ID x = i" "exception_ok x" using assms(3,4) by (auto simp: db_ok_def)
  have "\<exists>e. StartResolution (v_clock env SFind) (Some x) = Inl e" using assms(5,6) by (simp add: StartResolution_def)
  with assms x show ?thesis
    by (auto simp: gateway_resolution_def FindByID_def isolated_def abind_def acheck_def alift_def wrap_def
        scanException_valid split: option.splits)
qed

text \<open>What a gateway command leaves behind, in every case.\<close>

definition resolution_outcome :: "env \<Rightarrow> ExceptionUseCase \<Rightarrow> uuid \<Rightarrow> Exception \<Rightarrow> 'd world \<Rightarrow> cmd_error + Exception \<Rightarrow> 'd world \<Rightarrow> bool" where
  "resolution_outcome env uc i x w r w' \<longleftrightarrow>
     (case r of
        Inr y \<Rightarrow>
          x_Status y = ExceptionStatusResolved \<and> x_Version y = x_Version x + 2 \<and>
          db_exceptions (w_db w') = (db_exceptions (w_db w))(i \<mapsto> y) \<and>
          (\<exists>call. w_gateway w' = w_gateway w @ [call]) \<and>
          (\<exists>ev se. db_audit (w_db w') = db_audit (w_db w) @ [ev] \<and> ae_ExceptionID ev = i \<and>
             db_outbox (w_db w') = db_outbox (w_db w) @ [se] \<and> se_Subject se = i \<and>
             se_Payload se ''version'' = Some (PInt (x_Version y)))
      | Inl e \<Rightarrow>
          w' = w \<or>
          db_audit (w_db w') = db_audit (w_db w) \<and> db_outbox (w_db w') = db_outbox (w_db w) \<and>
          (\<exists>call. w_gateway w' = w_gateway w @ [call]) \<and>
          (\<exists>y. db_exceptions (w_db w') = (db_exceptions (w_db w))(i \<mapsto> y) \<and>
             (if fault env SGateway i = Some e \<and> fault env SRevert i = None
              then y = x\<lparr> x_Version := x_Version x + 2, x_UpdatedAt := v_clock env SRevert \<rparr>
              else x_Status y = ExceptionStatusPendingResolution \<and> x_Version y = x_Version x + 1 \<and>
                   (fault env SGateway i = None \<longrightarrow> tx_error env uc i = Some e))))"

lemma gateway_resolution_outcome:
  assumes "externals E" "isolated env w" "db_ok parse (w_db w)" "db_exceptions (w_db w) i = Some x"
    and "\<And>p y. ae_ExceptionID (event p y) = x_ID y" "TrimSpace notes \<noteq> ''''" "\<And>y. extra y ''version'' = None"
  shows "wp (gateway_resolution E env uc i call notes opts event key extra) (resolution_outcome env uc i x w) w"
proof (cases "x_Status x = ExceptionStatusOpen \<or> x_Status x = ExceptionStatusAssigned")
  case True
  have x: "x_ID x = i" using assms(3,4) by (auto simp: db_ok_def)
  have "reverted_row env x = x\<lparr> x_Version := x_Version x + 2, x_UpdatedAt := v_clock env SRevert \<rparr>"
    by (simp add: reverted_row_def pending_row_def bump_def)
  moreover have "exceptionPayload z (extra z) ''version'' = Some (PInt (x_Version z))" for z
    by (auto simp: exceptionPayload_def assms(7) Let_def map_add_def split: option.splits)
  ultimately show ?thesis
    unfolding wp_def gateway_resolution_exact [OF assms(1-6) True] using assms(5) x
    by (auto simp: resolution_outcome_def Let_def record_row_def split: option.splits)
next
  case False
  then obtain e where "gateway_resolution E env uc i call notes opts event key extra w = (Inl e, w)"
    using gateway_resolution_refused [OF assms(1-4)] by blast
  then show ?thesis by (simp add: wp_def resolution_outcome_def)
qed



section \<open>Bulk operations\<close>

text \<open>A successful item: the row, its audit event and its outbox event, which carries the version the
  row had before the update.\<close>

definition bulk_resolved :: "Exception option \<Rightarrow> Exception \<Rightarrow> AuditEvent \<Rightarrow> StreamEvent \<Rightarrow> bool" where
  "bulk_resolved before y ev se \<longleftrightarrow>
     (\<exists>x. before = Some x \<and> (x_Status x = ExceptionStatusOpen \<or> x_Status x = ExceptionStatusAssigned) \<and>
        x_ID y = x_ID x \<and> x_Version y = x_Version x + 1 \<and> se_Payload se ''version'' = Some (PInt (x_Version x))) \<and>
     x_Status y = ExceptionStatusResolved \<and> ae_ExceptionID ev = x_ID y \<and> ae_Action ev = ''BULK_RESOLVE'' \<and>
     se_Subject se = x_ID y"

lemma resolveSingle_isolated:
  assumes "externals E" "\<And>s i d. v_others env s i d = d"
    and "db_exceptions (w_db w) i = preloaded i" "\<And>x. preloaded i = Some x \<Longrightarrow> x_ID x = i \<and> exception_ok x"
  shows "(\<exists>e. resolveSingle E env uc preloaded resolution reason actor i w = (Inl e, w)) \<or>
    (\<exists>y ev se. resolveSingle E env uc preloaded resolution reason actor i w = (Inr (), record_row y ev se w) \<and>
       bulk_resolved (preloaded i) y ev se)"
proof (cases "preloaded i")
  case None
  then show ?thesis by (simp add: resolveSingle_def resolvePreloaded_def abind_def alift_def)
next
  case (Some x)
  let ?opts = "if reason \<noteq> '''' then [WithResolutionReason reason] else []"
  show ?thesis
  proof (cases "Resolve (v_clock env SFind) (Some x) resolution ?opts")
    case (Inl e)
    with Some show ?thesis
      by (auto simp: resolveSingle_def resolvePreloaded_def abind_def alift_def acheck_def wrap_def afail_def split: option.splits)
  next
    case (Inr y)
    note step = row_step_ops(3) [OF _ Inr]
    have y: "x_ID y = i" "x_Status y = ExceptionStatusResolved" "row_step x y" "x_Version y = x_Version x" "exception_ok y"
      using step assms(4) [OF Some] Inr by (auto simp: Resolve_Inr)
    have "se_Payload \<lparr> se_DefinitionKey = k, se_Subject = i, se_Payload = exceptionPayload y [''resolved_at'' \<mapsto> t] \<rparr>
        ''version'' = Some (PInt (x_Version x))" for k t
      using y(4) by (auto simp: exceptionPayload_def Let_def map_add_def split: option.splits)
    moreover have "x_Status x = ExceptionStatusOpen \<or> x_Status x = ExceptionStatusAssigned \<or>
        x_Status x = ExceptionStatusPendingResolution"
      using Inr by (auto simp: Resolve_Inr)
    moreover have "ValidateResolutionTransition (x_Status x) ExceptionStatusResolved = None"
      if "x_Status x = ExceptionStatusOpen \<or> x_Status x = ExceptionStatusAssigned"
      using that by (auto simp: ValidateResolutionTransition_def ExceptionStatus_IsValid_def allowedResolutionTransitions_def)
    moreover have "critical_tx env i (abind (UpdateWithTx E env y) (\<lambda>_. abind (PublishExceptionEventWithTx env ev) (\<lambda>_.
        emitExceptionCritical env uc key y extra))) w =
      (case tx_error env uc i of Some e \<Rightarrow> (Inl e, w)
       | None \<Rightarrow> (Inr (), record_row (bump (v_clock env SUpdate) y) ev
           \<lparr> se_DefinitionKey = key, se_Subject = i, se_Payload = exceptionPayload y extra \<rparr> w))"
      if "ae_ExceptionID ev = i" for ev key extra
      using critical_record_isolated [OF assms(1,2), of w i x y "\<lambda>_. ev" "\<lambda>_. y" uc key "\<lambda>_. extra"] that y Some assms(3)
      by (simp add: Let_def split: option.splits)
    ultimately show ?thesis using y Some Inr assms(4) [OF Some]
      by (cases "x_Status x = ExceptionStatusPendingResolution"; cases "tx_error env uc i")
        (auto simp: resolveSingle_def resolvePreloaded_def abind_def [of "alift _"] abind_def [of "acheck _"]
          alift_def acheck_def wrap_def afail_def bulk_resolved_def intro!: exI)
  qed
qed

lemma dedup_set: "set (dedup seen ids) = set ids - seen" and distinct_dedup: "distinct (dedup seen ids)"
  by (induction ids arbitrary: seen) auto

text \<open>The rows, audit events and outbox events of a whole run, item by item.\<close>

definition bulk_post :: "(uuid \<Rightarrow> Exception option) \<Rightarrow> uuid list \<Rightarrow> uuid list \<Rightarrow> uuid list \<Rightarrow> 'd world \<Rightarrow> 'd world \<Rightarrow> bool" where
  "bulk_post rows ids ss fs w w' \<longleftrightarrow>
     distinct (ss @ fs) \<and> set (ss @ fs) = set ids \<and>
     (\<forall>j. j \<notin> set ss \<longrightarrow> db_exceptions (w_db w') j = db_exceptions (w_db w) j) \<and>
     (\<exists>evs ses. db_audit (w_db w') = db_audit (w_db w) @ evs \<and> db_outbox (w_db w') = db_outbox (w_db w) @ ses \<and>
        length evs = length ss \<and> length ses = length ss \<and>
        (\<forall>k < length ss. \<exists>y. db_exceptions (w_db w') (ss ! k) = Some y \<and> x_ID y = ss ! k \<and>
           bulk_resolved (rows (ss ! k)) y (evs ! k) (ses ! k)))"

lemma bulk_loop_isolated:
  assumes "\<And>i w. i \<in> set ids \<Longrightarrow> db_exceptions (w_db w) i = rows i \<Longrightarrow>
      (\<exists>e. single i w = (Inl e, w)) \<or>
      (\<exists>y ev se. single i w = (Inr (), record_row y ev se w) \<and> x_ID y = i \<and> bulk_resolved (rows i) y ev se)"
    and "distinct ids" "\<forall>i \<in> set ids. db_exceptions (w_db w) i = rows i"
  shows "\<exists>res' w' ss fs. bulk_loop single ids res w = (Inr res', w') \<and> bk_Succeeded res' = bk_Succeeded res @ ss \<and>
    map fst (bk_Failed res') = map fst (bk_Failed res) @ fs \<and> bulk_post rows ids ss fs w w'"
  using assms
proof (induction ids arbitrary: w res)
  case Nil
  then show ?case by (auto simp: aret_def bulk_post_def)
next
  case (Cons i ids)
  note IH = Cons.IH [OF Cons.prems(1) [OF list.set_intros(2)]]
  have ids: "distinct ids" "i \<notin> set ids" using Cons.prems(2) by auto
  have failed: ?case if s: "single i w = (Inl e, w)" for e
  proof -
    let ?res = "res\<lparr> bk_Failed := bk_Failed res @ [(i, e)] \<rparr>"
    have "\<forall>j \<in> set ids. db_exceptions (w_db w) j = rows j" using Cons.prems(3) by simp
    from IH [OF _ _ ids(1) this, of ?res]
    obtain res' w' ss fs where run: "bulk_loop single ids ?res w = (Inr res', w')" "bk_Succeeded res' = bk_Succeeded ?res @ ss"
        "map fst (bk_Failed res') = map fst (bk_Failed ?res) @ fs" and post: "bulk_post rows ids ss fs w w'"
      by blast
    from post ids(2) have "bulk_post rows (i # ids) ss (i # fs) w w'" unfolding bulk_post_def by auto
    with run s show ?thesis
      by (intro exI [of _ res'] exI [of _ w'] exI [of _ ss] exI [of _ "i # fs"]) (simp add: abind_def atry_def)
  qed
  have taken: ?case if "single i w = (Inr (), record_row y ev se w)" "x_ID y = i" "bulk_resolved (rows i) y ev se" for y ev se
  proof -
    let ?w = "record_row y ev se w"
    have "\<forall>j \<in> set ids. db_exceptions (w_db ?w) j = rows j" using ids(2) Cons.prems(3) that(2) by auto
    from IH [OF _ _ ids(1) this, of "res\<lparr> bk_Succeeded := bk_Succeeded res @ [i] \<rparr>"]
    obtain res' w' ss fs where run: "bulk_loop single ids (res\<lparr> bk_Succeeded := bk_Succeeded res @ [i] \<rparr>) ?w = (Inr res', w')"
        "bk_Succeeded res' = bk_Succeeded res @ i # ss" "map fst (bk_Failed res') = map fst (bk_Failed res) @ fs"
        and post: "bulk_post rows ids ss fs ?w w'" by auto
    from post obtain evs ses where e: "db_audit (w_db w') = db_audit (w_db w) @ ev # evs"
        "db_outbox (w_db w') = db_outbox (w_db w) @ se # ses" "length evs = length ss" "length ses = length ss"
        and k: "\<forall>k < length ss. \<exists>y. db_exceptions (w_db w') (ss ! k) = Some y \<and> x_ID y = ss ! k \<and>
           bulk_resolved (rows (ss ! k)) y (evs ! k) (ses ! k)"
      unfolding bulk_post_def by auto
    from post Cons.prems(2) that(2) have i: "db_exceptions (w_db w') i = Some y"
      and rest: "distinct (i # ss @ fs)" "set (i # ss @ fs) = set (i # ids)"
        "\<forall>j. j \<notin> set (i # ss) \<longrightarrow> db_exceptions (w_db w') j = db_exceptions (w_db w) j"
      unfolding bulk_post_def by auto
    have "\<exists>y. db_exceptions (w_db w') ((i # ss) ! k) = Some y \<and> x_ID y = (i # ss) ! k \<and>
        bulk_resolved (rows ((i # ss) ! k)) y ((ev # evs) ! k) ((se # ses) ! k)" if "k < length (i # ss)" for k
      using i that(1) k \<open>x_ID y = i\<close> \<open>bulk_resolved (rows i) y ev se\<close> by (cases k) auto
    with e rest have "bulk_post rows (i # ids) (i # ss) fs w w'"
      unfolding bulk_post_def by (intro conjI exI [of _ "ev # evs"] exI [of _ "se # ses"]) auto
    with run that(1) show ?thesis
      by (intro exI [of _ res'] exI [of _ w'] exI [of _ "i # ss"] exI [of _ fs]) (simp add: abind_def atry_def)
  qed
  from Cons.prems(1) [of i w] Cons.prems(3) show ?case using failed taken by auto
qed

lemma fold_byID_rows:
  assumes "\<And>i x. rows i = Some x \<Longrightarrow> x_ID x = i"
  shows "fold (\<lambda>x byID. byID(x_ID x \<mapsto> x)) (List.map_filter rows ids) m i =
    (if i \<in> set ids \<and> rows i \<noteq> None then rows i else m i)"
proof (induction ids arbitrary: m)
  case (Cons a ids)
  then show ?case using assms [of a] by (cases "rows a") (auto simp: map_filter_simps)
qed (simp add: map_filter_simps)

lemma preload_isolated:
  assumes "externals E" "isolated env w" "db_ok parse (w_db w)"
  shows "(\<exists>e. preloadExceptions E env ids w = (Inl e, w)) \<or>
    (\<exists>p. preloadExceptions E env ids w = (Inr p, w) \<and> (\<forall>i \<in> set ids. p i = db_exceptions (w_db w) i))"
proof -
  let ?rows = "List.map_filter (db_exceptions (w_db w)) ids"
  have ok: "\<And>i x. db_exceptions (w_db w) i = Some x \<Longrightarrow> x_ID x = i \<and> exception_ok x"
    using assms(3) by (auto simp: db_ok_def)
  then have "scanAllRows E ?rows = Inr ?rows"
    by (intro scanAllRows_valid [OF assms(1)]) (auto simp: map_filter_def)
  moreover have "\<forall>i \<in> set ids. fold (\<lambda>x byID. byID(x_ID x \<mapsto> x)) ?rows Map.empty i = db_exceptions (w_db w) i"
    using fold_byID_rows [of "db_exceptions (w_db w)" ids Map.empty] ok by (auto split: if_splits)
  ultimately show ?thesis using assms(2)
    by (auto simp: preloadExceptions_def FindByIDs_def isolated_def abind_def aret_def acheck_def alift_def split: option.splits)
qed

text \<open>
  C17: Without interference, BulkResolve decides each of its distinct exceptions separately: every
  exception is reported exactly once, as succeeded or as failed; a failed one and every other
  exception is untouched; a succeeded one was OPEN or ASSIGNED and is RESOLVED in the next version,
  and the run appends exactly one audit event and one outbox event per success, in that order.
  The outbox event of a bulk resolution carries the version before the update, where the events of
  ForceMatch and AdjustEntry carry the stored one.
\<close>

theorem BulkResolve_items:
  assumes "externals E" "isolated env w" "db_ok parse (w_db w)" "BulkResolve E env uc input w = (Inr res, w')"
  shows "bulk_post (db_exceptions (w_db w)) (br_ExceptionIDs input) (bk_Succeeded res) (map fst (bk_Failed res)) w w'"
proof -
  let ?ids = "dedup {} (br_ExceptionIDs input)" and ?rows = "db_exceptions (w_db w)"
  let ?single = "\<lambda>p. resolveSingle E env uc p (TrimSpace (br_Resolution input)) (TrimSpace (br_Reason input)) (TrimSpace (v_actor env))"
  from assms(4) obtain p where p: "preloadExceptions E env ?ids w = (Inr p, w)" "\<forall>i \<in> set ?ids. p i = ?rows i"
    and run: "bulk_loop (?single p) ?ids \<lparr> bk_Succeeded = [], bk_Failed = [] \<rparr> w = (Inr res, w')"
    using preload_isolated [OF assms(1-3), of ?ids]
    by (auto simp: BulkResolve_def abind_def alift_def afail_def validateBulkIDs_def Let_def split: if_splits)
  have others: "v_others env s i d = d" for s i d using assms(2) by (simp add: isolated_def)
  have ok: "x_ID x = i \<and> exception_ok x" if "?rows i = Some x" for i x
    using assms(3) that by (auto simp: db_ok_def)
  have "(\<exists>e. ?single p i v = (Inl e, v)) \<or>
      (\<exists>y ev se. ?single p i v = (Inr (), record_row y ev se v) \<and> x_ID y = i \<and> bulk_resolved (?rows i) y ev se)"
    if "i \<in> set ?ids" "db_exceptions (w_db v) i = ?rows i" for i v
  proof -
    have pi: "p i = ?rows i" using that(1) p(2) by blast
    have "x_ID y = i" if "bulk_resolved (?rows i) y ev se" for y ev se
      using that ok unfolding bulk_resolved_def by auto
    moreover have "(\<exists>e. ?single p i v = (Inl e, v)) \<or>
        (\<exists>y ev se. ?single p i v = (Inr (), record_row y ev se v) \<and> bulk_resolved (p i) y ev se)"
      by (rule resolveSingle_isolated [OF assms(1) others]) (use pi that(2) ok in auto)
    ultimately show ?thesis unfolding pi by blast
  qed
  from bulk_loop_isolated [of ?ids ?rows "?single p" w "\<lparr> bk_Succeeded = [], bk_Failed = [] \<rparr>", OF this distinct_dedup] run
  have "bulk_post ?rows ?ids (bk_Succeeded res) (map fst (bk_Failed res)) w w'" by simp
  then show ?thesis unfolding bulk_post_def by (simp add: dedup_set)
qed

lemma wp_critical_other:
  assumes "\<And>s i d. v_others env s i d = d" "x_ID y \<noteq> i" "\<And>u. appends (\<lambda>_. True) (body u)"
  shows "wp (critical_tx env j (abind (UpdateWithTx E env y) body))
    (\<lambda>r w'. db_exceptions (w_db w') i = db_exceptions (w_db w) i) w"
proof -
  have "wp (body u) (on_ok (\<lambda>_ _. True) (\<lambda>a d'. db_exceptions d' i = db_exceptions (w_db w) i)) d"
    if "db_exceptions d i = db_exceptions (w_db w) i" for u d
    using assms(3) [of u] that unfolding appends_def by (elim allE [of _ d] wp_mono) (auto simp: on_ok_def split: sum.splits)
  then have "wp (executeUpdate E now y) (on_ok (\<lambda>_ _. True) (\<lambda>u. wp (body u)
      (on_ok (\<lambda>_ _. True) (\<lambda>a d'. db_exceptions d' i = db_exceptions (w_db w) i)))) (w_db w)" for now
    using assms(2) by (auto simp: wp_def [of "executeUpdate E now y"] executeUpdate_def on_ok_def [of _ "\<lambda>u. wp (body u) _"]
        split: option.splits sum.splits)
  then show ?thesis using assms(1) by (intro wp_critical_txI) (simp_all add: UpdateWithTx_def)
qed

lemma bulk_loop_Inr: "\<exists>res' w'. bulk_loop single ids res w = (Inr res', w')"
  by (induction ids arbitrary: res w) (auto simp: aret_def abind_def atry_def split: prod.splits)

theorem BulkResolve_items_witness:
  "let input = \<lparr> br_ExceptionIDs = [7, 7, 3], br_Resolution = ''done'', br_Reason = '''' \<rparr>;
       env = example_env (\<lambda>_ _. None) (\<lambda>s i d. d) in
   \<exists>res w'. BulkResolve rat_ext env example_uc input example_world = (Inr res, w') \<and>
     bulk_post (db_exceptions example_db) [7, 7, 3] (bk_Succeeded res) (map fst (bk_Failed res)) example_world w'"
proof -
  define input where "input = \<lparr> br_ExceptionIDs = [7, 7, 3 :: uuid], br_Resolution = ''done'', br_Reason = '''' \<rparr>"
  define env where "env = example_env (\<lambda>_ _. None) (\<lambda>s i d. d)"
  have ok: "db_ok (\<lambda>_. None) (w_db example_world)" using example_ok by (simp add: example_world_def)
  have rows: "exception_ok example_row" "x_ID example_row = 7"
    by (simp_all add: example_row_def exception_ok_def ExceptionStatus_IsValid_def ExceptionSeverity_IsValid_def)
  have "\<exists>p. preloadExceptions rat_ext env [7, 3] example_world = (Inr p, example_world)"
    using rows scanException_valid [OF rat_externals rows(1)]
    by (simp add: preloadExceptions_def FindByIDs_def env_def fault_def abind_def acheck_def alift_def aret_def
        example_db_def map_filter_simps)
  then obtain p where "preloadExceptions rat_ext env [7, 3] example_world = (Inr p, example_world)" ..
  then have "\<exists>res w'. BulkResolve rat_ext env example_uc input example_world = (Inr res, w')"
    using bulk_loop_Inr
    by (simp add: BulkResolve_def input_def validateBulkIDs_def maxBulkIDs_def abind_def alift_def Let_def
        TrimSpace_visible visible_def env_def example_env_def del: bulk_loop.simps)
  then obtain res w' where run: "BulkResolve rat_ext env example_uc input example_world = (Inr res, w')" by blast
  from BulkResolve_items [OF rat_externals example_isolated ok run [unfolded env_def]] run show ?thesis
    by (simp add: input_def env_def Let_def example_world_def)
qed

lemma wp_other_rowI:
  assumes "\<And>s i d. v_others env s i d = d" "x_ID y \<noteq> i" "\<And>u. appends (\<lambda>_. True) (body u)" "db_exceptions (w_db v) i = Some x"
    and "\<And>r v'. db_exceptions (w_db v') i = Some x \<Longrightarrow> Q r v'"
  shows "wp (critical_tx env j (abind (UpdateWithTx E env y) body)) Q v"
  using assms by (intro wp_mono [OF wp_critical_other [OF assms(1-3)]]) simp

text \<open>An item of a bulk operation leaves a PENDING_RESOLUTION row alone, its own or another's.\<close>

lemma assignSingle_pending:
  assumes "\<And>s i d. v_others env s i d = d" "\<And>j y. p j = Some y \<Longrightarrow> x_ID y = j" "\<And>y. p i = Some y \<Longrightarrow> y = x"
    and "x_Status x = ExceptionStatusPendingResolution" "db_exceptions (w_db v) i = Some x"
  shows "wp (assignSingle E env u p a actor j) (\<lambda>r v'. db_exceptions (w_db v') i = Some x) v"
proof -
  have "x_ID y \<noteq> i" if "p j = Some z" "Assign now (Some z) a None = Inr y" for z y now
    using that assms(2-4) by (auto simp: Assign_Inr)
  with assms(5) show ?thesis
    by (auto simp: assignSingle_def resolvePreloaded_def on_ok_def split: option.splits sum.splits
        intro!: on_ok_wrapI wp_other_rowI [OF assms(1)] appends_event emitImportant_db)
qed

lemma resolveSingle_pending:
  assumes "\<And>s i d. v_others env s i d = d" "\<And>j y. p j = Some y \<Longrightarrow> x_ID y = j" "\<And>y. p i = Some y \<Longrightarrow> y = x"
    and "x_Status x = ExceptionStatusPendingResolution" "db_exceptions (w_db v) i = Some x"
  shows "wp (resolveSingle E env u p n reason actor j) (\<lambda>r v'. db_exceptions (w_db v') i = Some x) v"
proof -
  have "x_ID y \<noteq> i" if "p j = Some z" "x_Status z \<noteq> ExceptionStatusPendingResolution" "Resolve now (Some z) n opts = Inr y"
    for z y now opts
    using that assms(2-4) by (auto simp: Resolve_Inr)
  with assms(5) show ?thesis
    by (auto simp: resolveSingle_def resolvePreloaded_def split: option.splits
        intro!: on_ok_wrapI wp_other_rowI [OF assms(1)] appends_event)
qed

text \<open>
  C35: A PENDING_RESOLUTION exception is out of reach of every command of its users: ForceMatch,
  AdjustEntry, BulkAssign and BulkResolve leave it as it is, whatever their arguments and whichever
  calls fail. An exception whose gateway call succeeded but whose final transaction failed stays in
  that status.
\<close>

theorem pending_is_stuck:
  assumes "externals E" "isolated env w" "db_ok parse (w_db w)"
    and "db_exceptions (w_db w) i = Some x" "x_Status x = ExceptionStatusPendingResolution"
  shows "db_exceptions (w_db (snd (BulkAssign E env u assign w))) i = Some x \<and>
    db_exceptions (w_db (snd (BulkResolve E env u resolve w))) i = Some x \<and>
    (resolution_id c = i \<longrightarrow> snd (resolve_exception E env uc c w) = w)"
proof -
  have S: "serves parse env w" using assms(2,3) by (rule isolated_serves)
  have iso: "v_replica env = w_db w" "\<And>s i d. v_others env s i d = d" using assms(2) by (auto simp: isolated_def)
  have rows: "(\<And>j y. p j = Some y \<Longrightarrow> x_ID y = j)" "(\<And>y. p i = Some y \<Longrightarrow> y = x)"
    if "\<And>i x. p i = Some x \<Longrightarrow> db_exceptions (v_replica env) i = Some x" for p
    using that assms(3,4) iso(1) by (auto simp: db_ok_def)
  have "wp (BulkAssign E env u assign) (\<lambda>r v'. db_exceptions (w_db v') i = Some x) w"
    unfolding BulkAssign_def using assms(4,5) rows
    by (cases "validateBulkIDs (ba_ExceptionIDs assign)")
      (auto simp: Let_def intro!: wp_preloadI [OF assms(1) S] bulk_loop_rule assignSingle_pending [OF iso(2)])
  moreover have "wp (BulkResolve E env u resolve) (\<lambda>r v'. db_exceptions (w_db v') i = Some x) w"
    unfolding BulkResolve_def using assms(4,5) rows
    by (cases "validateBulkIDs (br_ExceptionIDs resolve)")
      (auto simp: Let_def intro!: wp_preloadI [OF assms(1) S] bulk_loop_rule resolveSingle_pending [OF iso(2)])
  moreover have "snd (resolve_exception E env uc c w) = w" if "resolution_id c = i"
  proof -
    have g: "snd (gateway_resolution E env v i call n opts event key extra w) = w" for v call n opts event key extra
      using gateway_resolution_refused [OF assms(1-4), of v call n opts event key extra] assms(5) by auto
    show ?thesis
    proof (cases c)
      case (RForceMatch cmd)
      with that g show ?thesis
        by (cases "validateForceMatch E env uc cmd")
          (simp_all add: resolve_exception_def resolution_id_def ForceMatch_def abind_def alift_def processForceMatch_shape)
    next
      case (RAdjustEntry cmd)
      with that g show ?thesis
        by (cases "validateAdjustEntry E env uc cmd")
          (simp_all add: resolve_exception_def resolution_id_def AdjustEntry_def abind_def alift_def processAdjustEntry_shape)
    qed
  qed
  ultimately show ?thesis by (simp add: wp_snd)
qed

theorem pending_is_stuck_witness:
  "let w = set_row (example_row\<lparr> x_Status := ExceptionStatusPendingResolution \<rparr>) example_world;
       env = (example_env (\<lambda>_ _. None) (\<lambda>s i d. d))\<lparr> v_replica := w_db w \<rparr> in
   snd (resolve_exception rat_ext env (Some example_uc) (RForceMatch example_force) w) = w"
proof -
  define w where "w = set_row (example_row\<lparr> x_Status := ExceptionStatusPendingResolution \<rparr>) example_world"
  have ok: "db_ok (\<lambda>_. None) (w_db w)"
    by (auto simp: w_def set_row_def db_ok_def example_world_def example_db_def example_row_def exception_ok_def
        ExceptionStatus_IsValid_def ExceptionSeverity_IsValid_def)
  have iso: "isolated ((example_env (\<lambda>_ _. None) (\<lambda>s i d. d))\<lparr> v_replica := w_db w \<rparr>) w"
    by (simp add: isolated_def)
  have "db_exceptions (w_db w) 7 = Some (example_row\<lparr> x_Status := ExceptionStatusPendingResolution \<rparr>)"
    by (simp add: w_def set_row_def example_row_def)
  from pending_is_stuck [OF rat_externals iso ok this, where c = "RForceMatch example_force"] show ?thesis
    by (simp add: Let_def w_def resolution_id_def example_force_def)
qed

end
