(* ===== verification/Callback_Commands.thy ===== *)
theory Callback_Commands
  imports Resolution_Properties
begin

text \<open>
  Callbacks of external systems (\<^verbatim>\<open>internal/exception/services/command/callback_*.go\<close>) with the
  idempotency repository in Redis (\<^verbatim>\<open>internal/exception/adapters/redis\<close>) and the idempotency keys of
  \<^verbatim>\<open>internal/shared/domain\<close>. Effects in Redis are not part of the database transaction and are never
  rolled back. SHA-256 in hexadecimal and the RFC 3339 text of instants are parameters (\<open>codec\<close>).
  The expiry of Redis keys is not modelled, nor is a nil \<^verbatim>\<open>*time.Time\<close> inside a payload, which no
  decoder produces.
\<close>

record codec =
  co_sha256 :: "string \<Rightarrow> string"
  co_parse_time :: "string \<Rightarrow> time option"
  co_format_time :: "time \<Rightarrow> string"

section \<open>Idempotency keys\<close>

definition idempotencyKeyMaxLength :: nat where
  "idempotencyKeyMaxLength = 128"

definition key_char :: "char \<Rightarrow> bool" where
  "key_char c \<longleftrightarrow> c \<in> set ''ABCDEFGHIJKLMNOPQRSTUVWXYZabcdefghijklmnopqrstuvwxyz0123456789:_-''"

definition IdempotencyKey_IsValid :: "string \<Rightarrow> bool" where
  "IdempotencyKey_IsValid key =
     (if key = '''' \<or> idempotencyKeyMaxLength < length key then False else list_all key_char key)"

definition ParseIdempotencyKey :: "string \<Rightarrow> cmd_error + string" where
  "ParseIdempotencyKey v =
     (let trimmed = TrimSpace v in
      if trimmed = '''' then Inl (Callback ErrEmptyIdempotencyKey)
      else if \<not> IdempotencyKey_IsValid trimmed then Inl (Callback ErrInvalidIdempotencyKey)
      else Inr trimmed)"

definition TryAcquire :: "env \<Rightarrow> uuid \<Rightarrow> string \<Rightarrow> ('d world, cmd_error, bool) act" where
  "TryAcquire env i key =
     abind (acheck (fault env SAcquire i)) (\<lambda>_. abind (aget (\<lambda>w. w_idem w key)) (\<lambda>current.
       if current = None
       then abind (aupdate (\<lambda>w. w\<lparr> w_idem := (w_idem w)(key \<mapsto> IdempotencyStatusPending) \<rparr>)) (\<lambda>_. aret True)
       else aret False))"

definition TryReacquireFromFailed :: "env \<Rightarrow> uuid \<Rightarrow> string \<Rightarrow> ('d world, cmd_error, bool) act" where
  "TryReacquireFromFailed env i key =
     abind (acheck (fault env SReacquire i)) (\<lambda>_. abind (aget (\<lambda>w. w_idem w key)) (\<lambda>current.
       if current = Some IdempotencyStatusFailed
       then abind (aupdate (\<lambda>w. w\<lparr> w_idem := (w_idem w)(key \<mapsto> IdempotencyStatusPending) \<rparr>)) (\<lambda>_. aret True)
       else aret False))"

definition MarkComplete :: "env \<Rightarrow> uuid \<Rightarrow> string \<Rightarrow> ('d world, cmd_error, unit) act" where
  "MarkComplete env i key =
     abind (acheck (fault env SComplete i)) (\<lambda>_.
       aupdate (\<lambda>w. w\<lparr> w_idem := (w_idem w)(key \<mapsto> IdempotencyStatusComplete) \<rparr>))"

definition MarkFailed :: "env \<Rightarrow> uuid \<Rightarrow> string \<Rightarrow> ('d world, cmd_error, unit) act" where
  "MarkFailed env i key =
     abind (acheck (fault env SFailed i)) (\<lambda>_.
       aupdate (\<lambda>w. w\<lparr> w_idem := (w_idem w)(key \<mapsto> IdempotencyStatusFailed) \<rparr>))"

definition GetCachedResult :: "env \<Rightarrow> uuid \<Rightarrow> string \<Rightarrow> ('d world, cmd_error, IdempotencyStatus) act" where
  "GetCachedResult env i key =
     abind (acheck (fault env SCached i)) (\<lambda>_. abind (aget (\<lambda>w. w_idem w key)) (\<lambda>current.
       aret (case current of None \<Rightarrow> IdempotencyStatusUnknown | Some s \<Rightarrow> s)))"

section \<open>The command and its validation\<close>

text \<open>The dynamic types a payload value is tested for; a value with a \<^verbatim>\<open>String\<close> method carries its text.\<close>

datatype any_value = AString string | AStringer string | ATime time string | AOther

record ProcessCallbackCommand =
  pc_IdempotencyKey :: string
  pc_ExceptionID :: uuid
  pc_CallbackType :: string
  pc_ExternalSystem :: string
  pc_ExternalIssueID :: string
  pc_Status :: string
  pc_ResolutionNotes :: string
  pc_Assignee :: string
  pc_DueAt :: "time option"
  pc_UpdatedAt :: "time option"
  pc_Payload :: "string \<Rightarrow> any_value option"

record callbackParams =
  cp_idempotencyKey :: string
  cp_dedupeKey :: string
  cp_externalSystem :: string
  cp_externalIssueID :: string
  cp_status :: ExceptionStatus
  cp_resolutionNotes :: "string option"
  cp_assignee :: string
  cp_dueAt :: "time option"
  cp_updatedAt :: "time option"

definition normalizeCallbackString :: "string \<Rightarrow> string" where
  "normalizeCallbackString v = TrimSpace v"

definition normalizeOptionalString :: "string \<Rightarrow> string option" where
  "normalizeOptionalString v = (let trimmed = TrimSpace v in if trimmed = '''' then None else Some trimmed)"

primrec payloadString :: "(string \<Rightarrow> any_value option) \<Rightarrow> string list \<Rightarrow> string" where
  "payloadString payload [] = ''''"
| "payloadString payload (key # keys) =
     (case payload key of
        Some (AString s) \<Rightarrow> TrimSpace s
      | Some (AStringer s) \<Rightarrow> TrimSpace s
      | Some (ATime _ s) \<Rightarrow> TrimSpace s
      | Some AOther \<Rightarrow> payloadString payload keys
      | None \<Rightarrow> payloadString payload keys)"

primrec payloadTime :: "codec \<Rightarrow> (string \<Rightarrow> any_value option) \<Rightarrow> string list \<Rightarrow> cmd_error + time option" where
  "payloadTime C payload [] = Inr None"
| "payloadTime C payload (key # keys) =
     (case payload key of
        Some (ATime t _) \<Rightarrow> Inr (Some t)
      | Some (AString s) \<Rightarrow>
          (let trimmed = TrimSpace s in
           if trimmed = '''' then Inr None
           else (case co_parse_time C trimmed of None \<Rightarrow> Inl (Callback (ErrPayloadTime key)) | Some t \<Rightarrow> Inr (Some t)))
      | _ \<Rightarrow> payloadTime C payload keys)"

definition validateCallbackDeps :: "ExceptionUseCase option \<Rightarrow> missing_dependency option" where
  "validateCallbackDeps uc =
     (case uc of None \<Rightarrow> Some ErrNilIdempotencyRepository
      | Some u \<Rightarrow>
          if \<not> uc_idempotencyRepo u then Some ErrNilIdempotencyRepository
          else if \<not> uc_exceptionRepo u then Some ErrNilExceptionRepository
          else if \<not> uc_auditPublisher u then Some ErrNilAuditPublisher
          else if \<not> uc_infraProvider u then Some ErrNilInfraProvider
          else if \<not> uc_rateLimiter u then Some ErrNilCallbackRateLimiter
          else None)"

definition resolveExternalSystem :: "'d ext \<Rightarrow> ProcessCallbackCommand \<Rightarrow> cmd_error + string" where
  "resolveExternalSystem E cmd =
     (let s = normalizeCallbackString (pc_ExternalSystem cmd);
          s = (if s = '''' then normalizeCallbackString (pc_CallbackType cmd) else s);
          s = (if s = '''' then payloadString (pc_Payload cmd) [''external_system'', ''externalSystem''] else s) in
      if s = '''' then Inl (Callback ErrCallbackExternalSystem) else Inr (to_upper E s))"

definition resolveExternalIssueID :: "ProcessCallbackCommand \<Rightarrow> cmd_error + string" where
  "resolveExternalIssueID cmd =
     (let s = normalizeCallbackString (pc_ExternalIssueID cmd);
          s = (if s = '''' then payloadString (pc_Payload cmd) [''external_issue_id'', ''externalIssueID''] else s) in
      if s = '''' then Inl (Callback ErrCallbackExternalIssueID) else Inr s)"

definition resolveCallbackStatus :: "'d ext \<Rightarrow> ProcessCallbackCommand \<Rightarrow> cmd_error + ExceptionStatus" where
  "resolveCallbackStatus E cmd =
     (let s = normalizeCallbackString (pc_Status cmd);
          s = (if s = '''' then payloadString (pc_Payload cmd) [''status''] else s) in
      if s = '''' then Inl (Callback ErrCallbackStatusRequired)
      else wrap Status (ParseExceptionStatus E (to_upper E s)))"

definition resolveResolutionNotes :: "ProcessCallbackCommand \<Rightarrow> string option" where
  "resolveResolutionNotes cmd =
     (case normalizeOptionalString (pc_ResolutionNotes cmd) of
        Some s \<Rightarrow> Some s
      | None \<Rightarrow> normalizeOptionalString (payloadString (pc_Payload cmd) [''resolution_notes'', ''resolutionNotes'']))"

definition resolveAssignee :: "ProcessCallbackCommand \<Rightarrow> string" where
  "resolveAssignee cmd =
     (let s = normalizeCallbackString (pc_Assignee cmd) in
      if s = '''' then payloadString (pc_Payload cmd) [''assignee''] else s)"

definition resolveDueAt :: "codec \<Rightarrow> ProcessCallbackCommand \<Rightarrow> cmd_error + time option" where
  "resolveDueAt C cmd =
     (if pc_DueAt cmd \<noteq> None then Inr (pc_DueAt cmd) else payloadTime C (pc_Payload cmd) [''due_at'', ''dueAt''])"

definition resolveUpdatedAt :: "codec \<Rightarrow> ProcessCallbackCommand \<Rightarrow> cmd_error + time option" where
  "resolveUpdatedAt C cmd =
     (if pc_UpdatedAt cmd \<noteq> None then Inr (pc_UpdatedAt cmd)
      else payloadTime C (pc_Payload cmd) [''updated_at'', ''updatedAt''])"

definition validateCallback :: "'d ext \<Rightarrow> codec \<Rightarrow> ExceptionUseCase option \<Rightarrow> ProcessCallbackCommand \<Rightarrow> cmd_error + callbackParams" where
  "validateCallback E C uc cmd =
     (case validateCallbackDeps uc of Some e \<Rightarrow> Inl (Missing e)
      | None \<Rightarrow>
          if pc_ExceptionID cmd = 0 then Inl (Usecase ErrExceptionIDRequired)
          else rbind (ParseIdempotencyKey (pc_IdempotencyKey cmd)) (\<lambda>idempotencyKey.
            rbind (resolveExternalSystem E cmd) (\<lambda>externalSystem.
            rbind (resolveExternalIssueID cmd) (\<lambda>externalIssueID.
            rbind (resolveCallbackStatus E cmd) (\<lambda>status.
            rbind (resolveDueAt C cmd) (\<lambda>dueAt.
            rbind (resolveUpdatedAt C cmd) (\<lambda>updatedAt.
            Inr \<lparr> cp_idempotencyKey = idempotencyKey, cp_dedupeKey = '''', cp_externalSystem = externalSystem,
                  cp_externalIssueID = externalIssueID, cp_status = status,
                  cp_resolutionNotes = resolveResolutionNotes cmd, cp_assignee = resolveAssignee cmd,
                  cp_dueAt = dueAt, cp_updatedAt = updatedAt \<rparr>)))))))"

section \<open>Applying a callback\<close>

definition applyCallbackMetadataUpdate :: "time \<Rightarrow> Exception \<Rightarrow> callbackParams \<Rightarrow> Exception" where
  "applyCallbackMetadataUpdate now x params =
     (let trimmed = TrimSpace (cp_assignee params);
          x = (if trimmed \<noteq> '''' then x\<lparr> x_AssignedTo := Some trimmed \<rparr> else x);
          x = (if cp_dueAt params \<noteq> None then x\<lparr> x_DueAt := cp_dueAt params \<rparr> else x) in
      if trimmed \<noteq> '''' \<or> cp_dueAt params \<noteq> None then x\<lparr> x_UpdatedAt := now \<rparr> else x)"

definition applyCallbackStatusTransition :: "time \<Rightarrow> Exception \<Rightarrow> callbackParams \<Rightarrow> cmd_error + Exception" where
  "applyCallbackStatusTransition now x params =
     (case cp_status params of
        ExceptionStatusAssigned \<Rightarrow>
          if TrimSpace (cp_assignee params) = '''' then Inl (Callback ErrCallbackAssigneeRequired)
          else wrap Entity (Assign now (Some x) (cp_assignee params) (cp_dueAt params))
      | ExceptionStatusResolved \<Rightarrow>
          (let notes = (case cp_resolutionNotes params of
                          Some n \<Rightarrow> if TrimSpace n = '''' then ''Resolved via '' @ cp_externalSystem params @ '' callback'' else n
                        | None \<Rightarrow> ''Resolved via '' @ cp_externalSystem params @ '' callback'') in
           wrap Entity (Resolve now (Some x) notes []))
      | _ \<Rightarrow> Inl (Callback ErrCallbackStatusUnsupported))"

definition applyCallback :: "time \<Rightarrow> Exception \<Rightarrow> callbackParams \<Rightarrow> cmd_error + Exception" where
  "applyCallback now x params =
     (let x = x\<lparr> x_ExternalSystem := Some (cp_externalSystem params), x_ExternalIssueID := Some (cp_externalIssueID params) \<rparr> in
      if x_Status x = cp_status params then Inr (applyCallbackMetadataUpdate now x params)
      else (case ValidateResolutionTransition (x_Status x) (cp_status params) of
              Some e \<Rightarrow> Inl (Status e)
            | None \<Rightarrow>
                if cp_status params = ExceptionStatusOpen then Inl (Callback ErrCallbackOpenNotValidTarget)
                else applyCallbackStatusTransition now x params))"

section \<open>Processing\<close>

definition idempotencyKeyHash :: "codec \<Rightarrow> string \<Rightarrow> string" where
  "idempotencyKeyHash C key = co_sha256 C key"

definition scopeCallbackIdempotencyKey :: "'d ext \<Rightarrow> codec \<Rightarrow> string \<Rightarrow> uuid \<Rightarrow> string \<Rightarrow> string" where
  "scopeCallbackIdempotencyKey E C clientKey exceptionID externalSystem =
     ''cb_'' @ co_sha256 C (to_upper E (TrimSpace externalSystem) @ '':'' @ uuid_string E exceptionID @ '':'' @ clientKey)"

definition checkRateLimit :: "env \<Rightarrow> uuid \<Rightarrow> ('d world, cmd_error, unit) act" where
  "checkRateLimit env i =
     abind (acheck (fault env SRateLimit i)) (\<lambda>_.
       acheck (if v_allowed env then None else Some (Callback ErrCallbackRateLimitExceeded)))"

definition markIdempotencyFailed :: "env \<Rightarrow> uuid \<Rightarrow> string \<Rightarrow> ('d world, cmd_error, unit) act" where
  "markIdempotencyFailed env i key = abind (atry (MarkFailed env i key)) (\<lambda>_. aret ())"

definition callback_event :: "codec \<Rightarrow> env \<Rightarrow> ProcessCallbackCommand \<Rightarrow> callbackParams \<Rightarrow> Exception \<Rightarrow> AuditEvent" where
  "callback_event C env cmd params updated =
     (let auditNotes = (case cp_resolutionNotes params of None \<Rightarrow> '''' | Some n \<Rightarrow> n);
          callbackType = normalizeCallbackString (pc_CallbackType cmd);
          callbackType = (if callbackType = '''' then cp_externalSystem params else callbackType);
          metadata = [''idempotency_key_hash'' \<mapsto> idempotencyKeyHash C (cp_idempotencyKey params),
            ''callback_type'' \<mapsto> callbackType, ''external_system'' \<mapsto> cp_externalSystem params,
            ''external_issue_id'' \<mapsto> cp_externalIssueID params, ''status'' \<mapsto> ExceptionStatus_string (cp_status params)];
          metadata = (if cp_assignee params \<noteq> '''' then metadata(''assignee'' \<mapsto> cp_assignee params) else metadata);
          metadata = (case cp_dueAt params of None \<Rightarrow> metadata | Some t \<Rightarrow> metadata(''due_at'' \<mapsto> co_format_time C t));
          metadata = (case cp_updatedAt params of None \<Rightarrow> metadata | Some t \<Rightarrow> metadata(''updated_at'' \<mapsto> co_format_time C t)) in
      \<lparr> ae_ExceptionID = x_ID updated, ae_Action = ''CALLBACK_PROCESSED'', ae_Actor = ''system'', ae_Notes = auditNotes,
        ae_ReasonCode = None, ae_OccurredAt = v_clock env SAudit, ae_Metadata = metadata \<rparr>)"

definition publishCallbackAudit :: "codec \<Rightarrow> env \<Rightarrow> ProcessCallbackCommand \<Rightarrow> callbackParams \<Rightarrow> Exception \<Rightarrow> (db, cmd_error, unit) act" where
  "publishCallbackAudit C env cmd params updated = PublishExceptionEventWithTx env (callback_event C env cmd params updated)"

definition callback_transaction :: "'d ext \<Rightarrow> codec \<Rightarrow> env \<Rightarrow> ExceptionUseCase \<Rightarrow> ProcessCallbackCommand \<Rightarrow> callbackParams \<Rightarrow>
    ('d world, cmd_error, unit) act" where
  "callback_transaction E C env uc cmd params =
     abind (FindByID E env (pc_ExceptionID cmd)) (\<lambda>found.
     abind (alift (applyCallback (v_clock env SFind) found params)) (\<lambda>applied.
     critical_tx env (x_ID applied)
       (abind (UpdateWithTx E env applied) (\<lambda>updated.
        abind (publishCallbackAudit C env cmd params updated) (\<lambda>_.
        emitExceptionCritical env uc ''exception.callback_processed'' updated
          [''external_system'' \<mapsto> PString (cp_externalSystem params),
           ''external_issue_id'' \<mapsto> PString (cp_externalIssueID params),
           ''callback_type'' \<mapsto> PString (pc_CallbackType cmd),
           ''processed_at'' \<mapsto> FormatTime (v_clock env SEmit) (x_UpdatedAt updated)])))))"

text \<open>Every failure marks the key as failed before it is returned.\<close>

definition processCallback :: "'d ext \<Rightarrow> codec \<Rightarrow> env \<Rightarrow> ExceptionUseCase \<Rightarrow> ProcessCallbackCommand \<Rightarrow> callbackParams \<Rightarrow>
    ('d world, cmd_error, unit) act" where
  "processCallback E C env uc cmd params =
     abind (acatch (callback_transaction E C env uc cmd params)
       (\<lambda>e. abind (markIdempotencyFailed env (pc_ExceptionID cmd) (cp_dedupeKey params)) (\<lambda>_. afail e)))
     (\<lambda>_. abind (atry (MarkComplete env (pc_ExceptionID cmd) (cp_dedupeKey params))) (\<lambda>_. aret ()))"

definition duplicate_event :: "codec \<Rightarrow> env \<Rightarrow> ProcessCallbackCommand \<Rightarrow> callbackParams \<Rightarrow> AuditEvent" where
  "duplicate_event C env cmd params =
     \<lparr> ae_ExceptionID = pc_ExceptionID cmd, ae_Action = ''CALLBACK_DUPLICATE_IGNORED'', ae_Actor = ''system'', ae_Notes = '''',
       ae_ReasonCode = None, ae_OccurredAt = v_clock env SAudit,
       ae_Metadata = [''idempotency_key_hash'' \<mapsto> idempotencyKeyHash C (cp_idempotencyKey params),
         ''callback_type'' \<mapsto> normalizeCallbackString (pc_CallbackType cmd), ''external_system'' \<mapsto> cp_externalSystem params,
         ''external_issue_id'' \<mapsto> cp_externalIssueID params, ''status'' \<mapsto> ExceptionStatus_string (cp_status params)] \<rparr>"

definition handleDuplicateCallback :: "codec \<Rightarrow> env \<Rightarrow> ProcessCallbackCommand \<Rightarrow> callbackParams \<Rightarrow> ('d world, cmd_error, unit) act" where
  "handleDuplicateCallback C env cmd params =
     session env SCreate (pc_ExceptionID cmd) (PublishExceptionEventWithTx env (duplicate_event C env cmd params))"

definition handleExistingCallback :: "'d ext \<Rightarrow> codec \<Rightarrow> env \<Rightarrow> ExceptionUseCase \<Rightarrow> ProcessCallbackCommand \<Rightarrow> callbackParams \<Rightarrow>
    IdempotencyStatus \<Rightarrow> ('d world, cmd_error, unit) act" where
  "handleExistingCallback E C env uc cmd params status =
     (case status of
        IdempotencyStatusComplete \<Rightarrow> handleDuplicateCallback C env cmd params
      | IdempotencyStatusPending \<Rightarrow> afail (Callback ErrCallbackInProgress)
      | IdempotencyStatusFailed \<Rightarrow>
          abind (TryReacquireFromFailed env (pc_ExceptionID cmd) (cp_dedupeKey params)) (\<lambda>reacquired.
            if reacquired then processCallback E C env uc cmd params else afail (Callback ErrCallbackInProgress))
      | IdempotencyStatusUnknown \<Rightarrow> afail (Callback ErrCallbackRetryable))"

definition callback_key :: "'d ext \<Rightarrow> codec \<Rightarrow> ProcessCallbackCommand \<Rightarrow> callbackParams \<Rightarrow> string" where
  "callback_key E C cmd params =
     scopeCallbackIdempotencyKey E C (cp_idempotencyKey params) (pc_ExceptionID cmd) (cp_externalSystem params)"

definition ProcessCallback :: "'d ext \<Rightarrow> codec \<Rightarrow> env \<Rightarrow> ExceptionUseCase option \<Rightarrow> ProcessCallbackCommand \<Rightarrow> ('d world, cmd_error, unit) act" where
  "ProcessCallback E C env uc cmd =
     abind (alift (validateCallback E C uc cmd)) (\<lambda>valid.
     abind (checkRateLimit env (pc_ExceptionID cmd)) (\<lambda>_.
     let params = valid\<lparr> cp_dedupeKey := callback_key E C cmd valid \<rparr> in
     abind (TryAcquire env (pc_ExceptionID cmd) (cp_dedupeKey params)) (\<lambda>acquired.
       if \<not> acquired
       then abind (GetCachedResult env (pc_ExceptionID cmd) (cp_dedupeKey params)) (\<lambda>cached.
         handleExistingCallback E C env (the uc) cmd params cached)
       else processCallback E C env (the uc) cmd params)))"

section \<open>Callbacks keep the contract\<close>

lemma applyCallback_row_step:
  assumes "exception_ok x" "applyCallback now x params = Inr y"
  shows "row_step x y \<and> x_Version y = x_Version x \<and> exception_ok y"
proof -
  let ?x = "x\<lparr> x_ExternalSystem := Some (cp_externalSystem params), x_ExternalIssueID := Some (cp_externalIssueID params) \<rparr>"
  have x: "row_step x ?x" "exception_ok ?x" "x_Version ?x = x_Version x"
    using assms(1) by (simp_all add: row_step_def same_resolution_def exception_ok_def)
  have meta: "row_step x (applyCallbackMetadataUpdate now ?x params) \<and>
      x_Version (applyCallbackMetadataUpdate now ?x params) = x_Version x \<and>
      exception_ok (applyCallbackMetadataUpdate now ?x params)"
    using assms(1) by (simp add: applyCallbackMetadataUpdate_def Let_def row_step_def same_resolution_def exception_ok_def)
  have step: "row_step x y \<and> x_Version y = x_Version x \<and> exception_ok y"
    if "exception_step ?x e = Inr y" for e
    using exception_step_row_step [OF x(2) that] row_step_trans [OF x(1)] x(3) by auto
  from assms(2) show ?thesis using meta step [of "EAssign now a d" for a d] step [of "EResolve now n []" for n]
    by (auto simp: applyCallback_def applyCallbackStatusTransition_def Let_def exception_step_def
        split: if_splits option.splits ExceptionStatus.splits)
qed

definition set_key :: "string \<Rightarrow> IdempotencyStatus \<Rightarrow> 'd world \<Rightarrow> 'd world" where
  "set_key key s w = w\<lparr> w_idem := (w_idem w)(key \<mapsto> s) \<rparr>"

lemma set_key_sel [simp]: "w_db (set_key key s w) = w_db w" "w_idem (set_key key s w) = (w_idem w)(key \<mapsto> s)"
  by (simp_all add: set_key_def)

text \<open>The marks a run of the transaction leaves on the key.\<close>

definition mark :: "env \<Rightarrow> site \<Rightarrow> uuid \<Rightarrow> string \<Rightarrow> IdempotencyStatus \<Rightarrow> 'd world \<Rightarrow> 'd world" where
  "mark env s i key status w = (if fault env s i = None then set_key key status w else w)"

lemma mark_db [simp]: "w_db (mark env s i key status w) = w_db w"
  by (simp add: mark_def)

lemma wp_processCallback:
  "wp (processCallback E C env uc cmd params) Q w =
     wp (callback_transaction E C env uc cmd params)
       (on_ok (\<lambda>e v. Q (Inl e) (mark env SFailed (pc_ExceptionID cmd) (cp_dedupeKey params) IdempotencyStatusFailed v))
              (\<lambda>_ v. Q (Inr ()) (mark env SComplete (pc_ExceptionID cmd) (cp_dedupeKey params) IdempotencyStatusComplete v))) w"
proof -
  have "wp (acheck (fault env s i)) (on_ok F G) v = (case fault env s i of None \<Rightarrow> G () v | Some e \<Rightarrow> F e v)"
    for s i F and G :: "unit \<Rightarrow> 'a world \<Rightarrow> bool" and v by (cases "fault env s i") simp_all
  then show ?thesis
    unfolding processCallback_def markIdempotencyFailed_def MarkFailed_def MarkComplete_def mark_def set_key_def
    by (auto simp: wp_def [of "callback_transaction E C env uc cmd params"] on_ok_def split: prod.splits sum.splits option.splits)
qed

lemma processCallback_contract:
  assumes E: "externals E" and S: "serves parse env start" and w: "w_db w = w_db start"
  shows "wp (processCallback E C env uc cmd params) (\<lambda>r w'. follows parse (w_db start) (w_db w')) w"
proof -
  have S': "serves parse env w" using S w by (simp add: serves_def)
  have snap: "follows parse (v_replica env) (w_db w)" using S' by (simp add: serves_def)
  have "wp (critical_tx env (x_ID y) (abind (UpdateWithTx E env y) (\<lambda>updated.
      abind (publishCallbackAudit C env cmd params updated) (\<lambda>_. emitExceptionCritical env uc key updated (extra updated))))) Q w"
    if x: "db_exceptions (v_replica env) (pc_ExceptionID cmd) = Some x" "applyCallback now x params = Inr y"
      and Q: "\<And>r w'. follows parse (w_db start) (w_db w') \<Longrightarrow> Q r w'" for x y now Q key extra
  proof -
    have id: "x_ID x = pc_ExceptionID cmd" "exception_ok x" using serves_replica [OF S' x(1)] by auto
    from applyCallback_row_step [OF id(2) x(2)] id(1)
    have y: "row_step x y" "x_Version y = x_Version x" "exception_ok y" "x_ID y = pc_ExceptionID cmd"
      by (auto simp: row_step_def)
    have "recorded [callback_event C env cmd params (bump t y)] (pc_ExceptionID cmd)" for t
      using y(4) by (simp add: recorded_def callback_event_def Let_def resolution_actions_def)
    with y x(1) Q w serves_db_ok [OF S'] show ?thesis
      unfolding publishCallbackAudit_def
      by (intro wp_critical_update [OF E S' snap, where row = x]) (auto intro!: appends_event)
  qed
  then show ?thesis unfolding wp_processCallback callback_transaction_def using w
    by (auto intro!: wp_FindByIDI [OF E S'] simp: on_ok_def split: sum.splits)
qed

lemma ProcessCallback_contract:
  assumes "externals E" "serves parse env w"
  shows "wp (ProcessCallback E C env uc cmd) (\<lambda>r w'. follows parse (w_db w) (w_db w')) w"
proof -
  have dup: "wp (handleDuplicateCallback C env cmd params) (\<lambda>r w'. follows parse (w_db w) (w_db w')) v"
    if "w_db v = w_db w" for v params
  proof -
    have "follows parse d (d\<lparr> db_audit := db_audit d @ [ev] \<rparr>)" for d ev
      by (rule follows_append [where evs = "[ev]"]) simp_all
    from follows_trans [OF serves_step(1) [OF assms(2) follows_refl] this] show ?thesis
      unfolding handleDuplicateCallback_def
      using that serves_step(1) [OF assms(2) follows_refl] by (intro wp_sessionI) (auto intro!: wp_PublishI)
  qed
  show ?thesis
    unfolding ProcessCallback_def
    by (cases "validateCallback E C uc cmd")
      (auto simp: checkRateLimit_def TryAcquire_def GetCachedResult_def handleExistingCallback_def
        TryReacquireFromFailed_def Let_def split: option.splits IdempotencyStatus.splits
        intro!: processCallback_contract [OF assms] dup)
qed

section \<open>Exactly once\<close>

text \<open>One attempt to process a callback: it is applied, recorded and announced and its key becomes
  complete, or the database is untouched and its key becomes failed; a mark that cannot be written
  leaves the key pending.\<close>

definition attempt_outcome :: "codec \<Rightarrow> env \<Rightarrow> ProcessCallbackCommand \<Rightarrow> callbackParams \<Rightarrow> string \<Rightarrow> 'd world \<Rightarrow>
    cmd_error + unit \<Rightarrow> 'd world \<Rightarrow> bool" where
  "attempt_outcome C env cmd params key w r w' \<longleftrightarrow>
     (case r of
        Inl e \<Rightarrow> w_db w' = w_db w \<and>
          w_idem w' = (w_idem w)(key \<mapsto> if fault env SFailed (pc_ExceptionID cmd) = None then IdempotencyStatusFailed
                                       else IdempotencyStatusPending)
      | Inr _ \<Rightarrow>
          (\<exists>x y se. db_exceptions (w_db w) (pc_ExceptionID cmd) = Some x \<and> applyCallback (v_clock env SFind) x params = Inr y \<and>
             db_exceptions (w_db w') = (db_exceptions (w_db w))(pc_ExceptionID cmd \<mapsto> bump (v_clock env SUpdate) y) \<and>
             db_audit (w_db w') = db_audit (w_db w) @ [callback_event C env cmd params (bump (v_clock env SUpdate) y)] \<and>
             db_outbox (w_db w') = db_outbox (w_db w) @ [se]) \<and>
          w_idem w' = (w_idem w)(key \<mapsto> if fault env SComplete (pc_ExceptionID cmd) = None then IdempotencyStatusComplete
                                       else IdempotencyStatusPending))"

lemma processCallback_attempt:
  assumes "externals E" "v_replica env = w_db w" "\<And>s i d. v_others env s i d = d" "db_ok parse (w_db w)"
    and "cp_dedupeKey params = key"
  shows "wp (processCallback E C env uc cmd params)
    (attempt_outcome C env cmd params key w) (set_key key IdempotencyStatusPending w)"
proof -
  let ?i = "pc_ExceptionID cmd" and ?w = "set_key key IdempotencyStatusPending w"
  let ?Q = "attempt_outcome C env cmd params key w"
  have S: "serves parse env ?w" using assms(2-4) by (simp add: serves_def)
  let ?post = "on_ok (\<lambda>e v. ?Q (Inl e) (mark env SFailed ?i key IdempotencyStatusFailed v))
    (\<lambda>_ v. ?Q (Inr ()) (mark env SComplete ?i key IdempotencyStatusComplete v))"
  have failed: "?Q (Inl e) (mark env SFailed ?i key IdempotencyStatusFailed ?w)" for e
    by (simp add: attempt_outcome_def mark_def)
  have tx: "wp (critical_tx env (x_ID y) (abind (UpdateWithTx E env y) (\<lambda>updated.
      abind (publishCallbackAudit C env cmd params updated) (\<lambda>_. emitExceptionCritical env uc k updated (extra updated)))))
      ?post ?w"
    if x: "db_exceptions (v_replica env) ?i = Some x" "applyCallback (v_clock env SFind) x params = Inr y" for x y k extra
  proof -
    have id: "x_ID x = ?i" "exception_ok x" using serves_replica [OF S x(1)] by auto
    from applyCallback_row_step [OF id(2) x(2)] id(1)
    have y: "row_step x y" "x_Version y = x_Version x" "exception_ok y" "x_ID y = ?i" by (auto simp: row_step_def)
    have "critical_tx env ?i (abind (UpdateWithTx E env y) (\<lambda>updated.
        abind (publishCallbackAudit C env cmd params updated) (\<lambda>_. emitExceptionCritical env uc k updated (extra updated)))) ?w =
      (case tx_error env uc ?i of Some e \<Rightarrow> (Inl e, ?w)
       | None \<Rightarrow> let z = bump (v_clock env SUpdate) y in
           (Inr (), record_row z (callback_event C env cmd params z)
              \<lparr> se_DefinitionKey = k, se_Subject = ?i, se_Payload = exceptionPayload z (extra z) \<rparr> ?w))"
      unfolding publishCallbackAudit_def using y x(1) assms(2)
      by (intro critical_record_isolated [OF assms(1,3), where shown = "\<lambda>z. z"])
        (simp_all add: callback_event_def Let_def)
    then show ?thesis using failed x y assms(2)
      by (auto simp: wp_def attempt_outcome_def Let_def mark_def split: option.splits)
  qed
  show ?thesis unfolding wp_processCallback callback_transaction_def assms(5)
    by (auto simp: on_ok_def [of _ _ "applyCallback _ _ _"] failed split: sum.splits intro!: wp_FindByIDI [OF assms(1) S] tx)
qed


definition example_callback :: ProcessCallbackCommand where
  "example_callback = \<lparr> pc_IdempotencyKey = ''k-1'', pc_ExceptionID = 7, pc_CallbackType = ''JIRA'', pc_ExternalSystem = ''JIRA'',
     pc_ExternalIssueID = ''J-1'', pc_Status = ''RESOLVED'', pc_ResolutionNotes = ''fixed'', pc_Assignee = '''', pc_DueAt = Some 9,
     pc_UpdatedAt = Some 9, pc_Payload = Map.empty \<rparr>"

definition example_codec :: codec where
  "example_codec = \<lparr> co_sha256 = (\<lambda>s. s), co_parse_time = (\<lambda>_. None), co_format_time = (\<lambda>_. '''') \<rparr>"

lemma example_callback_valid:
  "validateCallback rat_ext example_codec (Some example_uc) example_callback =
     Inr \<lparr> cp_idempotencyKey = ''k-1'', cp_dedupeKey = '''', cp_externalSystem = ''JIRA'', cp_externalIssueID = ''J-1'',
       cp_status = ExceptionStatusResolved, cp_resolutionNotes = Some ''fixed'', cp_assignee = '''', cp_dueAt = Some 9,
       cp_updatedAt = Some 9 \<rparr>"
  by (simp add: validateCallback_def validateCallbackDeps_def example_uc_def example_callback_def ParseIdempotencyKey_def
      TrimSpace_visible visible_def IdempotencyKey_IsValid_def idempotencyKeyMaxLength_def key_char_def
      resolveExternalSystem_def normalizeCallbackString_def resolveExternalIssueID_def resolveCallbackStatus_def
      ParseExceptionStatus_def ExceptionStatus_of_def ExceptionStatus_IsValid_def resolveDueAt_def resolveUpdatedAt_def
      resolveResolutionNotes_def normalizeOptionalString_def resolveAssignee_def rat_ext_def ascii_upper_def wrap_def Let_def)



end
