(* ===== verification/Dispatch_Commands.thy ===== *)
theory Dispatch_Commands
  imports Connector Callback_Commands
begin

text \<open>
  Dispatching exceptions to external systems (\<^verbatim>\<open>dispatch_commands.go\<close>): the payload is built from the
  exception as the replica has it, sent through the connector, and only then recorded in a transaction
  of its own. The goroutines of BulkDispatch finish in an order the caller does not control: that order
  is an argument, and what the workers do to the database in between is part of the interference each
  of them sees. The age in days is an exact quotient, \<^verbatim>\<open>Duration.Hours\<close> rounds in float64.
\<close>

record DispatchCommand =
  dc_ExceptionID :: uuid
  dc_TargetSystem :: string
  dc_Queue :: string

record dispatchParams =
  dq_actor :: string
  dq_target :: RoutingTarget
  dq_queue :: string

record CommandDispatchResult =
  dx_ExceptionID :: uuid
  dx_Target :: string
  dx_ExternalReference :: string
  dx_Acknowledged :: bool
  dx_DispatchedAt :: time

definition validateDispatchDeps :: "ExceptionUseCase option \<Rightarrow> missing_dependency option" where
  "validateDispatchDeps uc =
     (case uc of None \<Rightarrow> Some ErrNilExceptionRepository
      | Some u \<Rightarrow>
          if \<not> uc_exceptionRepo u then Some ErrNilExceptionRepository
          else if \<not> uc_connector u then Some ErrNilExternalConnector
          else if \<not> uc_auditPublisher u then Some ErrNilAuditPublisher
          else if \<not> uc_actorExtractor u then Some ErrNilActorExtractor
          else if \<not> uc_infraProvider u then Some ErrNilInfraProvider
          else None)"

definition validateDispatch :: "'d ext \<Rightarrow> env \<Rightarrow> ExceptionUseCase option \<Rightarrow> DispatchCommand \<Rightarrow> cmd_error + dispatchParams" where
  "validateDispatch E env uc cmd =
     (case validateDispatchDeps uc of Some e \<Rightarrow> Inl (Missing e)
      | None \<Rightarrow>
          if dc_ExceptionID cmd = 0 then Inl (Usecase ErrExceptionIDRequired)
          else
            let targetStr = TrimSpace (to_upper E (dc_TargetSystem cmd)); actor = TrimSpace (v_actor env) in
            if targetStr = '''' then Inl (Usecase ErrTargetSystemRequired)
            else if \<not> RoutingTarget_IsValid (RoutingTarget_of targetStr) then Inl (Usecase ErrUnsupportedTargetSystem)
            else if actor = '''' then Inl (Usecase ErrActorRequired)
            else Inr \<lparr> dq_actor = actor, dq_target = RoutingTarget_of targetStr, dq_queue = TrimSpace (dc_Queue cmd) \<rparr>)"

section \<open>The payload\<close>

fun nat_string :: "nat \<Rightarrow> string" where
  "nat_string n = (if n < 10 then [char_of (48 + n)] else nat_string (n div 10) @ [char_of (48 + n mod 10)])"

declare nat_string.simps [simp del]

definition int_string :: "int \<Rightarrow> string" where
  "int_string i = (if i < 0 then ''-'' @ nat_string (nat (- i)) else nat_string (nat i))"

definition newline :: string where
  "newline = [char_of (10 :: nat)]"

definition calculateAgeDays :: "time \<Rightarrow> time \<Rightarrow> int" where
  "calculateAgeDays createdAt ref = go_div (time_sub ref createdAt) nanos_per_day"

definition buildDispatchPayload :: "'d ext \<Rightarrow> codec \<Rightarrow> time \<Rightarrow> uuid \<Rightarrow> Exception \<Rightarrow> RoutingTarget \<Rightarrow> dispatchPayload" where
  "buildDispatchPayload E C now exceptionID exception target =
     (let id = uuid_string E exceptionID;
          severity = ExceptionSeverity_string (x_Severity exception);
          status = ExceptionStatus_string (x_Status exception);
          ageDays = calculateAgeDays (x_CreatedAt exception) now;
          summary = ''['' @ severity @ ''] Exception '' @ take 8 id @ '' requires attention (age: '' @ int_string ageDays @ '' days)'';
          head = ''Exception ID: '' @ id @ newline @ ''Transaction ID: '' @ uuid_string E (x_TransactionID exception) @ newline @
                 ''Severity: '' @ severity @ newline @ ''Status: '' @ status @ newline @ ''Target: '' @ RoutingTarget_string target @
                 newline @ ''Age: '' @ int_string ageDays @ '' days'';
          reasoned = (case x_Reason exception of None \<Rightarrow> head
                      | Some r \<Rightarrow> if r \<noteq> '''' then head @ newline @ ''Reason: '' @ r else head);
          assigned = (case x_AssignedTo exception of None \<Rightarrow> reasoned
                      | Some a \<Rightarrow> if a \<noteq> '''' then reasoned @ newline @ ''Assigned To: '' @ a else reasoned);
          description = (case x_DueAt exception of None \<Rightarrow> assigned
                         | Some t \<Rightarrow> assigned @ newline @ ''Due At: '' @ co_format_time C t)
      in \<lparr> dp_ExceptionID = id, dp_TransactionID = uuid_string E (x_TransactionID exception), dp_Severity = severity,
           dp_Status = status, dp_Reason = x_Reason exception, dp_Target = RoutingTarget_string target, dp_Summary = summary,
           dp_Description = description, dp_AgeDays = ageDays, dp_AssignedTo = x_AssignedTo exception,
           dp_DueAt = map_option (co_format_time C) (x_DueAt exception) \<rparr>)"

section \<open>Dispatch\<close>

definition dispatch_event :: "env \<Rightarrow> DispatchCommand \<Rightarrow> dispatchParams \<Rightarrow> DispatchResult \<Rightarrow> AuditEvent" where
  "dispatch_event env cmd params result =
     \<lparr> ae_ExceptionID = dc_ExceptionID cmd, ae_Action = ''DISPATCH'', ae_Actor = dq_actor params,
       ae_Notes = ''Dispatched to '' @ RoutingTarget_string (dq_target params), ae_ReasonCode = None,
       ae_OccurredAt = v_clock env SAudit,
       ae_Metadata = [''target'' \<mapsto> RoutingTarget_string (dq_target params), ''queue'' \<mapsto> dq_queue params,
                      ''external_reference'' \<mapsto> dr_ExternalReference result] \<rparr>"

definition dispatch_stream :: "env \<Rightarrow> DispatchCommand \<Rightarrow> dispatchParams \<Rightarrow> DispatchResult \<Rightarrow> StreamEvent" where
  "dispatch_stream env cmd params result =
     \<lparr> se_DefinitionKey = ''exception.dispatched'', se_Subject = dc_ExceptionID cmd,
       se_Payload = [''exception_id'' \<mapsto> PUUID (dc_ExceptionID cmd),
         ''target_system'' \<mapsto> PString (RoutingTarget_string (dq_target params)), ''queue'' \<mapsto> PString (dq_queue params),
         ''external_reference'' \<mapsto> PString (dr_ExternalReference result),
         ''acknowledged'' \<mapsto> PBool (dr_Acknowledged result),
         ''dispatched_at'' \<mapsto> FormatTime (v_clock env SEmit) (v_clock env SAudit)] \<rparr>"

text \<open>An unconfigured connector has a sentinel of its own.\<close>

definition dispatch_failure :: "connector_error \<Rightarrow> cmd_error" where
  "dispatch_failure err =
     (if err = ErrConnectorNotConfigured then Usecase ErrDispatchConnectorNotConfigured else Connector err)"

definition connector_call :: "'d ext \<Rightarrow> codec \<Rightarrow> http_env \<Rightarrow> ConnectorConfig \<Rightarrow> env \<Rightarrow> DispatchCommand \<Rightarrow> dispatchParams \<Rightarrow>
    Exception \<Rightarrow> ('d world, connector_error, DispatchResult) act" where
  "connector_call E C hx config env cmd params exception =
     connector_Dispatch hx config (uuid_string E (dc_ExceptionID cmd)) (dq_target params) (dq_queue params)
       (buildDispatchPayload E C (v_clock env SFind) (dc_ExceptionID cmd) exception (dq_target params))"

definition lift_connector :: "('d world, connector_error, 'a) act \<Rightarrow> ('d world, cmd_error, 'a) act" where
  "lift_connector m w = (case m w of (r, w') \<Rightarrow> (wrap dispatch_failure r, w'))"

definition processDispatch :: "'d ext \<Rightarrow> codec \<Rightarrow> http_env \<Rightarrow> ConnectorConfig \<Rightarrow> env \<Rightarrow> ExceptionUseCase \<Rightarrow> DispatchCommand \<Rightarrow>
    dispatchParams \<Rightarrow> ('d world, cmd_error, CommandDispatchResult) act" where
  "processDispatch E C hx config env uc cmd params =
     abind (FindByID E env (dc_ExceptionID cmd)) (\<lambda>exception.
     abind (lift_connector (connector_call E C hx config env cmd params exception)) (\<lambda>result.
     abind (critical_tx env (dc_ExceptionID cmd)
       (abind (PublishExceptionEventWithTx env (dispatch_event env cmd params result)) (\<lambda>_.
          EmitWithTx env uc (dispatch_stream env cmd params result)))) (\<lambda>_.
     aret \<lparr> dx_ExceptionID = dc_ExceptionID cmd, dx_Target = RoutingTarget_string (dr_Target result),
            dx_ExternalReference = dr_ExternalReference result, dx_Acknowledged = dr_Acknowledged result,
            dx_DispatchedAt = v_clock env SAudit \<rparr>)))"

definition Dispatch :: "'d ext \<Rightarrow> codec \<Rightarrow> http_env \<Rightarrow> ConnectorConfig \<Rightarrow> env \<Rightarrow> ExceptionUseCase option \<Rightarrow> DispatchCommand \<Rightarrow>
    ('d world, cmd_error, CommandDispatchResult) act" where
  "Dispatch E C hx config env uc cmd =
     abind (alift (validateDispatch E env uc cmd)) (\<lambda>params. processDispatch E C hx config env (the uc) cmd params)"

section \<open>BulkDispatch\<close>

record BulkDispatchInput =
  bd_ExceptionIDs :: "uuid list"
  bd_TargetSystem :: string
  bd_Queue :: string

text \<open>\<open>order\<close> is the order in which the workers finish, a permutation of the identifiers.\<close>

definition BulkDispatch :: "'d ext \<Rightarrow> codec \<Rightarrow> http_env \<Rightarrow> ConnectorConfig \<Rightarrow> env \<Rightarrow> ExceptionUseCase option \<Rightarrow>
    (uuid list \<Rightarrow> uuid list) \<Rightarrow> BulkDispatchInput \<Rightarrow> ('d world, cmd_error, BulkActionResult) act" where
  "BulkDispatch E C hx config env uc order input =
     abind (alift (validateBulkIDs (bd_ExceptionIDs input))) (\<lambda>dedupedIDs.
       let targetSystem = TrimSpace (bd_TargetSystem input) in
       if targetSystem = '''' then afail (Usecase ErrBulkTargetSystemEmpty)
       else case validateDispatchDeps uc of Some e \<Rightarrow> afail (Missing e)
         | None \<Rightarrow>
             bulk_loop (\<lambda>i. abind (Dispatch E C hx config env uc
                 \<lparr> dc_ExceptionID = i, dc_TargetSystem = targetSystem, dc_Queue = TrimSpace (bd_Queue input) \<rparr>) (\<lambda>_. aret ()))
               (order dedupedIDs) \<lparr> bk_Succeeded = [], bk_Failed = [] \<rparr>)"


section \<open>A dispatch is recorded after it was sent\<close>

lemma wp_lift_connector [simp]:
  "wp (lift_connector m) Q = wp m (on_ok (\<lambda>e. Q (Inl (dispatch_failure e))) (\<lambda>a. Q (Inr a)))"
  by (rule ext) (simp add: wp_def lift_connector_def wrap_def split: prod.splits sum.splits)

lemma connector_db: "wp (connector_Dispatch hx config i target queue payload) (\<lambda>r w'. w_db w' = w_db w) w"
  by (rule wp_mono [OF connector_requests]) (auto simp: requests_def)

text \<open>The database after a dispatch: as the others left it, with the audit event and the outbox entry.\<close>

definition dispatch_written :: "env \<Rightarrow> DispatchCommand \<Rightarrow> dispatchParams \<Rightarrow> DispatchResult \<Rightarrow> db \<Rightarrow> db" where
  "dispatch_written env cmd params result d = d\<lparr> db_audit := db_audit d @ [dispatch_event env cmd params result],
     db_outbox := db_outbox d @ [dispatch_stream env cmd params result] \<rparr>"

lemma follows_dispatch: "follows parse d (dispatch_written env cmd params result d)"
  by (rule follows_append [where evs = "[dispatch_event env cmd params result]"]) (simp_all add: dispatch_written_def)

lemma dispatch_tx_post:
  "wp (critical_tx env i (abind (PublishExceptionEventWithTx env (dispatch_event env cmd params result)) (\<lambda>_.
        EmitWithTx env uc (dispatch_stream env cmd params result))))
     (on_ok (\<lambda>e v'. v' = v\<lparr> w_db := v_others env SBegin i (w_db v) \<rparr>)
        (\<lambda>_ v'. v' = v\<lparr> w_db := dispatch_written env cmd params result (v_others env SBegin i (w_db v)) \<rparr>)) v"
  by (rule wp_critical_txI) (auto simp: PublishExceptionEventWithTx_def EmitWithTx_def dispatch_written_def)

lemma processDispatch_post:
  assumes "externals E" "serves parse env w"
  shows "wp (processDispatch E C hx config env uc cmd params)
    (on_ok
      (\<lambda>e w'. w' = w \<or> (\<exists>x q v. db_exceptions (v_replica env) (dc_ExceptionID cmd) = Some x \<and>
         connector_call E C hx config env cmd params x w = (q, v) \<and>
         (w' = v \<and> (\<exists>err. q = Inl err \<and> e = dispatch_failure err) \<or>
          w' = v\<lparr> w_db := v_others env SBegin (dc_ExceptionID cmd) (w_db w) \<rparr> \<and> (\<exists>result. q = Inr result))))
      (\<lambda>res w'. \<exists>x result v. db_exceptions (v_replica env) (dc_ExceptionID cmd) = Some x \<and>
         connector_call E C hx config env cmd params x w = (Inr result, v) \<and>
         dx_ExternalReference res = dr_ExternalReference result \<and>
         w' = v\<lparr> w_db := dispatch_written env cmd params result (v_others env SBegin (dc_ExceptionID cmd) (w_db w)) \<rparr>)) w"
    (is "wp _ ?Q w")
  unfolding processDispatch_def wp_abind
proof (rule wp_FindByIDI [OF assms], goal_cases)
  case (2 x)
  obtain q v where call: "connector_call E C hx config env cmd params x w = (q, v)" by fastforce
  have db: "w_db v = w_db w"
    using wpD [OF connector_db call [unfolded connector_call_def]] .
  show ?case
  proof (cases q)
    case (Inl err)
    with 2 call show ?thesis by (auto simp: wp_def)
  next
    case (Inr result)
    have "wp (critical_tx env (dc_ExceptionID cmd) (abind (PublishExceptionEventWithTx env (dispatch_event env cmd params result)) (\<lambda>_.
        EmitWithTx env uc (dispatch_stream env cmd params result))))
        (on_ok (\<lambda>e. ?Q (Inl e)) (\<lambda>_. ?Q (Inr \<lparr> dx_ExceptionID = dc_ExceptionID cmd, dx_Target = RoutingTarget_string (dr_Target result),
            dx_ExternalReference = dr_ExternalReference result, dx_Acknowledged = dr_Acknowledged result,
            dx_DispatchedAt = v_clock env SAudit \<rparr>))) v"
      by (rule wp_mono [OF dispatch_tx_post]) (use 2 call Inr db in \<open>auto simp: on_ok_def split: sum.splits\<close>)
    with call Inr show ?thesis by (simp add: wp_def [of "connector_call E C hx config env cmd params x"])
  qed
qed simp

lemma Dispatch_contract:
  assumes "externals E" "serves parse env w"
  shows "wp (Dispatch E C hx config env uc cmd) (\<lambda>r w'. follows parse (w_db w) (w_db w')) w"
proof (cases "validateDispatch E env uc cmd")
  case (Inr params)
  let ?d = "v_others env SBegin (dc_ExceptionID cmd) (w_db w)"
  have d: "follows parse (w_db w) ?d" using serves_step [OF assms(2) follows_refl] by blast
  have db: "w_db v = w_db w" if "connector_call E C hx config env cmd params x w = (q, v)" for x q v
    using wpD [OF connector_db that [unfolded connector_call_def]] .
  have "wp (processDispatch E C hx config env (the uc) cmd params) (\<lambda>r w'. follows parse (w_db w) (w_db w')) w"
    by (rule wp_mono [OF processDispatch_post [OF assms]])
      (auto simp: on_ok_def d split: sum.splits dest!: db intro: follows_trans [OF d follows_dispatch])
  with Inr show ?thesis by (simp add: Dispatch_def)
qed (simp add: Dispatch_def)

text \<open>The contract of an item holds from any state the earlier items have led to.\<close>

lemma serves_later: "serves parse env start \<Longrightarrow> follows parse (w_db start) (w_db w) \<Longrightarrow> serves parse env w"
  by (auto simp: serves_def intro: follows_trans)

lemma BulkDispatch_contract:
  assumes "externals E" "serves parse env w"
  shows "wp (BulkDispatch E C hx config env uc order input) (\<lambda>r w'. follows parse (w_db w) (w_db w')) w"
proof -
  have "wp (abind (Dispatch E C hx config env uc cmd) (\<lambda>_. aret ())) (\<lambda>r w'. follows parse (w_db w) (w_db w')) v"
    if "follows parse (w_db w) (w_db v)" for cmd v
    using Dispatch_contract [OF assms(1) serves_later [OF assms(2) that], of C hx config uc cmd]
    by (auto simp: on_ok_def split: sum.splits elim!: wp_mono intro: follows_trans [OF that])
  then show ?thesis unfolding BulkDispatch_def
    by (cases "validateBulkIDs (bd_ExceptionIDs input)")
      (auto simp: Let_def split: option.splits intro!: bulk_loop_rule)
qed

end
