(* ===== verification/Exception_Creator.thy ===== *)
theory Exception_Creator
  imports Store_Protocol
begin

text \<open>
  How exceptions come into being: the upsert of
  \<^verbatim>\<open>internal/matching/adapters/postgres/exception_creator\<close>, with which a match run records the
  transactions it could not match. It classifies the severity, sanitises the reason, and either
  inserts an OPEN row or refreshes severity and reason of the row the transaction already has. The
  refresh does not touch the version, so a command that read the row before cannot notice it. The
  conflict is on the unique column \<^verbatim>\<open>transaction_id\<close>, which is not the key of the table: the upsert is
  a step relation, and inserts under any fresh identifier.

  The age in hours is an exact quotient; the rounding of \<^verbatim>\<open>Duration.Hours\<close> in float64 can only make
  a difference beyond 4096 hours, where every threshold is passed.
\<close>

section \<open>Severity and reason\<close>

record 'd ExceptionTransactionInput =
  et_TransactionID :: uuid
  et_AmountAbsBase :: 'd
  et_TransactionDate :: time
  et_SourceType :: string
  et_FXMissing :: bool
  et_Reason :: string

definition ReasonUnmatched :: string where
  "ReasonUnmatched = ''UNMATCHED''"

definition MaxReasonLength :: nat where
  "MaxReasonLength = 64"

definition validReasons :: "string list" where
  "validReasons =
     [''UNMATCHED'', ''FX_RATE_UNAVAILABLE'', ''MISSING_BASE_AMOUNT'', ''MISSING_BASE_CURRENCY'', ''SPLIT_INCOMPLETE'',
      ''VALIDATION_FAILED'', ''SOURCE_MISMATCH'', ''DUPLICATE_TRANSACTION'', ''FEE_VARIANCE'', ''FEE_DATA_MISSING'',
      ''FEE_CURRENCY_MISMATCH'']"

definition SanitizeReason :: "string \<Rightarrow> string" where
  "SanitizeReason reason =
     (if reason = '''' then ReasonUnmatched
      else
        let bounded = (if length reason > MaxReasonLength then take MaxReasonLength reason else reason) in
        if bounded \<in> set validReasons then bounded else ReasonUnmatched)"

definition sanitizeInputReason :: "string \<Rightarrow> string" where
  "sanitizeInputReason reason = (if TrimSpace reason = '''' then ReasonUnmatched else SanitizeReason reason)"

definition classifySeverity :: "'d::linordered_idom ext \<Rightarrow> 'd ExceptionTransactionInput \<Rightarrow> time \<Rightarrow> 'd SeverityRule list \<Rightarrow>
    ExceptionSeverity" where
  "classifySeverity E input now rules =
     (let ageHours = (if et_TransactionDate input = zero_time then 0
                      else let duration = time_sub now (et_TransactionDate input) in
                        if duration > 0 then duration div nanos_per_hour else 0) in
      case ClassifyExceptionSeverity E \<lparr> sc_AmountAbsBase = et_AmountAbsBase input, sc_AgeHours = ageHours,
          sc_SourceType = et_SourceType input, sc_FXMissing = et_FXMissing input \<rparr> rules of
        Inl _ \<Rightarrow> ExceptionSeverityMedium
      | Inr result \<Rightarrow> sr_Severity result)"

section \<open>The upsert\<close>

text \<open>\<^verbatim>\<open>INSERT INTO exceptions ... VALUES ($1,$2,$3,'OPEN',$4,$5,$6)\<close>; the version starts at 1.\<close>

definition new_row :: "uuid \<Rightarrow> time \<Rightarrow> uuid \<Rightarrow> ExceptionSeverity \<Rightarrow> string \<Rightarrow> Exception" where
  "new_row newID now transactionID severity reason =
     \<lparr> x_ID = newID, x_TransactionID = transactionID, x_Severity = severity, x_Status = ExceptionStatusOpen,
       x_ExternalSystem = None, x_ExternalIssueID = None, x_AssignedTo = None, x_DueAt = None,
       x_ResolutionNotes = None, x_ResolutionType = None, x_ResolutionReason = None, x_Reason = Some reason,
       x_Version = 1, x_CreatedAt = now, x_UpdatedAt = now \<rparr>"

text \<open>\<^verbatim>\<open>ON CONFLICT (transaction_id) DO UPDATE SET severity = CASE ..., reason = CASE ...\<close>, where a
  comparison with a NULL reason is not true.\<close>

definition upsert_severity :: "ExceptionSeverity \<Rightarrow> ExceptionSeverity \<Rightarrow> ExceptionSeverity" where
  "upsert_severity excluded current =
     (if excluded = ExceptionSeverityCritical then excluded
      else if excluded = ExceptionSeverityHigh \<and> current \<notin> {ExceptionSeverityCritical} then excluded
      else if excluded = ExceptionSeverityMedium \<and> current \<notin> {ExceptionSeverityCritical, ExceptionSeverityHigh} then excluded
      else current)"

definition upsert_reason :: "string \<Rightarrow> string option \<Rightarrow> string option" where
  "upsert_reason excluded current =
     (if excluded = ReasonUnmatched \<and> current \<noteq> None \<and> current \<noteq> Some ReasonUnmatched then current else Some excluded)"

definition upsert_row :: "time \<Rightarrow> ExceptionSeverity \<Rightarrow> string \<Rightarrow> Exception \<Rightarrow> Exception" where
  "upsert_row now severity reason row = row\<lparr>
     x_Severity := upsert_severity severity (x_Severity row), x_Reason := upsert_reason reason (x_Reason row),
     x_UpdatedAt := now \<rparr>"

inductive createExceptions :: "'d::linordered_idom ext \<Rightarrow> time \<Rightarrow> string list \<Rightarrow> 'd ExceptionTransactionInput list \<Rightarrow> db \<Rightarrow> db \<Rightarrow> bool"
  for E :: "'d ext" and now :: time and regulatorySourceTypes :: "string list" where
  create_Nil: "createExceptions E now regulatorySourceTypes [] d d"
| create_skip: "createExceptions E now regulatorySourceTypes inputs d d' \<Longrightarrow> et_TransactionID input = 0 \<Longrightarrow>
    createExceptions E now regulatorySourceTypes (input # inputs) d d'"
| create_insert: "createExceptions E now regulatorySourceTypes inputs
      (d\<lparr> db_exceptions := (db_exceptions d)(newID \<mapsto> new_row newID now (et_TransactionID input)
         (classifySeverity E input now (DefaultSeverityRules regulatorySourceTypes)) (sanitizeInputReason (et_Reason input))) \<rparr>) d' \<Longrightarrow>
    et_TransactionID input \<noteq> 0 \<Longrightarrow> db_exceptions d newID = None \<Longrightarrow>
    \<forall>i row. db_exceptions d i = Some row \<longrightarrow> x_TransactionID row \<noteq> et_TransactionID input \<Longrightarrow>
    createExceptions E now regulatorySourceTypes (input # inputs) d d'"
| create_refresh: "createExceptions E now regulatorySourceTypes inputs
      (d\<lparr> db_exceptions := (db_exceptions d)(i \<mapsto> upsert_row now
         (classifySeverity E input now (DefaultSeverityRules regulatorySourceTypes)) (sanitizeInputReason (et_Reason input)) row) \<rparr>) d' \<Longrightarrow>
    et_TransactionID input \<noteq> 0 \<Longrightarrow> db_exceptions d i = Some row \<Longrightarrow> x_TransactionID row = et_TransactionID input \<Longrightarrow>
    createExceptions E now regulatorySourceTypes (input # inputs) d d'"

inductive_cases create_NilE [elim!]: "createExceptions E now regulatory [] d d'"


section \<open>The upsert only ever escalates\<close>

definition severity_rank :: "ExceptionSeverity \<Rightarrow> nat" where
  "severity_rank s = (case s of ExceptionSeverityCritical \<Rightarrow> 3 | ExceptionSeverityHigh \<Rightarrow> 2 | ExceptionSeverityMedium \<Rightarrow> 1 | _ \<Rightarrow> 0)"

definition specific_reason :: "string option \<Rightarrow> bool" where
  "specific_reason r \<longleftrightarrow> r \<noteq> None \<and> r \<noteq> Some ReasonUnmatched"

definition escalated :: "Exception \<Rightarrow> Exception \<Rightarrow> bool" where
  "escalated x y \<longleftrightarrow> refreshed x y \<and> severity_rank (x_Severity x) \<le> severity_rank (x_Severity y) \<and>
     (specific_reason (x_Reason x) \<longrightarrow> specific_reason (x_Reason y))"

definition one_per_transaction :: "db \<Rightarrow> bool" where
  "one_per_transaction d \<longleftrightarrow> (\<forall>i j x y. db_exceptions d i = Some x \<longrightarrow> db_exceptions d j = Some y \<longrightarrow>
     x_TransactionID x = x_TransactionID y \<longrightarrow> i = j)"

lemma severity_rank_upsert:
  "severity_rank (upsert_severity s t) = max (severity_rank s) (severity_rank t)"
  by (cases s; cases t) (simp_all add: upsert_severity_def severity_rank_def)

lemma escalated_refl [simp]: "escalated x x"
  by (simp add: escalated_def)

lemma escalated_trans: "escalated x y \<Longrightarrow> escalated y z \<Longrightarrow> escalated x z"
  by (auto simp: escalated_def dest: refreshed_trans)

lemma refreshed_upsert: "refreshed row (upsert_row now severity reason row)"
  unfolding refreshed_def upsert_row_def by blast

lemma escalated_upsert: "escalated row (upsert_row now severity reason row)"
  using refreshed_upsert [of row now severity reason]
  by (auto simp: escalated_def upsert_row_def severity_rank_upsert upsert_reason_def specific_reason_def)

lemma upsert_row_sel [simp]:
  "x_TransactionID (upsert_row now severity reason row) = x_TransactionID row"
  "x_Severity (upsert_row now severity reason row) = upsert_severity severity (x_Severity row)"
  by (simp_all add: upsert_row_def)

lemma new_row_sel [simp]:
  "x_TransactionID (new_row i now t severity reason) = t" "x_Severity (new_row i now t severity reason) = severity"
  "x_ID (new_row i now t severity reason) = i" "x_Status (new_row i now t severity reason) = ExceptionStatusOpen"
  by (simp_all add: new_row_def)

lemma create_escalates:
  assumes "createExceptions E now regulatory inputs d d'" "db_exceptions d i = Some x"
  shows "\<exists>y. db_exceptions d' i = Some y \<and> escalated x y \<and>
    (x_TransactionID x \<notin> et_TransactionID ` set inputs \<longrightarrow> y = x)"
  using assms
proof (induction inputs d d' arbitrary: x rule: createExceptions.induct)
  case (create_insert inputs d newID input d')
  from create_insert.hyps(3) create_insert.prems
  have "((db_exceptions d)(newID \<mapsto> r)) i = Some x" for r by auto
  from create_insert.IH [of x] this show ?case by auto
next
  case (create_refresh inputs d j input row d')
  let ?row = "upsert_row now (classifySeverity E input now (DefaultSeverityRules regulatory))
    (sanitizeInputReason (et_Reason input)) row"
  show ?case
  proof (cases "i = j")
    case True
    with create_refresh.prems create_refresh.hyps have x: "x = row" by simp
    from create_refresh.IH [of ?row] True obtain y where "db_exceptions d' i = Some y" "escalated ?row y" by auto
    with x escalated_trans [OF escalated_upsert] create_refresh.hyps show ?thesis by auto
  next
    case False
    with create_refresh.prems create_refresh.IH [of x] show ?thesis by auto
  qed
qed auto

lemma create_covers:
  assumes "createExceptions E now regulatory inputs d d'" "input \<in> set inputs" "et_TransactionID input \<noteq> 0"
  shows "\<exists>i y. db_exceptions d' i = Some y \<and> x_TransactionID y = et_TransactionID input \<and>
    severity_rank (classifySeverity E input now (DefaultSeverityRules regulatory)) \<le> severity_rank (x_Severity y)"
  using assms
proof (induction inputs d d' rule: createExceptions.induct)
  case (create_insert inputs d newID inp d')
  show ?case
  proof (cases "input = inp")
    case True
    let ?row = "new_row newID now (et_TransactionID inp) (classifySeverity E inp now (DefaultSeverityRules regulatory))
      (sanitizeInputReason (et_Reason inp))"
    from create_escalates [OF create_insert.hyps(1), of newID ?row]
    obtain y where "db_exceptions d' newID = Some y" "escalated ?row y" by auto
    with True show ?thesis using refreshed_sel(2) [of ?row y] by (auto simp: escalated_def intro!: exI [of _ newID])
  next
    case False
    with create_insert.prems show ?thesis by (intro create_insert.IH) auto
  qed
next
  case (create_refresh inputs d i inp row d')
  show ?case
  proof (cases "input = inp")
    case True
    let ?row = "upsert_row now (classifySeverity E inp now (DefaultSeverityRules regulatory))
      (sanitizeInputReason (et_Reason inp)) row"
    from create_escalates [OF create_refresh.hyps(1), of i ?row]
    obtain y where "db_exceptions d' i = Some y" "escalated ?row y" by auto
    with True create_refresh.hyps(4) show ?thesis using refreshed_sel(2) [of ?row y]
      by (auto simp: escalated_def severity_rank_upsert intro!: exI [of _ i])
  next
    case False
    with create_refresh.prems show ?thesis by (intro create_refresh.IH) auto
  qed
qed auto

lemma one_per_transaction_put:
  assumes "one_per_transaction d" "\<And>j y. db_exceptions d j = Some y \<Longrightarrow> x_TransactionID y = x_TransactionID x \<Longrightarrow> j = i"
  shows "one_per_transaction (d\<lparr> db_exceptions := (db_exceptions d)(i \<mapsto> x) \<rparr>)"
  unfolding one_per_transaction_def
proof (intro allI impI)
  fix j k y z
  assume "db_exceptions (d\<lparr> db_exceptions := (db_exceptions d)(i \<mapsto> x) \<rparr>) j = Some y"
    "db_exceptions (d\<lparr> db_exceptions := (db_exceptions d)(i \<mapsto> x) \<rparr>) k = Some z" "x_TransactionID y = x_TransactionID z"
  then have j: "j = i \<and> y = x \<or> db_exceptions d j = Some y" and k: "k = i \<and> z = x \<or> db_exceptions d k = Some z"
    and t: "x_TransactionID y = x_TransactionID z" by (auto split: if_splits)
  from j show "j = k"
  proof
    assume "j = i \<and> y = x"
    with k t assms(2) [of k z] show "j = k" by metis
  next
    assume "db_exceptions d j = Some y"
    with k t assms(2) [of j y] assms(1) show "j = k" unfolding one_per_transaction_def by metis
  qed
qed

lemma create_unique:
  assumes "createExceptions E now regulatory inputs d d'" "one_per_transaction d"
  shows "one_per_transaction d'"
  using assms
proof (induction inputs d d' rule: createExceptions.induct)
  case (create_insert inputs d newID input d')
  have "j = newID" if "db_exceptions d j = Some y" "x_TransactionID y = et_TransactionID input" for j y
    using create_insert.hyps(4) that by blast
  with create_insert.prems show ?case by (intro create_insert.IH one_per_transaction_put) auto
next
  case (create_refresh inputs d i input row d')
  have "j = i" if "db_exceptions d j = Some y" "x_TransactionID y = x_TransactionID row" for j y
    using create_refresh.prems [unfolded one_per_transaction_def, rule_format, OF that(1) create_refresh.hyps(3) that(2)] .
  with create_refresh.prems show ?case by (intro create_refresh.IH one_per_transaction_put) auto
qed auto


section \<open>The upsert keeps the contract\<close>

lemma classifySeverity_default_valid:
  "ExceptionSeverity_IsValid (classifySeverity E input now (DefaultSeverityRules regulatory))"
  by (auto simp: classifySeverity_def Let_def default_severity ExceptionSeverity_IsValid_def default_level_def)

lemma upsert_row_ok:
  "exception_ok row \<Longrightarrow> ExceptionSeverity_IsValid severity \<Longrightarrow> exception_ok (upsert_row now severity reason row)"
  by (auto simp: exception_ok_def upsert_row_def upsert_severity_def)

lemma new_row_ok: "t \<noteq> 0 \<Longrightarrow> ExceptionSeverity_IsValid severity \<Longrightarrow> exception_ok (new_row i now t severity reason)"
  by (simp add: exception_ok_def new_row_def ExceptionStatus_IsValid_def)

lemma follows_put:
  assumes "db_exceptions d i = None \<or> (\<exists>x. db_exceptions d i = Some x \<and> refreshed x y \<and> (exception_ok x \<longrightarrow> exception_ok y))"
    and "db_exceptions d i = None \<longrightarrow> x_ID y = i \<and> exception_ok y \<and> x_Status y \<noteq> ExceptionStatusResolved"
  shows "follows parse d (d\<lparr> db_exceptions := (db_exceptions d)(i \<mapsto> y) \<rparr>)"
proof -
  have "row_le x y \<and> x_Status y = x_Status x \<and> x_ID y = x_ID x" if "db_exceptions d i = Some x" for x
    using assms(1) that by (auto simp: row_le_def refreshed_row_step refreshed_sel)
  then have "rows_le [] d (d\<lparr> db_exceptions := (db_exceptions d)(i \<mapsto> y) \<rparr>)"
    unfolding rows_le_def by auto
  moreover have "x_ID y = i \<and> exception_ok y \<and> (x_Status y = ExceptionStatusResolved \<longrightarrow> recorded (db_audit d) i)"
    if "db_ok parse d"
  proof (cases "db_exceptions d i")
    case (Some x)
    with that have "x_ID x = i" "exception_ok x" "x_Status x = ExceptionStatusResolved \<longrightarrow> recorded (db_audit d) i"
      by (auto simp: db_ok_def)
    with Some assms(1) show ?thesis by (auto simp: refreshed_sel)
  qed (use assms(2) in auto)
  then have "db_ok parse d \<longrightarrow> db_ok parse (d\<lparr> db_exceptions := (db_exceptions d)(i \<mapsto> y) \<rparr>)"
    by (simp add: db_ok_def)
  ultimately show ?thesis by (simp add: follows_def)
qed

lemma createExceptions_contract: "createExceptions E now regulatory inputs d d' \<Longrightarrow> follows parse d d'"
proof (induction inputs d d' rule: createExceptions.induct)
  case (create_insert inputs d newID input d')
  show ?case
    by (rule follows_trans [OF follows_put create_insert.IH])
      (simp_all add: create_insert.hyps new_row_ok classifySeverity_default_valid)
next
  case (create_refresh inputs d i input row d')
  show ?case
    by (rule follows_trans [OF follows_put create_refresh.IH])
      (simp_all add: create_refresh.hyps refreshed_upsert upsert_row_ok classifySeverity_default_valid)
qed auto

section \<open>The upsert always goes through\<close>

lemma create_total:
  "length inputs \<le> card {i. db_exceptions d i = None} \<Longrightarrow> \<exists>d'. createExceptions E now regulatory inputs d d'"
proof (induction inputs arbitrary: d)
  case Nil
  then show ?case by (auto intro: create_Nil)
next
  case (Cons input inputs)
  let ?free = "{i. db_exceptions d i = None}"
  consider (skip) "et_TransactionID input = 0"
    | (row) i row where "et_TransactionID input \<noteq> 0" "db_exceptions d i = Some row" "x_TransactionID row = et_TransactionID input"
    | (new) "et_TransactionID input \<noteq> 0" "\<forall>i row. db_exceptions d i = Some row \<longrightarrow> x_TransactionID row \<noteq> et_TransactionID input"
    by blast
  then show ?case
  proof cases
    case skip
    from Cons.prems Cons.IH [of d] obtain d' where "createExceptions E now regulatory inputs d d'" by auto
    from create_skip [OF this skip] show ?thesis ..
  next
    case row
    let ?d = "d\<lparr> db_exceptions := (db_exceptions d)(i \<mapsto> upsert_row now
      (classifySeverity E input now (DefaultSeverityRules regulatory)) (sanitizeInputReason (et_Reason input)) row) \<rparr>"
    have "{j. db_exceptions ?d j = None} = ?free" using row(2) by auto
    with Cons.prems Cons.IH [of ?d] obtain d' where "createExceptions E now regulatory inputs ?d d'" by auto
    from create_refresh [OF this row] show ?thesis ..
  next
    case new
    have "0 < card ?free" using Cons.prems by (simp add: less_eq_Suc_le [symmetric])
    then have "?free \<noteq> {}" by (simp add: card_gt_0_iff)
    then obtain k where k: "db_exceptions d k = None" by blast
    let ?d = "d\<lparr> db_exceptions := (db_exceptions d)(k \<mapsto> new_row k now (et_TransactionID input)
      (classifySeverity E input now (DefaultSeverityRules regulatory)) (sanitizeInputReason (et_Reason input))) \<rparr>"
    have "{j. db_exceptions ?d j = None} = ?free - {k}" by auto
    with Cons.prems k have "length inputs \<le> card {j. db_exceptions ?d j = None}" by simp
    from Cons.IH [OF this] obtain d' where "createExceptions E now regulatory inputs ?d d'" ..
    from create_insert [OF this new(1) k new(2)] show ?thesis ..
  qed
qed


section \<open>Properties\<close>

text \<open>
  C15: A match run that reports its unmatched transactions always succeeds while identifiers are left,
  and however the conflicts fall out: a transaction has at most one exception; every reported
  transaction has one, at least as severe as its classification; the exceptions that existed keep
  status, version, assignment and resolution, never become less severe and never lose a specific
  reason to UNMATCHED; and those of other transactions do not change at all.
\<close>

theorem createExceptions_escalates:
  assumes "one_per_transaction d" "length inputs \<le> card {i. db_exceptions d i = None}"
  shows "(\<exists>d'. createExceptions E now regulatory inputs d d') \<and>
    (\<forall>d'. createExceptions E now regulatory inputs d d' \<longrightarrow> one_per_transaction d' \<and>
       (\<forall>input \<in> set inputs. et_TransactionID input \<noteq> 0 \<longrightarrow>
          (\<exists>i y. db_exceptions d' i = Some y \<and> x_TransactionID y = et_TransactionID input \<and>
             severity_rank (classifySeverity E input now (DefaultSeverityRules regulatory)) \<le> severity_rank (x_Severity y))) \<and>
       (\<forall>i x. db_exceptions d i = Some x \<longrightarrow> (\<exists>y. db_exceptions d' i = Some y \<and>
          y = x\<lparr> x_Severity := x_Severity y, x_Reason := x_Reason y, x_UpdatedAt := x_UpdatedAt y \<rparr> \<and>
          severity_rank (x_Severity x) \<le> severity_rank (x_Severity y) \<and>
          (specific_reason (x_Reason x) \<longrightarrow> specific_reason (x_Reason y)) \<and>
          (x_TransactionID x \<notin> et_TransactionID ` set inputs \<longrightarrow> y = x))))"
proof (intro conjI allI impI ballI, goal_cases)
  case 1
  show ?case using assms(2) by (rule create_total)
next
  case (4 d' i x)
  from create_escalates [OF 4(1,2)] obtain y where y: "db_exceptions d' i = Some y" "escalated x y"
      "x_TransactionID x \<notin> et_TransactionID ` set inputs \<longrightarrow> y = x" by blast
  from y(2) have "y = x\<lparr> x_Severity := x_Severity y, x_Reason := x_Reason y, x_UpdatedAt := x_UpdatedAt y \<rparr>"
    by (auto simp: escalated_def refreshed_def)
  with y show ?case unfolding escalated_def by blast
qed (use assms(1) create_unique create_covers in blast)+

theorem createExceptions_escalates_witness:
  "\<exists>d' i y. createExceptions rat_ext 0 [] [\<lparr> et_TransactionID = 5, et_AmountAbsBase = 200000, et_TransactionDate = zero_time,
       et_SourceType = '''', et_FXMissing = False, et_Reason = ''FEE_VARIANCE'' \<rparr>]
       \<lparr> db_exceptions = Map.empty, db_disputes = Map.empty, db_comments = Map.empty, db_audit = [], db_outbox = [] \<rparr> d' \<and>
     db_exceptions d' i = Some y \<and> x_TransactionID y = 5 \<and> 3 \<le> severity_rank (x_Severity y)"
    (is "\<exists>d' i y. createExceptions _ _ _ [?in] ?d d' \<and> _ d' i y")
proof -
  have rank: "severity_rank (classifySeverity rat_ext ?in 0 (DefaultSeverityRules [])) = 3"
    by (simp add: classifySeverity_def default_severity isSourceTypeAllowed_def default_level_def severity_rank_def)
  have "one_per_transaction ?d" by (simp add: one_per_transaction_def)
  moreover have "length [?in] \<le> card {i. db_exceptions ?d i = None}"
    by (simp add: Suc_le_eq card_gt_0_iff)
  ultimately show ?thesis
    using createExceptions_escalates [of ?d "[?in]" rat_ext 0 "[]"] rank by fastforce
qed

end
