(* ===== verification/Exception_System.thy ===== *)
theory Exception_System
  imports Dispute_Commands Dispatch_Commands Exception_Creator
begin

text \<open>
  The exception context as a whole: every write operation of \<^verbatim>\<open>ExceptionUseCase\<close> and the upsert of
  the matching engine are all the writers of the tables, and \<open>commits\<close> is what they do to a
  database when they run against each other. Between the transactions of a command, other writers
  commit whole runs of their own, up to any depth; a run that is cut short is one whose later calls
  fail. The replica a command reads from is any earlier state of the database.
\<close>

section \<open>All commands\<close>

datatype 'd command =
    CForceMatch ForceMatchCommand | CAdjustEntry "'d AdjustEntryCommand"
  | CBulkAssign BulkAssignInput | CBulkResolve BulkResolveInput
  | CProcessCallback ProcessCallbackCommand
  | COpenDispute OpenDisputeCommand | CCloseDispute CloseDisputeCommand | CSubmitEvidence SubmitEvidenceCommand
  | CAddComment AddCommentInput | CDeleteComment uuid uuid
  | CDispatch DispatchCommand | CBulkDispatch "uuid list \<Rightarrow> uuid list" BulkDispatchInput

record 'd platform =
  pf_ext :: "'d ext"
  pf_codec :: codec
  pf_url :: url_parser
  pf_http :: http_env
  pf_connectors :: ConnectorConfig

definition perform :: "'d::linordered_idom platform \<Rightarrow> env \<Rightarrow> ExceptionUseCase \<Rightarrow> 'd command \<Rightarrow> 'd world \<Rightarrow> 'd world" where
  "perform P env uc c w =
     (let E = pf_ext P; C = pf_codec P; hx = pf_http P; config = pf_connectors P in
      case c of
        CForceMatch cmd \<Rightarrow> snd (ForceMatch E env (Some uc) cmd w)
      | CAdjustEntry cmd \<Rightarrow> snd (AdjustEntry E env (Some uc) cmd w)
      | CBulkAssign input \<Rightarrow> snd (BulkAssign E env uc input w)
      | CBulkResolve input \<Rightarrow> snd (BulkResolve E env uc input w)
      | CProcessCallback cmd \<Rightarrow> snd (ProcessCallback E C env (Some uc) cmd w)
      | COpenDispute cmd \<Rightarrow> snd (OpenDispute E env (Some uc) cmd w)
      | CCloseDispute cmd \<Rightarrow> snd (CloseDispute E env (Some uc) cmd w)
      | CSubmitEvidence cmd \<Rightarrow> snd (SubmitEvidence E (pf_url P) env (Some uc) cmd w)
      | CAddComment input \<Rightarrow> snd (AddComment E env (Some uc) input w)
      | CDeleteComment exceptionID commentID \<Rightarrow> snd (DeleteComment env (Some uc) exceptionID commentID w)
      | CDispatch cmd \<Rightarrow> snd (Dispatch E C hx config env (Some uc) cmd w)
      | CBulkDispatch order input \<Rightarrow> snd (BulkDispatch E C hx config env (Some uc) order input w))"

lemma perform_contract:
  assumes E: "externals (pf_ext P)" and S: "serves (pf_url P) env w"
  shows "follows (pf_url P) (w_db w) (w_db (perform P env uc c w))"
proof -
  note other = BulkAssign_contract [OF E S, unfolded wp_snd]
    BulkResolve_contract [OF E S, unfolded wp_snd]
    ProcessCallback_contract [OF E S, unfolded wp_snd]
    OpenDispute_contract [OF E S, unfolded wp_snd]
    CloseDispute_contract [OF E S, unfolded wp_snd]
    SubmitEvidence_contract [OF E S, unfolded wp_snd]
    AddComment_contract [OF E S, unfolded wp_snd]
    Dispatch_contract [OF E S, unfolded wp_snd]
    BulkDispatch_contract [OF E S, unfolded wp_snd]
    DeleteComment_contract [OF S, unfolded wp_snd]
  show ?thesis
  proof (cases c)
  case (CForceMatch cmd)
  with ForceMatch_contract [OF E S, of "Some uc" cmd] show ?thesis
    by (auto simp: perform_def wp_snd gateway_post_def)
next
  case (CAdjustEntry cmd)
  with AdjustEntry_contract [OF E S, of "Some uc" cmd] show ?thesis
    by (auto simp: perform_def wp_snd gateway_post_def)
  qed (simp_all add: perform_def other)
qed

section \<open>Concurrent histories\<close>

definition empty_db :: db where
  "empty_db = \<lparr> db_exceptions = Map.empty, db_disputes = Map.empty, db_comments = Map.empty, db_audit = [], db_outbox = [] \<rparr>"

inductive commits :: "'d::linordered_idom platform \<Rightarrow> db \<Rightarrow> db \<Rightarrow> bool" for P :: "'d platform" where
  commits_refl: "commits P d d"
| commits_trans: "commits P d d' \<Longrightarrow> commits P d' d'' \<Longrightarrow> commits P d d''"
| commits_create: "createExceptions (pf_ext P) now regulatory inputs d d' \<Longrightarrow> commits P d d'"
| commits_command: "commits P empty_db (v_replica env) \<Longrightarrow> commits P (v_replica env) (w_db w) \<Longrightarrow>
    \<forall>s i d. commits P d (v_others env s i d) \<Longrightarrow> commits P (w_db w) (w_db (perform P env uc c w))"

lemma empty_db_ok [simp]: "db_ok parse empty_db"
  by (simp add: db_ok_def empty_db_def)

lemma commits_follows:
  assumes "externals (pf_ext P)"
  shows "commits P d d' \<Longrightarrow> follows (pf_url P) d d'"
proof (induction d d' rule: commits.induct)
  case (commits_command env w uc c)
  then have "serves (pf_url P) env w" using follows_ok [OF commits_command.IH(1)] by (simp add: serves_def)
  then show ?case by (rule perform_contract [OF assms])
qed (auto intro: follows_trans createExceptions_contract)


section \<open>Properties\<close>


definition example_platform :: "rat platform" where
  "example_platform = \<lparr> pf_ext = rat_ext, pf_codec = example_codec, pf_url = \<lambda>_. None,
     pf_http = \<lparr> hx_breaker = False, hx_register = \<lambda>_ _. True, hx_reject = \<lambda>_ _. False, hx_do = \<lambda>_ _. Inl '''',
       hx_interrupted = \<lambda>_ _. False, hx_key = Some, hx_hmac = \<lambda>_ s. s \<rparr>,
     pf_connectors = \<lparr> cc_Jira = None, cc_Webhook = None \<rparr> \<rparr>"

definition example_input :: "rat ExceptionTransactionInput" where
  "example_input = \<lparr> et_TransactionID = 5, et_AmountAbsBase = 200000, et_TransactionDate = zero_time, et_SourceType = '''',
     et_FXMissing = False, et_Reason = ''FEE_VARIANCE'' \<rparr>"

definition example_created :: db where
  "example_created = empty_db\<lparr> db_exceptions := [7 \<mapsto> new_row 7 0 5
     (classifySeverity rat_ext example_input 0 (DefaultSeverityRules [])) (sanitizeInputReason ''FEE_VARIANCE'')] \<rparr>"

lemma example_commits: "commits example_platform empty_db example_created"
proof (rule commits_create)
  show "createExceptions (pf_ext example_platform) 0 [] [example_input] empty_db example_created"
    by (rule create_insert [where newID = 7])
      (auto simp: example_platform_def example_created_def example_input_def empty_db_def intro: create_Nil)
qed



text \<open>
  C39: A match run that escalates an exception can be undone by a command that read the exception
  before it. Whatever operation the command has applied to the row it read, its versioned update is
  accepted although the row was refreshed in between, and it writes the old severity and reason back.
\<close>

theorem escalation_overwritten:
  assumes "externals E" "exception_ok row" "x_ID row = i" "exception_step row e = Inr x"
    and "db_exceptions d i = Some (upsert_row t severity reason row)"
  shows "executeUpdate E now x d = (Inr (bump now x), d\<lparr> db_exceptions := (db_exceptions d)(i \<mapsto> bump now x) \<rparr>) \<and>
    x_Severity (bump now x) = x_Severity row \<and> x_Reason (bump now x) = x_Reason row"
proof -
  let ?row = "upsert_row t severity reason row"
  have step: "row_step row x" "x_Version x = x_Version row" "exception_ok x" and i: "x_ID x = i"
    using exception_step_row_step [OF assms(2,4)] assms(3) by (auto simp: row_step_def)
  have version: "x_Version ?row = x_Version x" using refreshed_sel(5) [OF refreshed_upsert] step(2) by simp
  have "updated_row now x ?row = bump now x"
    using refreshed_step [OF refreshed_upsert step(1)] version by (intro updated_row_bump) simp_all
  then have "executeUpdate E now x d = (Inr (bump now x), d\<lparr> db_exceptions := (db_exceptions d)(i \<mapsto> bump now x) \<rparr>)"
    using scanException_valid [OF assms(1), of "bump now x"] step(3) by (simp add: executeUpdate_def assms(5) i version)
  moreover have "x_Severity x = x_Severity row \<and> x_Reason x = x_Reason row"
    using assms(4) by (cases rule: exception_step_cases) (auto simp: exception_inv resolved_def Let_def)
  ultimately show ?thesis by (simp add: bump_def)
qed

theorem escalation_overwritten_witness:
  "let escalated = upsert_row 2 ExceptionSeverityCritical ''FEE_VARIANCE'' example_row;
       x = example_row\<lparr> x_Status := ExceptionStatusPendingResolution, x_UpdatedAt := 1 \<rparr>;
       d = example_db\<lparr> db_exceptions := [7 \<mapsto> escalated] \<rparr> in
   StartResolution 1 (Some example_row) = Inr x \<and> x_Severity escalated = ExceptionSeverityCritical \<and>
   fst (executeUpdate rat_ext 3 x d) = Inr (bump 3 x) \<and> x_Severity (bump 3 x) = ExceptionSeverityHigh"
proof -
  let ?x = "example_row\<lparr> x_Status := ExceptionStatusPendingResolution, x_UpdatedAt := 1 \<rparr>"
  let ?row = "upsert_row 2 ExceptionSeverityCritical ''FEE_VARIANCE'' example_row"
  have row: "exception_ok example_row" "x_ID example_row = 7" "x_Severity example_row = ExceptionSeverityHigh"
    by (simp_all add: example_row_def exception_ok_def ExceptionStatus_IsValid_def ExceptionSeverity_IsValid_def)
  have start: "StartResolution 1 (Some example_row) = Inr ?x" by (simp add: StartResolution_def example_row_def)
  then have x: "exception_step example_row (EStartResolution 1) = Inr ?x" by (simp add: exception_step_def)
  have "db_exceptions (example_db\<lparr> db_exceptions := [7 \<mapsto> ?row] \<rparr>) 7 = Some ?row" by simp
  from escalation_overwritten [OF rat_externals row(1,2) x this, of 3] start row(3)
  show ?thesis by (simp add: Let_def upsert_row_def upsert_severity_def)
qed


section \<open>Disputes and comments\<close>

text \<open>What the database is when the transaction begins, and what a successful transaction adds to it: the
  dispute, an audit event and an outbox event.\<close>

definition primary :: "env \<Rightarrow> uuid \<Rightarrow> 'd world \<Rightarrow> db" where
  "primary env i w = v_others env SBegin i (w_db w)"

definition untouched :: "env \<Rightarrow> uuid \<Rightarrow> 'd world \<Rightarrow> 'd world \<Rightarrow> bool" where
  "untouched env i w w' \<longleftrightarrow> w' = w \<or> w' = w\<lparr> w_db := primary env i w \<rparr>"

definition wrote :: "env \<Rightarrow> uuid \<Rightarrow> string \<Rightarrow> Dispute \<Rightarrow> 'd world \<Rightarrow> 'd world \<Rightarrow> bool" where
  "wrote env i action D w w' \<longleftrightarrow> (\<exists>ev se. ae_Action ev = action \<and> ae_ExceptionID ev = d_ExceptionID D \<and>
     w' = w\<lparr> w_db := dispute_written D ev (Some se) (primary env i w) \<rparr>)"

lemma wroteI:
  "ae_Action ev = action \<Longrightarrow> ae_ExceptionID ev = d_ExceptionID D \<Longrightarrow> i = j \<Longrightarrow>
   wrote env i action D w (w\<lparr> w_db := dispute_written D ev (Some se) (v_others env SBegin j (w_db w)) \<rparr>)"
  by (auto simp: wrote_def primary_def)

lemma close_dispute_Inr:
  assumes "validateCloseDispute env uc cmd = Inr params"
  shows "close_dispute env cmd params D = Inr D' \<longleftrightarrow>
    (d_State D = DisputeStateOpen \<or> d_State D = DisputeStatePendingEvidence) \<and>
    D' = D\<lparr> d_State := (if cd_Won cmd then DisputeStateWon else DisputeStateLost),
            d_Resolution := Some (TrimSpace (cd_Resolution cmd)), d_UpdatedAt := v_clock env SOpen \<rparr>"
  using assms by (auto simp: validateCloseDispute_def close_dispute_def Win_Inr Lose_Inr Let_def split: option.splits if_splits)

lemma submit_evidence_Inr:
  assumes "validateSubmitEvidence env uc cmd = Inr params"
  shows "submit_evidence parse env params D = Inr D' \<longleftrightarrow>
    (d_State D = DisputeStateOpen \<or> d_State D = DisputeStatePendingEvidence) \<and>
    (\<exists>item. NewEvidence parse (v_uuid env) (v_clock env SOpen) (d_ID D) (sv_Comment cmd) (v_actor env) (sv_FileURL cmd) = Inr item \<and>
       D' = D\<lparr> d_Evidence := d_Evidence D @ [item], d_State := DisputeStateOpen, d_UpdatedAt := v_clock env SOpen \<rparr>)"
proof -
  have url: "validateFileURL parse (parseOptionalFileURL u) = validateFileURL parse u" for u
    by (cases u) (simp_all add: validateFileURL_def parseOptionalFileURL_def NormalizeOptionalText_def Let_def)
  from assms have "params = \<lparr> sq_actor = TrimSpace (v_actor env), sq_comment = TrimSpace (sv_Comment cmd),
      sq_fileURL = parseOptionalFileURL (sv_FileURL cmd) \<rparr>"
    by (auto simp: validateSubmitEvidence_def Let_def split: option.splits if_splits)
  then show ?thesis by (simp add: submit_evidence_def AddEvidence_Inr NewEvidence_def url)
qed

lemma validateOpenDispute_Inr:
  assumes "validateOpenDispute E env uc cmd = Inr params"
  shows "op_actor params = TrimSpace (v_actor env) \<and> op_description params = TrimSpace (od_Description cmd)"
  using assms by (cases "validateDisputeDeps uc"; cases "ParseDisputeCategory E (TrimSpace (od_Category cmd))")
    (auto simp: validateOpenDispute_def Let_def wrap_def split: if_splits)

lemma OpenDispute_post:
  assumes "externals E" "serves parse env w"
  shows "wp (OpenDispute E env uc cmd)
      (on_ok (\<lambda>e w'. untouched env (od_ExceptionID cmd) w w')
        (\<lambda>D w'. d_ID D = v_uuid env \<and> d_ExceptionID D = od_ExceptionID cmd \<and> d_State D = DisputeStateOpen \<and>
           d_Description D = TrimSpace (od_Description cmd) \<and> d_OpenedBy D = TrimSpace (v_actor env) \<and> d_Evidence D = [] \<and>
           db_disputes (primary env (od_ExceptionID cmd) w) (v_uuid env) = None \<and>
           wrote env (od_ExceptionID cmd) ''DISPUTE_OPENED'' D w w')) w"
    (is "wp _ ?Q w")
proof (cases "validateOpenDispute E env uc cmd")
  case (Inr params)
  have "wp (processOpenDispute E env (the uc) cmd params) ?Q w"
  proof (rule wp_mono [OF processOpenDispute_post [OF assms]], goal_cases)
    case (1 r w')
    show ?case
    proof (cases r)
      case (Inr D)
      with 1 obtain N where N: "NewDispute (v_uuid env) (v_clock env SCreate) (od_ExceptionID cmd) (op_category params)
            (op_description params) (op_actor params) = Inr N" "Open (v_clock env SOpen) (Some N) = Inr D"
        and w': "db_disputes (v_others env SBegin (od_ExceptionID cmd) (w_db w)) (d_ID D) = None"
          "w' = w\<lparr> w_db := dispute_written D (open_dispute_event E env cmd params D)
            (Some (dispute_stream ''dispute.opened'' D (open_dispute_extra env D)))
            (v_others env SBegin (od_ExceptionID cmd) (w_db w)) \<rparr>" by auto
      from N validateOpenDispute_Inr [OF \<open>validateOpenDispute E env uc cmd = Inr params\<close>]
      have "d_ID D = v_uuid env \<and> d_ExceptionID D = od_ExceptionID cmd \<and> d_State D = DisputeStateOpen \<and>
           d_Description D = TrimSpace (od_Description cmd) \<and> d_OpenedBy D = TrimSpace (v_actor env) \<and> d_Evidence D = []"
        by (auto simp: NewDispute_def Open_Inr split: if_splits)
      with w' Inr show ?thesis by (auto simp: primary_def open_dispute_event_def intro!: wroteI)
    qed (use 1 in \<open>auto simp: untouched_def primary_def\<close>)
  qed
  with Inr show ?thesis by (simp add: OpenDispute_def)
qed (simp add: OpenDispute_def untouched_def)

lemma CloseDispute_post:
  assumes "externals E" "serves parse env w"
  shows "wp (CloseDispute E env uc cmd)
      (on_ok (\<lambda>e w'. untouched env (cd_DisputeID cmd) w w')
        (\<lambda>D' w'. \<exists>D. db_disputes (primary env (cd_DisputeID cmd) w) (cd_DisputeID cmd) = Some D \<and>
           (d_State D = DisputeStateOpen \<or> d_State D = DisputeStatePendingEvidence) \<and>
           D' = D\<lparr> d_State := (if cd_Won cmd then DisputeStateWon else DisputeStateLost),
                   d_Resolution := Some (TrimSpace (cd_Resolution cmd)), d_UpdatedAt := v_clock env SOpen \<rparr> \<and>
           wrote env (cd_DisputeID cmd) (if cd_Won cmd then ''DISPUTE_WON'' else ''DISPUTE_LOST'') D' w w')) w"
    (is "wp _ ?Q w")
proof (cases "validateCloseDispute env uc cmd")
  case (Inr params)
  have "wp (processCloseDispute E env (the uc) cmd params) ?Q w"
    unfolding processCloseDispute_shape
  proof (rule wp_mono [OF dispute_change_post [OF assms close_dispute_step]], goal_cases)
    case (1 r w')
    then show ?case
      by (cases r) (auto simp: close_dispute_Inr [OF Inr] close_dispute_event_def untouched_def primary_def intro!: wroteI)
  qed
  with Inr show ?thesis by (simp add: CloseDispute_def)
qed (simp add: CloseDispute_def untouched_def)

lemma SubmitEvidence_post:
  assumes "externals E" "serves parse env w"
  shows "wp (SubmitEvidence E parse env uc cmd)
      (on_ok (\<lambda>e w'. untouched env (sv_DisputeID cmd) w w')
        (\<lambda>D' w'. \<exists>D item. db_disputes (primary env (sv_DisputeID cmd) w) (sv_DisputeID cmd) = Some D \<and>
           (d_State D = DisputeStateOpen \<or> d_State D = DisputeStatePendingEvidence) \<and>
           NewEvidence parse (v_uuid env) (v_clock env SOpen) (d_ID D) (sv_Comment cmd) (v_actor env) (sv_FileURL cmd) = Inr item \<and>
           D' = D\<lparr> d_Evidence := d_Evidence D @ [item], d_State := DisputeStateOpen, d_UpdatedAt := v_clock env SOpen \<rparr> \<and>
           wrote env (sv_DisputeID cmd) ''EVIDENCE_SUBMITTED'' D' w w')) w"
    (is "wp _ ?Q w")
proof (cases "validateSubmitEvidence env uc cmd")
  case (Inr params)
  have "wp (processSubmitEvidence E parse env (the uc) cmd params) ?Q w"
    unfolding processSubmitEvidence_shape
  proof (rule wp_mono [OF dispute_change_post [OF assms submit_evidence_step]], goal_cases)
    case (1 r w')
    then show ?case
      by (cases r) (auto simp: submit_evidence_Inr [OF Inr] evidence_stream_def Let_def submit_evidence_event_def
          untouched_def primary_def intro!: wroteI)
  qed
  with Inr show ?thesis by (simp add: SubmitEvidence_def)
qed (simp add: SubmitEvidence_def untouched_def)

lemma CloseDispute_healthy:
  assumes "externals E" "serves parse env w" "healthy env u" "validateCloseDispute env (Some u) cmd = Inr p"
  shows "fst (CloseDispute E env (Some u) cmd w) =
    (case db_disputes (primary env (cd_DisputeID cmd) w) (cd_DisputeID cmd) of
       None \<Rightarrow> Inl ErrDisputeNotFound | Some D \<Rightarrow> wrap Dispute_error (close_dispute env cmd p D))"
  using dispute_change_healthy [OF assms(1,2) _ assms(3), of "close_dispute env cmd p", OF close_dispute_step]
  by (simp add: CloseDispute_def processCloseDispute_shape abind_def alift_def primary_def assms(4))

lemma SubmitEvidence_healthy:
  assumes "externals E" "serves parse env w" "healthy env u" "validateSubmitEvidence env (Some u) cmd = Inr p"
  shows "fst (SubmitEvidence E parse env (Some u) cmd w) =
    (case db_disputes (primary env (sv_DisputeID cmd) w) (sv_DisputeID cmd) of
       None \<Rightarrow> Inl ErrDisputeNotFound | Some D \<Rightarrow> wrap Dispute_error (submit_evidence parse env p D))"
  using dispute_change_healthy [OF assms(1,2) _ assms(3), of "submit_evidence parse env p", OF submit_evidence_step]
  by (simp add: SubmitEvidence_def processSubmitEvidence_shape abind_def alift_def primary_def assms(4))

text \<open>
  C14: A dispute command reads and writes the dispute of the primary database in one transaction, however
  stale the replica and whatever others do. It either fails and leaves nothing behind, or writes exactly
  one dispute, one audit event and one outbox event: OpenDispute a new OPEN dispute under a fresh
  identifier, CloseDispute the open dispute with its outcome and the trimmed resolution, SubmitEvidence
  the open dispute with one more piece of evidence at the end. When no call fails, the last two succeed
  exactly when the entity allows it, and a missing dispute is reported as not found.
\<close>

theorem dispute_commands_atomic:
  assumes "externals E" "serves parse env w"
  shows "wp (OpenDispute E env uc new)
      (on_ok (\<lambda>e w'. untouched env (od_ExceptionID new) w w')
        (\<lambda>D w'. d_ID D = v_uuid env \<and> d_ExceptionID D = od_ExceptionID new \<and> d_State D = DisputeStateOpen \<and>
           d_Description D = TrimSpace (od_Description new) \<and> d_OpenedBy D = TrimSpace (v_actor env) \<and> d_Evidence D = [] \<and>
           db_disputes (primary env (od_ExceptionID new) w) (v_uuid env) = None \<and>
           wrote env (od_ExceptionID new) ''DISPUTE_OPENED'' D w w')) w \<and>
    wp (CloseDispute E env uc close)
      (on_ok (\<lambda>e w'. untouched env (cd_DisputeID close) w w')
        (\<lambda>D' w'. \<exists>D. db_disputes (primary env (cd_DisputeID close) w) (cd_DisputeID close) = Some D \<and>
           (d_State D = DisputeStateOpen \<or> d_State D = DisputeStatePendingEvidence) \<and>
           D' = D\<lparr> d_State := (if cd_Won close then DisputeStateWon else DisputeStateLost),
                   d_Resolution := Some (TrimSpace (cd_Resolution close)), d_UpdatedAt := v_clock env SOpen \<rparr> \<and>
           wrote env (cd_DisputeID close) (if cd_Won close then ''DISPUTE_WON'' else ''DISPUTE_LOST'') D' w w')) w \<and>
    wp (SubmitEvidence E parse env uc submit)
      (on_ok (\<lambda>e w'. untouched env (sv_DisputeID submit) w w')
        (\<lambda>D' w'. \<exists>D item. db_disputes (primary env (sv_DisputeID submit) w) (sv_DisputeID submit) = Some D \<and>
           (d_State D = DisputeStateOpen \<or> d_State D = DisputeStatePendingEvidence) \<and>
           NewEvidence parse (v_uuid env) (v_clock env SOpen) (d_ID D) (sv_Comment submit) (v_actor env) (sv_FileURL submit) = Inr item \<and>
           D' = D\<lparr> d_Evidence := d_Evidence D @ [item], d_State := DisputeStateOpen, d_UpdatedAt := v_clock env SOpen \<rparr> \<and>
           wrote env (sv_DisputeID submit) ''EVIDENCE_SUBMITTED'' D' w w')) w \<and>
    (\<forall>u p. uc = Some u \<and> healthy env u \<and> validateCloseDispute env uc close = Inr p \<longrightarrow>
       fst (CloseDispute E env uc close w) =
         (case db_disputes (primary env (cd_DisputeID close) w) (cd_DisputeID close) of
            None \<Rightarrow> Inl ErrDisputeNotFound | Some D \<Rightarrow> wrap Dispute_error (close_dispute env close p D))) \<and>
    (\<forall>u p. uc = Some u \<and> healthy env u \<and> validateSubmitEvidence env uc submit = Inr p \<longrightarrow>
       fst (SubmitEvidence E parse env uc submit w) =
         (case db_disputes (primary env (sv_DisputeID submit) w) (sv_DisputeID submit) of
            None \<Rightarrow> Inl ErrDisputeNotFound | Some D \<Rightarrow> wrap Dispute_error (submit_evidence parse env p D)))"
  using CloseDispute_healthy [OF assms] SubmitEvidence_healthy [OF assms]
  by (intro conjI OpenDispute_post [OF assms] CloseDispute_post [OF assms] SubmitEvidence_post [OF assms]) blast+

definition example_dispute :: Dispute where
  "example_dispute = \<lparr> d_ID = 11, d_ExceptionID = 7, d_Category = DisputeCategoryBankFeeError, d_State = DisputeStateOpen,
     d_Description = ''fee'', d_OpenedBy = ''ana'', d_Resolution = None, d_ReopenReason = None, d_Evidence = [],
     d_CreatedAt = 1, d_UpdatedAt = 1 \<rparr>"

definition example_disputed :: "rat world" where
  "example_disputed = example_world\<lparr> w_db := example_db\<lparr> db_disputes := [11 \<mapsto> example_dispute] \<rparr> \<rparr>"

lemma example_serves: "serves parse (example_env (\<lambda>_ _. None) (\<lambda>s i d. d)) example_disputed"
proof -
  have ok: "dispute_ok parse example_dispute"
    by (simp add: example_dispute_def dispute_ok_def DisputeState_IsValid_def DisputeCategory_IsValid_def IsTerminal_def)
  have "follows parse example_db (example_db\<lparr> db_disputes := [11 \<mapsto> example_dispute] \<rparr>)"
    unfolding follows_def using ok by (auto simp: example_db_def rows_le_def db_ok_def example_dispute_def)
  then show ?thesis using example_ok [of parse] by (simp add: serves_def example_disputed_def)
qed

theorem dispute_commands_atomic_witness:
  "let env = example_env (\<lambda>_ _. None) (\<lambda>s i d. d);
       close = \<lparr> cd_DisputeID = 11, cd_Resolution = ''refund'', cd_Won = True \<rparr> in
   fst (CloseDispute rat_ext env (Some example_uc) close example_disputed) = Inr (example_dispute\<lparr> d_State := DisputeStateWon,
     d_Resolution := Some ''refund'', d_UpdatedAt := 5 \<rparr>) \<and>
   fst (CloseDispute rat_ext env (Some example_uc) (close\<lparr> cd_DisputeID := 12 \<rparr>) example_disputed) = Inl ErrDisputeNotFound"
proof -
  let ?env = "example_env (\<lambda>_ _. None) (\<lambda>s i d. d)"
  let ?close = "\<lambda>i. \<lparr> cd_DisputeID = i, cd_Resolution = ''refund'', cd_Won = True \<rparr>"
  have trim: "TrimSpace ''refund'' = ''refund''" "TrimSpace ''ana'' = ''ana''"
    by (simp_all add: TrimSpace_visible visible_def)
  have "healthy ?env example_uc" by (simp add: healthy_def example_uc_def)
  moreover have "validateCloseDispute ?env (Some example_uc) (?close i) = Inr \<lparr> cq_actor = ''ana'', cq_resolution = ''refund'' \<rparr>"
    if "i \<noteq> 0" for i
    using that by (simp add: validateCloseDispute_def validateDisputeDeps_def example_uc_def example_env_def Let_def trim)
  moreover have "close_dispute ?env (?close 11) \<lparr> cq_actor = ''ana'', cq_resolution = ''refund'' \<rparr> example_dispute =
      Inr (example_dispute\<lparr> d_State := DisputeStateWon, d_Resolution := Some ''refund'', d_UpdatedAt := 5 \<rparr>)"
    by (simp add: close_dispute_def Win_Inr trim) (simp add: example_dispute_def)
  ultimately have "fst (CloseDispute rat_ext ?env (Some example_uc) (?close i) example_disputed) =
      (if i = 11 then Inr (example_dispute\<lparr> d_State := DisputeStateWon, d_Resolution := Some ''refund'', d_UpdatedAt := 5 \<rparr>)
       else Inl ErrDisputeNotFound)" if "i \<noteq> 0" for i
    using that dispute_commands_atomic [OF rat_externals example_serves [of "\<lambda>_. None"], of "Some example_uc" undefined "?close i"
      undefined, THEN conjunct2, THEN conjunct2, THEN conjunct2, THEN conjunct1, rule_format, of example_uc]
    by (auto simp: primary_def example_disputed_def wrap_def example_db_def)
  then show ?thesis by (simp add: Let_def)
qed


lemma NewExceptionComment_Inr: "NewExceptionComment i now exceptionID author content = Inr c \<longleftrightarrow>
    exceptionID \<noteq> 0 \<and> TrimSpace author \<noteq> '''' \<and> TrimSpace content \<noteq> '''' \<and>
    c = \<lparr> cm_ID = i, cm_ExceptionID = exceptionID, cm_Author = TrimSpace author, cm_Content = TrimSpace content,
          cm_CreatedAt = now, cm_UpdatedAt = now \<rparr>"
  by (auto simp: NewExceptionComment_def)

lemma DeleteComment_not_found:
  assumes "validateCommentDeps uc = None" "exceptionID \<noteq> 0" "commentID \<noteq> 0" "v_actor env \<noteq> ''''" "v_fault env SFind commentID = None"
  shows "case db_comments (v_replica env) commentID of
      None \<Rightarrow> DeleteComment env uc exceptionID commentID w = (Inl ErrNoRows, w)
    | Some c \<Rightarrow> cm_ExceptionID c \<noteq> exceptionID \<longrightarrow>
        DeleteComment env uc exceptionID commentID w = (Inl (Entity ErrCommentNotFound), w)"
  using assms by (simp add: DeleteComment_def comment_FindByID_def fault_def abind_def alift_def afail_def acheck_def aret_def
      split: option.splits)

text \<open>
  C38: AddComment stores exactly one new comment, by the caller and with the trimmed text, under an exception
  that exists and that the replica does not show as RESOLVED; DeleteComment removes exactly the one comment named,
  only from under the exception named and only for its author; anything else leaves the tables alone. When
  nothing fails, a comment of another exception is reported as not found, and a comment that does not exist
  as the raw error of the driver, although the command means both to look the same.
\<close>

theorem comment_commands:
  assumes "externals E" "serves parse env w"
  shows "wp (AddComment E env uc input)
      (on_ok (\<lambda>e w'. w' = w \<or> w' = w\<lparr> w_db := v_others env SCreate (v_uuid env) (w_db w) \<rparr>)
        (\<lambda>c w'. \<exists>x. db_exceptions (v_replica env) (ac_ExceptionID input) = Some x \<and> x_Status x \<noteq> ExceptionStatusResolved \<and>
           c = \<lparr> cm_ID = v_uuid env, cm_ExceptionID = ac_ExceptionID input, cm_Author = TrimSpace (v_actor env),
                 cm_Content = TrimSpace (ac_Content input), cm_CreatedAt = v_clock env SCreate, cm_UpdatedAt = v_clock env SCreate \<rparr> \<and>
           db_comments (v_others env SCreate (v_uuid env) (w_db w)) (v_uuid env) = None \<and>
           emitted (comment_added env c)
             (w\<lparr> w_db := comment_set (v_uuid env) (Some c) (v_others env SCreate (v_uuid env) (w_db w)) \<rparr>) w')) w \<and>
    wp (DeleteComment env uc exceptionID commentID)
      (on_ok (\<lambda>e w'. w' = w \<or> w' = w\<lparr> w_db := v_others env SUpdate commentID (w_db w) \<rparr>)
        (\<lambda>_ w'. \<exists>c c'. db_comments (v_replica env) commentID = Some c \<and> cm_ExceptionID c = exceptionID \<and>
           cm_Author c = v_actor env \<and>
           db_comments (v_others env SUpdate commentID (w_db w)) commentID = Some c' \<and> cm_ExceptionID c' = exceptionID \<and>
           emitted (comment_deleted env exceptionID commentID (v_actor env))
             (w\<lparr> w_db := comment_set commentID None (v_others env SUpdate commentID (w_db w)) \<rparr>) w')) w \<and>
    (validateCommentDeps uc = None \<and> exceptionID \<noteq> 0 \<and> commentID \<noteq> 0 \<and> v_actor env \<noteq> '''' \<and> v_fault env SFind commentID = None \<longrightarrow>
       (case db_comments (v_replica env) commentID of
          None \<Rightarrow> DeleteComment env uc exceptionID commentID w = (Inl ErrNoRows, w)
        | Some c \<Rightarrow> cm_ExceptionID c \<noteq> exceptionID \<longrightarrow>
            DeleteComment env uc exceptionID commentID w = (Inl (Entity ErrCommentNotFound), w)))"
  (is "wp _ ?Q w \<and> _")
proof (intro conjI impI DeleteComment_post)
  show "wp (AddComment E env uc input) ?Q w"
  proof (rule wp_mono [OF AddComment_post [OF assms]], goal_cases)
    case (1 r w')
    then show ?case by (cases r) (simp_all add: NewExceptionComment_Inr, blast)
  qed
qed (blast intro: DeleteComment_not_found)

theorem comment_commands_witness:
  "let env = example_env (\<lambda>_ _. None) (\<lambda>s i d. d) in
   serves (\<lambda>_. None) env example_disputed \<and> DeleteComment env (Some example_uc) 7 13 example_disputed = (Inl ErrNoRows, example_disputed)"
proof -
  let ?env = "example_env (\<lambda>_ _. None) (\<lambda>s i d. d)"
  have "validateCommentDeps (Some example_uc) = None" "v_actor ?env \<noteq> ''''" "db_comments (v_replica ?env) 13 = None"
    by (simp_all add: validateCommentDeps_def example_uc_def example_env_def example_db_def)
  with comment_commands [OF rat_externals example_serves [of "\<lambda>_. None"], of "Some example_uc" undefined 7 13,
      THEN conjunct2, THEN conjunct2]
  show ?thesis by (simp add: Let_def example_serves)
qed

end
