(* ===== verification/Audit_Chain.thy ===== *)
theory Audit_Chain
  imports Transactions
begin

text \<open>
  The tamper-evident audit log (\<^verbatim>\<open>internal/governance\<close>): the hash chain of \<^verbatim>\<open>hashchain.go\<close>, the shared
  \<^verbatim>\<open>AuditLog\<close> entity and the repository that appends to a tenant's chain. Bytes are characters.
  SHA-256, the JSON text of a record and the validity of a JSON text are the functions of \<open>hashing\<close>; that a digest
  has 32 bytes is a hypothesis where it is needed. A time is an instant, so normalising it to UTC
  does nothing; the column that stores it keeps microseconds. The row lock on the tenant's counter
  serialises the writers of a chain, so a history of the log is a sequence of transactions.
\<close>

section \<open>The hash chain\<close>

record RecordData =
  rd_ID :: uuid
  rd_TenantID :: uuid
  rd_TenantSeq :: int
  rd_EntityType :: string
  rd_EntityID :: uuid
  rd_Action :: string
  rd_ActorID :: "string option"
  rd_Changes :: string
  rd_CreatedAt :: time
  rd_HashVersion :: int

record hashing =
  hc_sha256 :: "string \<Rightarrow> string"
  hc_marshal :: "RecordData \<Rightarrow> string option"
  hc_json_valid :: "string \<Rightarrow> bool"

datatype hash_error = ErrInvalidHashSize | ErrInvalidRecordHash | ErrCanonicalize

datatype chain_error = ErrChainBroken "hash_error option" | ErrSequenceOutOfOrder

definition HashVersion :: int where
  "HashVersion = 1"

definition HashSize :: nat where
  "HashSize = 32"

definition GenesisHash :: string where
  "GenesisHash = replicate HashSize (char_of (0 :: nat))"

definition ComputeRecordHash :: "hashing \<Rightarrow> string \<Rightarrow> RecordData \<Rightarrow> hash_error + string" where
  "ComputeRecordHash H prevHash rec =
     (if length prevHash \<noteq> HashSize then Inl ErrInvalidHashSize
      else case hc_marshal H rec of
        None \<Rightarrow> Inl ErrCanonicalize
      | Some canonical \<Rightarrow> Inr (hc_sha256 H (prevHash @ canonical)))"

definition VerifyRecordHash :: "hashing \<Rightarrow> string \<Rightarrow> string \<Rightarrow> RecordData \<Rightarrow> hash_error option" where
  "VerifyRecordHash H storedHash prevHash rec =
     (case ComputeRecordHash H prevHash rec of
        Inl err \<Rightarrow> Some err
      | Inr computed \<Rightarrow>
          if length storedHash \<noteq> HashSize then Some ErrInvalidHashSize
          else if computed \<noteq> storedHash then Some ErrInvalidRecordHash
          else None)"

record ChainRecord =
  cr_TenantSeq :: int
  cr_PrevHash :: string
  cr_RecordHash :: string
  cr_HashVersion :: int
  cr_Data :: RecordData

text \<open>The addition of int64.\<close>

definition seq_succ :: "int \<Rightarrow> int" where
  "seq_succ s = (if s = 2 ^ 63 - 1 then - (2 ^ 63) else s + 1)"

text \<open>The loop; \<open>previous\<close> holds the sequence number and the hash of the record before.\<close>

primrec verify_loop :: "hashing \<Rightarrow> (int \<times> string) option \<Rightarrow> ChainRecord list \<Rightarrow> chain_error option" where
  "verify_loop H previous [] = None"
| "verify_loop H previous (rec # records) =
     (let expectedPrevHash = (case previous of
            None \<Rightarrow> if cr_TenantSeq rec = 1 then GenesisHash else cr_PrevHash rec
          | Some (_, h) \<Rightarrow> h);
          out_of_order = (case previous of None \<Rightarrow> False | Some (s, _) \<Rightarrow> cr_TenantSeq rec \<noteq> seq_succ s)
      in if out_of_order then Some ErrSequenceOutOfOrder
         else if expectedPrevHash \<noteq> cr_PrevHash rec then Some (ErrChainBroken None)
         else case VerifyRecordHash H (cr_RecordHash rec) (cr_PrevHash rec) (cr_Data rec) of
                Some err \<Rightarrow> Some (ErrChainBroken (Some err))
              | None \<Rightarrow> verify_loop H (Some (cr_TenantSeq rec, cr_RecordHash rec)) records)"

definition VerifyChain :: "hashing \<Rightarrow> ChainRecord list \<Rightarrow> chain_error option" where
  "VerifyChain H records = verify_loop H None records"

section \<open>Audit logs\<close>

record AuditLog =
  al_ID :: uuid
  al_TenantID :: uuid
  al_EntityType :: string
  al_EntityID :: uuid
  al_Action :: string
  al_ActorID :: "string option"
  al_Changes :: string
  al_CreatedAt :: time
  al_TenantSeq :: int
  al_PrevHash :: string
  al_RecordHash :: string
  al_HashVersion :: int

datatype audit_error =
    ErrAuditTenantIDRequired | ErrAuditEntityTypeRequired | ErrAuditEntityTypeTooLong | ErrAuditEntityIDRequired
  | ErrAuditActionRequired | ErrAuditActionTooLong | ErrAuditActorIDTooLong | ErrAuditChangesRequired
  | ErrAuditChangesInvalidJSON
  | ErrAuditLogRequired | ErrPreviousRecordNotFound | HashFailed hash_error | AuditInfra string

definition MaxEntityTypeLength :: nat where
  "MaxEntityTypeLength = 50"

definition MaxActionLength :: nat where
  "MaxActionLength = 50"

definition MaxActorIDLength :: nat where
  "MaxActorIDLength = 255"

definition NewAuditLog :: "hashing \<Rightarrow> uuid \<Rightarrow> time \<Rightarrow> uuid \<Rightarrow> string \<Rightarrow> uuid \<Rightarrow> string \<Rightarrow> string option \<Rightarrow> string \<Rightarrow> audit_error + AuditLog" where
  "NewAuditLog H newID now tenantID entityType entityID action actorID changes =
     (let trimmedEntityType = TrimSpace entityType; trimmedAction = TrimSpace action;
          normalizedActorID = NormalizeOptionalText actorID in
      if tenantID = 0 then Inl ErrAuditTenantIDRequired
      else if trimmedEntityType = '''' then Inl ErrAuditEntityTypeRequired
      else if length trimmedEntityType > MaxEntityTypeLength then Inl ErrAuditEntityTypeTooLong
      else if entityID = 0 then Inl ErrAuditEntityIDRequired
      else if trimmedAction = '''' then Inl ErrAuditActionRequired
      else if length trimmedAction > MaxActionLength then Inl ErrAuditActionTooLong
      else if changes = '''' then Inl ErrAuditChangesRequired
      else if \<not> hc_json_valid H changes then Inl ErrAuditChangesInvalidJSON
      else if (case normalizedActorID of None \<Rightarrow> False | Some a \<Rightarrow> length a > MaxActorIDLength) then Inl ErrAuditActorIDTooLong
      else Inr \<lparr> al_ID = newID, al_TenantID = tenantID, al_EntityType = trimmedEntityType, al_EntityID = entityID,
                 al_Action = trimmedAction, al_ActorID = normalizedActorID, al_Changes = changes, al_CreatedAt = now,
                 al_TenantSeq = 0, al_PrevHash = '''', al_RecordHash = '''', al_HashVersion = 0 \<rparr>)"

section \<open>The repository\<close>

record audit_db =
  ad_next :: "uuid \<Rightarrow> int option"
  ad_logs :: "AuditLog list"

datatype audit_site = ABegin | ALock | ASequence | APrevious | AInsert | ACommit

type_synonym audit_faults = "audit_site \<Rightarrow> string option"

definition audit_fault :: "audit_faults \<Rightarrow> audit_site \<Rightarrow> audit_error option" where
  "audit_fault faults s = map_option AuditInfra (faults s)"

text \<open>\<^verbatim>\<open>INSERT INTO audit_log_chain_state ... ON CONFLICT ... RETURNING next_seq - 1\<close>; the counter is
  a \<^verbatim>\<open>BIGINT\<close>, which does not wrap.\<close>

definition acquireNextSequence :: "audit_faults \<Rightarrow> uuid \<Rightarrow> (audit_db, audit_error, int) act" where
  "acquireNextSequence faults tenantID =
     abind (acheck (audit_fault faults ALock)) (\<lambda>_.
     abind (acheck (audit_fault faults ASequence)) (\<lambda>_ d.
       case ad_next d tenantID of
         None \<Rightarrow> (Inr 1, d\<lparr> ad_next := (ad_next d)(tenantID \<mapsto> 2) \<rparr>)
       | Some n \<Rightarrow>
           if n = 2 ^ 63 - 1 then (Inl (AuditInfra ''bigint out of range''), d)
           else (Inr n, d\<lparr> ad_next := (ad_next d)(tenantID \<mapsto> n + 1) \<rparr>)))"

definition getPreviousHash :: "audit_faults \<Rightarrow> uuid \<Rightarrow> int \<Rightarrow> (audit_db, audit_error, string) act" where
  "getPreviousHash faults tenantID currentSeq =
     (if currentSeq = 1 then aret GenesisHash
      else
        abind (acheck (audit_fault faults APrevious)) (\<lambda>_ d.
          (case find (\<lambda>row. al_TenantID row = tenantID \<and> al_TenantSeq row = currentSeq - 1) (ad_logs d) of
             None \<Rightarrow> Inl ErrPreviousRecordNotFound
           | Some row \<Rightarrow> Inr (al_RecordHash row), d)))"

definition nanos_per_micro :: int where
  "nanos_per_micro = 1000"

text \<open>\<^verbatim>\<open>t.Truncate(time.Microsecond)\<close>, and what a \<^verbatim>\<open>TIMESTAMPTZ\<close> column keeps of a time.\<close>

definition truncate_micro :: "time \<Rightarrow> time" where
  "truncate_micro t = t - t mod nanos_per_micro"

definition insert_audit_log :: "audit_faults \<Rightarrow> AuditLog \<Rightarrow> (audit_db, audit_error, AuditLog) act" where
  "insert_audit_log faults row =
     abind (acheck (audit_fault faults AInsert)) (\<lambda>_ d.
       let stored = row\<lparr> al_CreatedAt := truncate_micro (al_CreatedAt row) \<rparr> in
       if \<exists>old \<in> set (ad_logs d). al_CreatedAt old = al_CreatedAt stored \<and> (al_ID old = al_ID stored \<or>
            al_TenantID old = al_TenantID stored \<and> al_TenantSeq old = al_TenantSeq stored)
       then (Inl (AuditInfra ''duplicate key''), d)
       else if length (al_PrevHash stored) \<noteq> 32 \<or> length (al_RecordHash stored) \<noteq> 32
       then (Inl (AuditInfra ''check constraint''), d)
       else (Inr stored, d\<lparr> ad_logs := ad_logs d @ [stored] \<rparr>))"

definition record_data :: "AuditLog \<Rightarrow> RecordData" where
  "record_data row =
     \<lparr> rd_ID = al_ID row, rd_TenantID = al_TenantID row, rd_TenantSeq = al_TenantSeq row, rd_EntityType = al_EntityType row,
       rd_EntityID = al_EntityID row, rd_Action = al_Action row, rd_ActorID = al_ActorID row, rd_Changes = al_Changes row,
       rd_CreatedAt = al_CreatedAt row, rd_HashVersion = al_HashVersion row \<rparr>"

text \<open>\<open>tenant\<close> is the tenant of the request's context.\<close>

definition audit_executeCreate :: "hashing \<Rightarrow> audit_faults \<Rightarrow> uuid option \<Rightarrow> AuditLog \<Rightarrow> (audit_db, audit_error, AuditLog) act" where
  "audit_executeCreate H faults tenant auditLog0 =
     (let auditLog = auditLog0\<lparr> al_TenantID := (case tenant of None \<Rightarrow> al_TenantID auditLog0 | Some t \<Rightarrow> t),
                                al_CreatedAt := truncate_micro (al_CreatedAt auditLog0) \<rparr> in
      abind (acquireNextSequence faults (al_TenantID auditLog)) (\<lambda>tenantSeq.
      abind (getPreviousHash faults (al_TenantID auditLog) tenantSeq) (\<lambda>prevHash.
      abind (alift (case ComputeRecordHash H prevHash
          (record_data (auditLog\<lparr> al_TenantSeq := tenantSeq, al_HashVersion := HashVersion \<rparr>)) of
            Inl e \<Rightarrow> Inl (HashFailed e) | Inr h \<Rightarrow> Inr h)) (\<lambda>recordHash.
        insert_audit_log faults (auditLog\<lparr> al_TenantSeq := tenantSeq, al_PrevHash := prevHash, al_RecordHash := recordHash,
          al_HashVersion := HashVersion \<rparr>)))))"

definition audit_Create :: "hashing \<Rightarrow> audit_faults \<Rightarrow> uuid option \<Rightarrow> AuditLog option \<Rightarrow> (audit_db, audit_error, AuditLog) act" where
  "audit_Create H faults tenant auditLog =
     (case auditLog of None \<Rightarrow> afail ErrAuditLogRequired
      | Some l \<Rightarrow> in_tx (\<lambda>d. d) (\<lambda>d _. d) (audit_fault faults ABegin) (audit_fault faults ACommit)
                    (audit_executeCreate H faults tenant l))"

definition audit_CreateWithTx :: "hashing \<Rightarrow> audit_faults \<Rightarrow> uuid option \<Rightarrow> AuditLog option \<Rightarrow> (audit_db, audit_error, AuditLog) act" where
  "audit_CreateWithTx H faults tenant auditLog =
     (case auditLog of None \<Rightarrow> afail ErrAuditLogRequired | Some l \<Rightarrow> audit_executeCreate H faults tenant l)"


text \<open>\<^verbatim>\<open>DETACH PARTITION\<close> and \<^verbatim>\<open>DROP TABLE\<close> of an archived month: its rows leave the table, the counters stay.\<close>

definition drop_partition :: "time \<Rightarrow> time \<Rightarrow> audit_db \<Rightarrow> audit_db" where
  "drop_partition start until d = d\<lparr> ad_logs := filter (\<lambda>row. \<not> (start \<le> al_CreatedAt row \<and> al_CreatedAt row < until)) (ad_logs d) \<rparr>"

section \<open>What a verified chain is\<close>

lemma VerifyRecordHash_None:
  "VerifyRecordHash H stored prev rec = None \<longleftrightarrow> length prev = HashSize \<and> length stored = HashSize \<and>
     (\<exists>canonical. hc_marshal H rec = Some canonical \<and> stored = hc_sha256 H (prev @ canonical))"
  by (auto simp: VerifyRecordHash_def ComputeRecordHash_def split: option.splits if_splits)

definition tip :: "ChainRecord list \<Rightarrow> string" where
  "tip rs = (if rs = [] then GenesisHash else cr_RecordHash (last rs))"

definition next_of :: "ChainRecord list \<Rightarrow> int" where
  "next_of rs = (if rs = [] then 1 else seq_succ (cr_TenantSeq (last rs)))"

definition whole_chain :: "hashing \<Rightarrow> ChainRecord list \<Rightarrow> bool" where
  "whole_chain H rs \<longleftrightarrow> VerifyChain H rs = None \<and> (rs \<noteq> [] \<longrightarrow> cr_TenantSeq (hd rs) = 1)"

lemma verify_loop_Cons:
  "verify_loop H p (r # rs) = None \<longleftrightarrow>
     verify_loop H p [r] = None \<and> verify_loop H (Some (cr_TenantSeq r, cr_RecordHash r)) rs = None"
  by (simp add: Let_def split: option.split)

lemma verify_loop_snoc:
  "verify_loop H p (rs @ [r]) = None \<longleftrightarrow> verify_loop H p rs = None \<and>
     verify_loop H (if rs = [] then p else Some (cr_TenantSeq (last rs), cr_RecordHash (last rs))) [r] = None"
proof (induction rs arbitrary: p)
  case (Cons q rs)
  show ?case
    using verify_loop_Cons [of H p q "rs @ [r]"] verify_loop_Cons [of H p q rs]
      Cons.IH [of "Some (cr_TenantSeq q, cr_RecordHash q)"]
    by (simp del: verify_loop.simps)
qed simp

lemma whole_chain_Nil [simp]: "whole_chain H []"
  by (simp add: whole_chain_def VerifyChain_def)

lemma whole_chain_snoc:
  "whole_chain H (rs @ [r]) \<longleftrightarrow> whole_chain H rs \<and> cr_TenantSeq r = next_of rs \<and> cr_PrevHash r = tip rs \<and>
     VerifyRecordHash H (cr_RecordHash r) (cr_PrevHash r) (cr_Data r) = None"
  by (cases "rs = []") (auto simp: whole_chain_def VerifyChain_def verify_loop_snoc tip_def next_of_def Let_def
      split: option.splits if_splits)

text \<open>The texts that are hashed in a chain, and what a hash commits to.\<close>

definition hashed :: "hashing \<Rightarrow> ChainRecord list \<Rightarrow> string set" where
  "hashed H rs = (\<lambda>r. cr_PrevHash r @ the (hc_marshal H (cr_Data r))) ` set rs"

definition committed :: "hashing \<Rightarrow> ChainRecord \<Rightarrow> int \<times> string \<times> string \<times> string option" where
  "committed H r = (cr_TenantSeq r, cr_PrevHash r, cr_RecordHash r, hc_marshal H (cr_Data r))"

lemma whole_chain_tip:
  assumes "whole_chain H rs" "rs \<noteq> []"
  shows "tip rs \<in> hc_sha256 H ` hashed H rs"
  using assms by (cases rs rule: rev_cases) (auto simp: whole_chain_snoc VerifyRecordHash_None tip_def hashed_def)

lemma same_committed_next: "map (committed H) rs = map (committed H) rs' \<Longrightarrow> next_of rs = next_of rs'"
  by (cases rs rule: rev_cases; cases rs' rule: rev_cases) (auto simp: next_of_def committed_def)

lemma tip_determines:
  assumes "inj_on (hc_sha256 H) (hashed H rs \<union> hashed H rs')" "GenesisHash \<notin> hc_sha256 H ` (hashed H rs \<union> hashed H rs')"
    and "whole_chain H rs" "whole_chain H rs'" "tip rs = tip rs'"
  shows "map (committed H) rs = map (committed H) rs'"
  using assms
proof (induction rs arbitrary: rs' rule: rev_induct)
  case Nil
  then show ?case using whole_chain_tip [of H rs'] by (cases "rs' = []") (auto simp: tip_def)
next
  case (snoc r rs)
  have "rs' \<noteq> []" using snoc.prems whole_chain_tip [of H "rs @ [r]"] by (auto simp: tip_def)
  then obtain qs q where q: "rs' = qs @ [q]" by (cases rs' rule: rev_cases) auto
  let ?m = "\<lambda>r. cr_PrevHash r @ the (hc_marshal H (cr_Data r))"
  from snoc.prems(3,4) q have ok: "VerifyRecordHash H (cr_RecordHash r) (cr_PrevHash r) (cr_Data r) = None"
      "VerifyRecordHash H (cr_RecordHash q) (cr_PrevHash q) (cr_Data q) = None"
    and chains: "whole_chain H rs" "whole_chain H qs" and links: "cr_PrevHash r = tip rs" "cr_PrevHash q = tip qs"
      "cr_TenantSeq r = next_of rs" "cr_TenantSeq q = next_of qs"
    unfolding q whole_chain_snoc by blast+
  have "hc_sha256 H (?m r) = hc_sha256 H (?m q)"
    using snoc.prems(5) q ok by (auto simp: tip_def VerifyRecordHash_None)
  then have "?m r = ?m q" by (rule inj_onD [OF snoc.prems(1)]) (simp_all add: q hashed_def)
  with ok have same: "cr_PrevHash r = cr_PrevHash q" "hc_marshal H (cr_Data r) = hc_marshal H (cr_Data q)"
    by (auto simp: VerifyRecordHash_None)
  have sub: "hashed H rs \<union> hashed H qs \<subseteq> hashed H (rs @ [r]) \<union> hashed H rs'" by (auto simp: q hashed_def)
  have rest: "map (committed H) rs = map (committed H) qs"
    using snoc.IH [of qs] chains links same(1) inj_on_subset [OF snoc.prems(1) sub] image_mono [OF sub, of "hc_sha256 H"] snoc.prems(2)
    by auto
  have "cr_RecordHash r = cr_RecordHash q" using snoc.prems(5) by (simp add: q tip_def)
  then have "committed H r = committed H q" using same_committed_next [OF rest] links(3,4) same by (simp add: committed_def)
  with rest show ?case by (simp add: q)
qed

section \<open>Appending\<close>

definition tenant_rows :: "uuid \<Rightarrow> audit_db \<Rightarrow> AuditLog list" where
  "tenant_rows tenant d = filter (\<lambda>row. al_TenantID row = tenant) (ad_logs d)"

definition chain_record :: "AuditLog \<Rightarrow> ChainRecord" where
  "chain_record row = \<lparr> cr_TenantSeq = al_TenantSeq row, cr_PrevHash = al_PrevHash row, cr_RecordHash = al_RecordHash row,
     cr_HashVersion = al_HashVersion row, cr_Data = record_data row \<rparr>"

definition tenant_chain :: "uuid \<Rightarrow> audit_db \<Rightarrow> ChainRecord list" where
  "tenant_chain tenant d = map chain_record (tenant_rows tenant d)"

text \<open>The counter of a tenant is one ahead of its rows, which are numbered from 1 in the order of insertion.\<close>

definition counted :: "uuid \<Rightarrow> audit_db \<Rightarrow> bool" where
  "counted tenant d \<longleftrightarrow> map al_TenantSeq (tenant_rows tenant d) = map int [1..<Suc (length (tenant_rows tenant d))] \<and>
     ad_next d tenant = (if tenant_rows tenant d = [] then None else Some (int (length (tenant_rows tenant d)) + 1)) \<and>
     int (length (tenant_rows tenant d)) < 2 ^ 63 - 1"

definition audit_ok :: "hashing \<Rightarrow> audit_db \<Rightarrow> bool" where
  "audit_ok H d \<longleftrightarrow> (\<forall>tenant. counted tenant d \<and> whole_chain H (tenant_chain tenant d))"


lemma find_conj: "find (\<lambda>x. P x \<and> Q x) xs = find Q (filter P xs)"
  by (induction xs) simp_all

lemma find_snoc: "find P ys = None \<Longrightarrow> find P (ys @ [y]) = (if P y then Some y else None)"
  by (induction ys) (auto split: if_splits)

lemma truncate_micro_idem [simp]: "truncate_micro (truncate_micro t) = truncate_micro t"
proof -
  have "truncate_micro t = nanos_per_micro * (t div nanos_per_micro)"
    by (simp add: truncate_micro_def minus_mod_eq_mult_div)
  then show ?thesis by (metis add_diff_cancel_right' diff_zero mod_mult_self1_is_0 truncate_micro_def)
qed

lemma length_GenesisHash [simp]: "length GenesisHash = HashSize"
  by (simp add: GenesisHash_def)

lemma length_tip: "whole_chain H rs \<Longrightarrow> length (tip rs) = HashSize"
  by (cases rs rule: rev_cases) (auto simp: tip_def whole_chain_snoc VerifyRecordHash_None)

lemma counted_last:
  assumes "counted tenant d" "tenant_rows tenant d \<noteq> []"
  shows "al_TenantSeq (last (tenant_rows tenant d)) = int (length (tenant_rows tenant d))"
    and "find (\<lambda>row. al_TenantID row = tenant \<and> al_TenantSeq row = int (length (tenant_rows tenant d))) (ad_logs d) =
      Some (last (tenant_rows tenant d))"
proof -
  obtain ys y where rs: "tenant_rows tenant d = ys @ [y]" using assms(2) by (cases "tenant_rows tenant d" rule: rev_cases) auto
  from assms(1) have "map al_TenantSeq (ys @ [y]) = map int [1..<Suc (Suc (length ys))]" by (simp add: counted_def rs)
  then have seqs: "map al_TenantSeq ys = map int [1..<Suc (length ys)]" "al_TenantSeq y = int (Suc (length ys))" by simp_all
  then have "al_TenantSeq z \<noteq> int (Suc (length ys))" if "z \<in> set ys" for z
  proof -
    have "al_TenantSeq z \<in> int ` {1..<Suc (length ys)}"
      using that seqs(1) by (metis image_eqI list.set_map set_upt)
    then show ?thesis by auto
  qed
  then have "find (\<lambda>row. al_TenantSeq row = int (Suc (length ys))) ys = None" by (auto simp: find_None_iff)
  then have "find (\<lambda>row. al_TenantSeq row = int (Suc (length ys))) (ys @ [y]) = Some y"
    using seqs(2) by (simp add: find_snoc)
  with rs seqs(2) show "al_TenantSeq (last (tenant_rows tenant d)) = int (length (tenant_rows tenant d))"
    "find (\<lambda>row. al_TenantID row = tenant \<and> al_TenantSeq row = int (length (tenant_rows tenant d))) (ad_logs d) =
      Some (last (tenant_rows tenant d))"
    by (simp_all add: find_conj tenant_rows_def [symmetric])
qed

text \<open>The row that continues a tenant's chain, and the database with it.\<close>

definition next_row :: "hashing \<Rightarrow> audit_db \<Rightarrow> uuid \<Rightarrow> AuditLog \<Rightarrow> string \<Rightarrow> AuditLog" where
  "next_row H d tenant l canonical = l\<lparr> al_TenantID := tenant, al_CreatedAt := truncate_micro (al_CreatedAt l),
     al_TenantSeq := int (length (tenant_rows tenant d)) + 1, al_PrevHash := tip (tenant_chain tenant d),
     al_RecordHash := hc_sha256 H (tip (tenant_chain tenant d) @ canonical), al_HashVersion := HashVersion \<rparr>"

definition appended :: "audit_db \<Rightarrow> AuditLog \<Rightarrow> audit_db" where
  "appended d row = \<lparr> ad_next = (ad_next d)(al_TenantID row \<mapsto> al_TenantSeq row + 1), ad_logs = ad_logs d @ [row] \<rparr>"

lemma tip_chain: "tip (tenant_chain tenant d) =
    (if tenant_rows tenant d = [] then GenesisHash else al_RecordHash (last (tenant_rows tenant d)))"
  by (simp add: tip_def tenant_chain_def last_map chain_record_def)

lemma tenant_rows_appended [simp]:
  "tenant_rows t (appended d row) = tenant_rows t d @ (if al_TenantID row = t then [row] else [])"
  by (simp add: tenant_rows_def appended_def)

lemma next_row_sel [simp]:
  "al_TenantID (next_row H d tenant l c) = tenant" "al_TenantSeq (next_row H d tenant l c) = int (length (tenant_rows tenant d)) + 1"
  "al_PrevHash (next_row H d tenant l c) = tip (tenant_chain tenant d)"
  "al_RecordHash (next_row H d tenant l c) = hc_sha256 H (tip (tenant_chain tenant d) @ c)"
  "al_CreatedAt (next_row H d tenant l c) = truncate_micro (al_CreatedAt l)"
  by (simp_all add: next_row_def)

lemma audit_ok_appended:
  assumes "\<forall>m. length (hc_sha256 H m) = HashSize" "audit_ok H d" "hc_marshal H (record_data (next_row H d tenant l c)) = Some c"
    and "int (length (tenant_rows tenant d)) + 1 < 2 ^ 63 - 1"
  shows "audit_ok H (appended d (next_row H d tenant l c))"
  unfolding audit_ok_def
proof
  fix t
  let ?row = "next_row H d tenant l c" and ?rs = "tenant_rows tenant d"
  have d: "counted tenant d" "whole_chain H (tenant_chain tenant d)" and t: "counted t d" "whole_chain H (tenant_chain t d)"
    using assms(2) by (simp_all add: audit_ok_def)
  show "counted t (appended d ?row) \<and> whole_chain H (tenant_chain t (appended d ?row))"
  proof (cases "t = tenant")
    case True
    have "next_of (tenant_chain tenant d) = int (length ?rs) + 1"
      using counted_last(1) [OF d(1)] d(1)
      by (auto simp: next_of_def tenant_chain_def last_map chain_record_def seq_succ_def counted_def)
    moreover have "VerifyRecordHash H (al_RecordHash ?row) (al_PrevHash ?row) (record_data ?row) = None"
      using assms(1,3) length_tip [OF d(2)] by (simp add: VerifyRecordHash_None)
    ultimately have "whole_chain H (tenant_chain tenant d @ [chain_record ?row])"
      using d(2) by (simp add: whole_chain_snoc chain_record_def)
    moreover have "counted tenant (appended d ?row)"
      using d(1) assms(4) by (auto simp: counted_def) (simp_all add: appended_def)
    ultimately show ?thesis using True by (simp add: tenant_chain_def)
  next
    case False
    then have "ad_next (appended d ?row) t = ad_next d t" by (simp add: appended_def)
    with False t show ?thesis by (simp add: counted_def tenant_chain_def)
  qed
qed

text \<open>A call on a sound log continues the chain of its tenant by one row, or fails for a reason outside the chain.\<close>

definition outside :: "audit_error \<Rightarrow> bool" where
  "outside e \<longleftrightarrow> e = HashFailed ErrCanonicalize \<or> (\<exists>reason. e = AuditInfra reason)"

lemma acquire_post:
  assumes "counted tenant d"
  shows "wp (acquireNextSequence faults tenant)
    (on_ok (\<lambda>e d'. outside e) (\<lambda>s d'. s = int (length (tenant_rows tenant d)) + 1 \<and> s < 2 ^ 63 - 1 \<and>
       d' = d\<lparr> ad_next := (ad_next d)(tenant \<mapsto> s + 1) \<rparr>)) d"
proof -
  have "ad_next d tenant = (if tenant_rows tenant d = [] then None else Some (int (length (tenant_rows tenant d)) + 1))"
      "int (length (tenant_rows tenant d)) < 2 ^ 63 - 1" using assms by (simp_all add: counted_def)
  then show ?thesis
    by (cases "tenant_rows tenant d = []"; cases "faults ALock"; cases "faults ASequence")
      (auto simp: acquireNextSequence_def audit_fault_def outside_def wp_def abind_def acheck_def)
qed

lemma previous_post:
  assumes "counted tenant d" "whole_chain H (tenant_chain tenant d)" "ad_logs d' = ad_logs d"
  shows "wp (getPreviousHash faults tenant (int (length (tenant_rows tenant d)) + 1))
    (on_ok (\<lambda>e d''. outside e) (\<lambda>h d''. h = tip (tenant_chain tenant d) \<and> d'' = d')) d'"
  using counted_last(2) [OF assms(1)] assms(3)
  by (cases "faults APrevious")
    (auto simp: getPreviousHash_def audit_fault_def outside_def tip_chain wp_def abind_def acheck_def aret_def)


lemma record_data_next_row:
  "record_data (l\<lparr> al_TenantID := tenant, al_CreatedAt := truncate_micro (al_CreatedAt l),
     al_TenantSeq := int (length (tenant_rows tenant d)) + 1, al_HashVersion := HashVersion \<rparr>) = record_data (next_row H d tenant l c)"
  by (simp add: record_data_def next_row_def)

definition log_tenant :: "uuid option \<Rightarrow> AuditLog \<Rightarrow> uuid" where
  "log_tenant tenant l = (case tenant of None \<Rightarrow> al_TenantID l | Some t \<Rightarrow> t)"

lemma insert_post:
  assumes "truncate_micro (al_CreatedAt row) = al_CreatedAt row"
  shows "wp (insert_audit_log faults row)
    (on_ok (\<lambda>e d'. outside e) (\<lambda>a d'. a = row \<and> d' = d\<lparr> ad_logs := ad_logs d @ [row] \<rparr>)) d"
proof -
  have "row\<lparr> al_CreatedAt := truncate_micro (al_CreatedAt row) \<rparr> = row" using assms by simp
  then show ?thesis
    by (cases "faults AInsert") (auto simp: insert_audit_log_def audit_fault_def outside_def wp_def abind_def acheck_def Let_def)
qed

lemma wp_chain:
  assumes "wp m (on_ok (\<lambda>e w'. F e) (\<lambda>a w'. P a w')) w" "\<And>e w'. F e \<Longrightarrow> Q (Inl e) w'" "\<And>a w'. P a w' \<Longrightarrow> wp (f a) Q w'"
  shows "wp (abind m f) Q w"
  using assms by (auto simp: on_ok_def elim!: wp_mono split: sum.splits)

text \<open>The part of the transaction after the counter was advanced.\<close>

lemma insert_next:
  assumes sha: "\<forall>m. length (hc_sha256 H m) = HashSize" and ok: "audit_ok H d"
    and c: "hc_marshal H (record_data (next_row H d t l c)) = Some c" and s: "int (length (tenant_rows t d)) + 1 < 2 ^ 63 - 1"
  shows "wp (insert_audit_log faults (next_row H d t l c))
    (on_ok (\<lambda>e d'. outside e) (\<lambda>row d'. \<exists>c. row = next_row H d t l c \<and> hc_marshal H (record_data row) = Some c \<and>
       d' = appended d row \<and> audit_ok H d')) (d\<lparr> ad_next := (ad_next d)(t \<mapsto> int (length (tenant_rows t d)) + 1 + 1) \<rparr>)"
    (is "wp _ _ ?d")
proof -
  have app: "?d\<lparr> ad_logs := ad_logs ?d @ [next_row H d t l c] \<rparr> = appended d (next_row H d t l c)" by (simp add: appended_def)
  have "truncate_micro (al_CreatedAt (next_row H d t l c)) = al_CreatedAt (next_row H d t l c)" by simp
  from insert_post [OF this, of faults ?d] show ?thesis unfolding app
  proof (rule wp_mono, goal_cases)
    case (1 r w')
    then show ?case using c audit_ok_appended [OF sha ok c s] by (cases r) simp_all
  qed
qed

lemma hash_insert_next:
  assumes sha: "\<forall>m. length (hc_sha256 H m) = HashSize" and ok: "audit_ok H d" and s: "int (length (tenant_rows t d)) + 1 < 2 ^ 63 - 1"
    and l: "ll = l\<lparr> al_TenantID := t, al_CreatedAt := truncate_micro (al_CreatedAt l) \<rparr>" "n = int (length (tenant_rows t d)) + 1"
  shows "wp (abind (alift (case ComputeRecordHash H (tip (tenant_chain t d)) (record_data (ll\<lparr> al_TenantSeq := n, al_HashVersion := HashVersion \<rparr>)) of
      Inl e \<Rightarrow> Inl (HashFailed e) | Inr h \<Rightarrow> Inr h)) (\<lambda>recordHash.
      insert_audit_log faults (ll\<lparr> al_TenantSeq := n, al_PrevHash := tip (tenant_chain t d), al_RecordHash := recordHash,
        al_HashVersion := HashVersion \<rparr>)))
    (on_ok (\<lambda>e d'. outside e) (\<lambda>row d'. \<exists>c. row = next_row H d t l c \<and> hc_marshal H (record_data row) = Some c \<and>
       d' = appended d row \<and> audit_ok H d')) (d\<lparr> ad_next := (ad_next d)(t \<mapsto> n + 1) \<rparr>)"
proof -
  have len: "length (tip (tenant_chain t d)) = HashSize" using ok by (auto simp: audit_ok_def intro: length_tip)
  have data: "record_data (ll\<lparr> al_TenantSeq := n, al_HashVersion := HashVersion \<rparr>) = record_data (next_row H d t l c)" for c
    unfolding l by (rule record_data_next_row)
  have row: "ll\<lparr> al_TenantSeq := n, al_PrevHash := tip (tenant_chain t d), al_RecordHash := hc_sha256 H (tip (tenant_chain t d) @ c),
      al_HashVersion := HashVersion \<rparr> = next_row H d t l c" for c
    by (simp add: l next_row_def)
  show ?thesis
  proof (cases "hc_marshal H (record_data (ll\<lparr> al_TenantSeq := n, al_HashVersion := HashVersion \<rparr>))")
    case None
    then show ?thesis using len by (simp add: ComputeRecordHash_def outside_def)
  next
    case (Some c)
    from insert_next [OF sha ok Some [unfolded data [of c]] s, of faults, folded l(2)] Some len show ?thesis
      by (simp add: ComputeRecordHash_def row)
  qed
qed

lemma executeCreate_post:
  assumes sha: "\<forall>m. length (hc_sha256 H m) = HashSize" and ok: "audit_ok H d"
  shows "wp (audit_executeCreate H faults tenant l)
    (on_ok (\<lambda>e d'. outside e) (\<lambda>row d'. \<exists>c. row = next_row H d (log_tenant tenant l) l c \<and> hc_marshal H (record_data row) = Some c \<and>
       d' = appended d row \<and> audit_ok H d')) d"
    (is "wp _ ?Q d")
proof -
  let ?t = "log_tenant tenant l"
  let ?s = "int (length (tenant_rows ?t d)) + 1"
  let ?l = "l\<lparr> al_TenantID := ?t, al_CreatedAt := truncate_micro (al_CreatedAt l) \<rparr>"
  have d: "counted ?t d" "whole_chain H (tenant_chain ?t d)" using ok by (simp_all add: audit_ok_def)
  have rest: "wp (abind (getPreviousHash faults ?t ?s) (\<lambda>prevHash.
      abind (alift (case ComputeRecordHash H prevHash (record_data (?l\<lparr> al_TenantSeq := ?s, al_HashVersion := HashVersion \<rparr>)) of
        Inl e \<Rightarrow> Inl (HashFailed e) | Inr h \<Rightarrow> Inr h)) (\<lambda>recordHash.
        insert_audit_log faults (?l\<lparr> al_TenantSeq := ?s, al_PrevHash := prevHash, al_RecordHash := recordHash,
          al_HashVersion := HashVersion \<rparr>)))) ?Q (d\<lparr> ad_next := (ad_next d)(?t \<mapsto> ?s + 1) \<rparr>)" if "?s < 2 ^ 63 - 1"
    by (intro wp_chain [OF previous_post [OF d]]) (use hash_insert_next [OF sha ok that refl refl, where l = l and faults = faults] in simp_all)
  show ?thesis
    unfolding audit_executeCreate_def Let_def log_tenant_def [symmetric]
    by (rule wp_chain [where m = "acquireNextSequence faults (al_TenantID ?l)"], simp, rule acquire_post [OF d(1)])
      (use rest in auto)
qed

lemma Create_post:
  assumes "\<forall>m. length (hc_sha256 H m) = HashSize" "audit_ok H d"
  shows "wp (audit_Create H faults tenant (Some l))
    (on_ok (\<lambda>e d'. outside e \<and> d' = d) (\<lambda>row d'. \<exists>c. row = next_row H d (log_tenant tenant l) l c \<and>
       hc_marshal H (record_data row) = Some c \<and> d' = appended d row \<and> audit_ok H d')) d"
    (is "wp _ ?Q d")
  unfolding audit_Create_def option.case wp_in_tx
proof (intro conjI allI impI)
  show "wp (audit_executeCreate H faults tenant l) (on_ok (\<lambda>e d'. ?Q (Inl e) d)
      (\<lambda>a d'. (\<forall>e. audit_fault faults ACommit = Some e \<longrightarrow> ?Q (Inl e) d) \<and>
        (audit_fault faults ACommit = None \<longrightarrow> ?Q (Inr a) d'))) d"
    by (rule wp_mono [OF executeCreate_post [OF assms]]) (auto simp: audit_fault_def outside_def on_ok_def split: sum.splits)
qed (auto simp: audit_fault_def outside_def)

section \<open>Histories\<close>

type_synonym audit_call = "audit_faults \<times> uuid option \<times> AuditLog option"

definition create_all :: "hashing \<Rightarrow> audit_call list \<Rightarrow> audit_db \<Rightarrow> audit_db" where
  "create_all H calls d = fold (\<lambda>(faults, tenant, l) d. snd (audit_Create H faults tenant l d)) calls d"

definition empty_log :: audit_db where
  "empty_log = \<lparr> ad_next = Map.empty, ad_logs = [] \<rparr>"

lemma Create_ok:
  assumes "\<forall>m. length (hc_sha256 H m) = HashSize" "audit_ok H d"
  shows "audit_ok H (snd (audit_Create H faults tenant l d))"
proof (cases l)
  case (Some l')
  have "wp (audit_Create H faults tenant (Some l')) (\<lambda>r d'. audit_ok H d') d"
    by (rule wp_mono [OF Create_post [OF assms]]) (use assms(2) in \<open>auto simp: on_ok_def split: sum.splits\<close>)
  with Some show ?thesis by (simp add: wp_snd)
qed (use assms(2) in \<open>simp add: audit_Create_def afail_def\<close>)

lemma create_all_ok:
  assumes "\<forall>m. length (hc_sha256 H m) = HashSize"
  shows "audit_ok H d \<Longrightarrow> audit_ok H (create_all H calls d)"
  unfolding create_all_def by (induction calls arbitrary: d) (auto intro: Create_ok [OF assms])

lemma empty_log_ok: "audit_ok H empty_log"
  by (simp add: audit_ok_def counted_def tenant_chain_def tenant_rows_def empty_log_def)


lemma acquire_eq:
  assumes "counted t d" "\<forall>s. faults s = None" "int (length (tenant_rows t d)) < 2 ^ 63 - 2"
  shows "acquireNextSequence faults t d = (Inr (int (length (tenant_rows t d)) + 1),
    d\<lparr> ad_next := (ad_next d)(t \<mapsto> 2 + int (length (tenant_rows t d))) \<rparr>)"
proof -
  have "ad_next d t = (if tenant_rows t d = [] then None else Some (int (length (tenant_rows t d)) + 1))"
    using assms(1) by (simp add: counted_def)
  with assms(2,3) show ?thesis
    by (cases "tenant_rows t d = []") (simp_all add: acquireNextSequence_def audit_fault_def abind_def acheck_def)
qed

lemma previous_eq:
  assumes "counted t d" "\<forall>s. faults s = None" "ad_logs d' = ad_logs d"
  shows "getPreviousHash faults t (int (length (tenant_rows t d)) + 1) d' = (Inr (tip (tenant_chain t d)), d')"
  using counted_last(2) [OF assms(1)] assms(2,3)
  by (auto simp: getPreviousHash_def audit_fault_def tip_chain abind_def acheck_def aret_def)

lemma insert_eq:
  assumes "counted t d" "\<forall>s. faults s = None" "ad_logs d' = ad_logs d" "al_ID l \<notin> al_ID ` set (ad_logs d)"
    and "length (tip (tenant_chain t d)) = HashSize" "\<forall>m. length (hc_sha256 H m) = HashSize"
  shows "fst (insert_audit_log faults (next_row H d t l c) d') = Inr (next_row H d t l c)"
proof -
  have "al_TenantSeq old \<noteq> int (length (tenant_rows t d)) + 1" if "old \<in> set (ad_logs d)" "al_TenantID old = t" for old
  proof -
    have "al_TenantSeq old \<in> set (map al_TenantSeq (tenant_rows t d))" using that by (simp add: tenant_rows_def)
    then have "al_TenantSeq old \<in> int ` {1..<Suc (length (tenant_rows t d))}"
      using assms(1) unfolding counted_def by (metis list.set_map set_upt)
    then show ?thesis by auto
  qed
  moreover have "al_ID old \<noteq> al_ID (next_row H d t l c)" if "old \<in> set (ad_logs d)" for old
    using imageI [OF that, of al_ID] assms(4) by (auto simp: next_row_def)
  ultimately have "\<not> (\<exists>old \<in> set (ad_logs d). al_CreatedAt old = al_CreatedAt (next_row H d t l c) \<and>
      (al_ID old = al_ID (next_row H d t l c) \<or> al_TenantID old = t \<and> al_TenantSeq old = int (length (tenant_rows t d)) + 1))"
    by blast
  moreover have "next_row H d t l c\<lparr> al_CreatedAt := truncate_micro (al_CreatedAt (next_row H d t l c)) \<rparr> = next_row H d t l c"
    by (simp add: next_row_def)
  ultimately show ?thesis
    using assms(2,3,5,6) by (simp add: insert_audit_log_def audit_fault_def abind_def acheck_def Let_def HashSize_def)
qed

lemma Create_healthy:
  assumes "\<forall>m. length (hc_sha256 H m) = HashSize" "audit_ok H d" "\<forall>s. faults s = None"
    and "int (length (tenant_rows (log_tenant tenant l) d)) < 2 ^ 63 - 2" "al_ID l \<notin> al_ID ` set (ad_logs d)"
    and "hc_marshal H (record_data (next_row H d (log_tenant tenant l) l '''')) = Some c"
  shows "fst (audit_Create H faults tenant (Some l) d) = Inr (next_row H d (log_tenant tenant l) l c)"
proof -
  let ?t = "log_tenant tenant l" and ?n = "int (length (tenant_rows (log_tenant tenant l) d))"
  let ?l = "l\<lparr> al_TenantID := ?t, al_CreatedAt := truncate_micro (al_CreatedAt l) \<rparr>"
  let ?d = "d\<lparr> ad_next := (ad_next d)(?t \<mapsto> 2 + ?n) \<rparr>"
  have t: "counted ?t d" and len: "length (tip (tenant_chain ?t d)) = HashSize"
    using assms(2) by (auto simp: audit_ok_def intro: length_tip)
  have "record_data (?l\<lparr> al_TenantSeq := ?n + 1, al_HashVersion := HashVersion \<rparr>) = record_data (next_row H d ?t l '''')"
    by (rule record_data_next_row)
  moreover have "?l\<lparr> al_TenantSeq := ?n + 1, al_PrevHash := tip (tenant_chain ?t d),
      al_RecordHash := hc_sha256 H (tip (tenant_chain ?t d) @ c), al_HashVersion := HashVersion \<rparr> = next_row H d ?t l c"
    by (simp add: next_row_def)
  ultimately have "audit_executeCreate H faults tenant l d = insert_audit_log faults (next_row H d ?t l c) ?d"
    using acquire_eq [OF t assms(3,4)] previous_eq [OF t assms(3), of ?d] assms(6) len
    by (simp add: audit_executeCreate_def Let_def log_tenant_def [symmetric] abind_def alift_def ComputeRecordHash_def)
  moreover obtain d' where "insert_audit_log faults (next_row H d ?t l c) ?d = (Inr (next_row H d ?t l c), d')"
    using insert_eq [OF t assms(3) _ assms(5) len assms(1), where d' = ?d and c = c]
    by (cases "insert_audit_log faults (next_row H d ?t l c) ?d") simp
  ultimately show ?thesis using assms(3) by (simp add: audit_Create_def in_tx_def audit_fault_def)
qed

text \<open>What is left of a verified chain after its oldest records were archived is still verified.\<close>

lemma verify_loop_drop:
  "verify_loop H p rs = None \<Longrightarrow> \<forall>r \<in> set (tl rs). cr_TenantSeq r \<noteq> 1 \<Longrightarrow> k > 0 \<Longrightarrow> verify_loop H None (drop k rs) = None"
proof (induction rs arbitrary: p k)
  case (Cons r rs)
  then have rest: "verify_loop H (Some (cr_TenantSeq r, cr_RecordHash r)) rs = None" by (simp only: verify_loop_Cons [of H p r rs])
  from Cons.prems(3) obtain j where k: "k = Suc j" by (cases k) auto
  show ?case
  proof (cases "j = 0")
    case True
    then show ?thesis using rest Cons.prems(2) k
      by (cases rs) (auto simp: Let_def split: if_splits option.splits)
  next
    case False
    have "\<forall>r \<in> set (tl rs). cr_TenantSeq r \<noteq> 1" using Cons.prems(2) by (cases rs) simp_all
    with Cons.IH [OF rest] False k show ?thesis by simp
  qed
qed simp

lemma chain_suffix:
  assumes "counted t d" "whole_chain H (tenant_chain t d)"
  shows "VerifyChain H (drop k (tenant_chain t d)) = None"
proof (cases "k = 0")
  case False
  have "map cr_TenantSeq (tenant_chain t d) = map int [1..<Suc (length (tenant_rows t d))]"
    using assms(1) by (simp add: counted_def tenant_chain_def chain_record_def comp_def del: upt_Suc)
  then have "map cr_TenantSeq (tl (tenant_chain t d)) = map int [2..<Suc (length (tenant_rows t d))]"
    unfolding map_tl by (simp add: map_tl [symmetric] tl_upt numeral_2_eq_2 del: upt_Suc)
  then have "cr_TenantSeq r \<in> int ` {2..<Suc (length (tenant_rows t d))}" if "r \<in> set (tl (tenant_chain t d))" for r
    using that by (metis image_eqI list.set_map set_upt)
  then have "\<forall>r \<in> set (tl (tenant_chain t d)). cr_TenantSeq r \<noteq> 1" by force
  with assms(2) False show ?thesis by (auto simp: whole_chain_def VerifyChain_def intro: verify_loop_drop)
qed (use assms(2) in \<open>simp add: whole_chain_def\<close>)


section \<open>Properties\<close>

text \<open>
  C7: After any sequence of calls, whatever fails in them, the audit log of every tenant is numbered from 1 without
  gaps in the order of insertion and passes VerifyChain as it is read back from the database, and so does
  what is left of it when its oldest records are taken away. A further call appends one row to the chain of its tenant,
  or fails for a reason outside the chain and changes nothing; it succeeds when no call to the database fails,
  the identifier is fresh, the record has a JSON text and the counter is not exhausted.
\<close>

theorem audit_log_verifies:
  assumes sha: "\<forall>m. length (hc_sha256 H m) = HashSize" and d: "d = create_all H calls empty_log"
  shows "VerifyChain H (drop k (tenant_chain t d)) = None \<and>
    map al_TenantSeq (tenant_rows t d) = map int [1..<Suc (length (tenant_rows t d))] \<and>
    wp (audit_Create H faults tenant (Some l))
      (on_ok (\<lambda>e d'. outside e \<and> d' = d)
        (\<lambda>row d'. al_TenantID row = log_tenant tenant l \<and> ad_logs d' = ad_logs d @ [row] \<and>
           VerifyChain H (tenant_chain t d') = None)) d \<and>
    ((\<forall>s. faults s = None) \<and> al_ID l \<notin> al_ID ` set (ad_logs d) \<and>
     int (length (tenant_rows (log_tenant tenant l) d)) < 2 ^ 63 - 2 \<and>
     (\<exists>c. hc_marshal H (record_data (next_row H d (log_tenant tenant l) l '''')) = Some c) \<longrightarrow>
     (\<exists>row. fst (audit_Create H faults tenant (Some l) d) = Inr row))"
proof -
  have ok: "audit_ok H d" unfolding d by (rule create_all_ok [OF sha empty_log_ok])
  then have t: "counted t d" "whole_chain H (tenant_chain t d)" by (simp_all add: audit_ok_def)
  have "wp (audit_Create H faults tenant (Some l))
      (on_ok (\<lambda>e d'. outside e \<and> d' = d) (\<lambda>row d'. al_TenantID row = log_tenant tenant l \<and> ad_logs d' = ad_logs d @ [row] \<and>
         VerifyChain H (tenant_chain t d') = None)) d"
  proof (rule wp_mono [OF Create_post [OF sha ok]], goal_cases)
    case (1 r d')
    then show ?case by (cases r) (auto simp: appended_def audit_ok_def whole_chain_def)
  qed
  with t(1) chain_suffix [OF t] Create_healthy [OF sha ok] show ?thesis unfolding counted_def by blast
qed

text \<open>
  C6: A hash of the audit log commits to everything before it. When two logs of a tenant both pass VerifyChain from
  their first record on and end in the same record hash (or are both empty), they have the same number of records, and record by record
  the same sequence numbers, hashes and hashed texts, unless SHA-256 collides on two of these texts or
  maps one of them to the genesis hash. So whoever has kept the last hash detects every changed, inserted, removed or reordered record.
\<close>

theorem audit_log_tamper_evident:
  assumes "VerifyChain H rs = None" "VerifyChain H rs' = None"
    and "rs \<noteq> [] \<Longrightarrow> cr_TenantSeq (hd rs) = 1" "rs' \<noteq> [] \<Longrightarrow> cr_TenantSeq (hd rs') = 1" and "tip rs = tip rs'"
    and "inj_on (hc_sha256 H) (hashed H rs \<union> hashed H rs')" "GenesisHash \<notin> hc_sha256 H ` (hashed H rs \<union> hashed H rs')"
  shows "length rs = length rs' \<and> (\<forall>k < length rs. cr_TenantSeq (rs ! k) = cr_TenantSeq (rs' ! k) \<and>
    cr_PrevHash (rs ! k) = cr_PrevHash (rs' ! k) \<and> cr_RecordHash (rs ! k) = cr_RecordHash (rs' ! k) \<and>
    hc_marshal H (cr_Data (rs ! k)) = hc_marshal H (cr_Data (rs' ! k)))"
proof -
  have same: "map (committed H) rs = map (committed H) rs'"
    using assms(1-5) by (intro tip_determines [OF assms(6,7)]) (simp_all add: whole_chain_def)
  from same have len: "length rs = length rs'" by (rule map_eq_imp_length_eq)
  have "committed H (rs ! k) = committed H (rs' ! k)" if "k < length rs" for k
    using arg_cong [OF same, of "\<lambda>xs. xs ! k"] that len by simp
  with len show ?thesis by (simp add: committed_def)
qed

text \<open>
  C40: A tenant all of whose audit records are in partitions that were archived and dropped can never write an audit
  record again: its counter says that there is a predecessor, the predecessor is gone, and every call fails and leaves the
  database as it is.
\<close>

theorem archived_tenant_is_blocked:
  assumes "\<forall>m. length (hc_sha256 H m) = HashSize" "d = drop_partition start until (create_all H calls empty_log)"
    and "tenant_rows (log_tenant tenant l) (create_all H calls empty_log) \<noteq> []" "tenant_rows (log_tenant tenant l) d = []"
  shows "wp (audit_Create H faults tenant (Some l))
    (on_ok (\<lambda>e d'. d' = d \<and> ((\<forall>s. faults s = None) \<longrightarrow> e = ErrPreviousRecordNotFound \<or> e = AuditInfra ''bigint out of range''))
      (\<lambda>row d'. False)) d"
proof -
  let ?t = "log_tenant tenant l" and ?d0 = "create_all H calls empty_log"
  have "counted ?t ?d0" using create_all_ok [OF assms(1) empty_log_ok] by (simp add: audit_ok_def)
  with assms(2,3) obtain n where n: "ad_next d ?t = Some n" "n \<noteq> 1" by (auto simp: counted_def drop_partition_def)
  have "find (\<lambda>row. al_TenantID row = ?t \<and> al_TenantSeq row = s) (ad_logs d) = None" for s
    using assms(4) by (simp add: find_conj tenant_rows_def)
  with n have "wp (audit_executeCreate H faults tenant l)
      (on_ok (\<lambda>e d'. (\<forall>s. faults s = None) \<longrightarrow> e = ErrPreviousRecordNotFound \<or> e = AuditInfra ''bigint out of range'') (\<lambda>row d'. False)) d"
    by (cases "faults ALock"; cases "faults ASequence"; cases "faults APrevious")
      (auto simp: audit_executeCreate_def Let_def log_tenant_def [symmetric] acquireNextSequence_def getPreviousHash_def
        audit_fault_def wp_def abind_def acheck_def)
  then show ?thesis
    unfolding audit_Create_def option.case wp_in_tx
    by (auto simp: audit_fault_def on_ok_def elim!: wp_mono split: sum.splits)
qed

definition example_hashing :: hashing where
  "example_hashing = \<lparr> hc_sha256 = \<lambda>m. replicate 32 (CHR ''h''), hc_marshal = \<lambda>r. Some ''{}'', hc_json_valid = \<lambda>s. True \<rparr>"

definition example_log :: AuditLog where
  "example_log = \<lparr> al_ID = 3, al_TenantID = 1, al_EntityType = ''exception'', al_EntityID = 7, al_Action = ''RESOLVE'', al_ActorID = None,
     al_Changes = ''{}'', al_CreatedAt = 1500, al_TenantSeq = 0, al_PrevHash = '''', al_RecordHash = '''', al_HashVersion = 0 \<rparr>"

definition example_calls :: "audit_call list" where
  "example_calls = [(\<lambda>_. None, None, Some example_log)]"

lemma example_sha: "\<forall>m. length (hc_sha256 example_hashing m) = HashSize"
  by (simp add: example_hashing_def HashSize_def)

lemma example_audit:
  "create_all example_hashing example_calls empty_log = \<lparr> ad_next = [1 \<mapsto> 2], ad_logs = [example_log\<lparr> al_CreatedAt := 1000, al_TenantSeq := 1,
     al_PrevHash := GenesisHash, al_RecordHash := replicate 32 (CHR ''h''), al_HashVersion := 1 \<rparr>] \<rparr>"
  by (simp add: create_all_def example_calls_def audit_Create_def in_tx_def audit_fault_def audit_executeCreate_def Let_def abind_def
      acquireNextSequence_def acheck_def getPreviousHash_def aret_def alift_def ComputeRecordHash_def insert_audit_log_def empty_log_def
      example_hashing_def example_log_def truncate_micro_def nanos_per_micro_def HashVersion_def HashSize_def GenesisHash_def)

theorem audit_log_verifies_witness:
  "VerifyChain example_hashing (tenant_chain 1 (create_all example_hashing example_calls empty_log)) = None \<and>
   (\<exists>row. fst (audit_Create example_hashing (\<lambda>_. None) (Some 1) (Some (example_log\<lparr> al_ID := 4 \<rparr>))
     (create_all example_hashing example_calls empty_log)) = Inr row)"
proof -
  let ?d = "create_all example_hashing example_calls empty_log" and ?l = "example_log\<lparr> al_ID := 4 \<rparr>"
  have "al_ID ?l \<notin> al_ID ` set (ad_logs ?d)" "int (length (tenant_rows (log_tenant (Some 1) ?l) ?d)) < 2 ^ 63 - 2"
    by (simp_all add: example_audit example_log_def log_tenant_def tenant_rows_def)
  with audit_log_verifies [OF example_sha refl, of 0 1 example_calls "\<lambda>_. None" "Some 1" ?l] show ?thesis
    by (simp add: example_hashing_def)
qed

theorem audit_log_tamper_evident_witness:
  "let rs = tenant_chain 1 (create_all example_hashing example_calls empty_log);
       rs' = map (\<lambda>r. r\<lparr> cr_HashVersion := 2 \<rparr>) rs in
   rs \<noteq> [] \<and> VerifyChain example_hashing rs = None \<and> VerifyChain example_hashing rs' = None \<and> cr_PrevHash (rs ! 0) = cr_PrevHash (rs' ! 0)"
proof -
  let ?rs = "tenant_chain 1 (create_all example_hashing example_calls empty_log)"
  let ?rs' = "map (\<lambda>r. r\<lparr> cr_HashVersion := 2 \<rparr>) ?rs"
  obtain r where rs: "?rs = [r]" "cr_TenantSeq r = 1" "cr_PrevHash r = GenesisHash" "cr_RecordHash r = replicate 32 (CHR ''h'')"
    by (simp add: example_audit tenant_chain_def tenant_rows_def chain_record_def example_log_def)
  have "VerifyRecordHash example_hashing (replicate 32 (CHR ''h'')) GenesisHash x = None" for x
    by (simp add: VerifyRecordHash_None HashSize_def example_hashing_def)
  then have ok: "VerifyChain example_hashing ?rs = None" "VerifyChain example_hashing ?rs' = None"
    using rs by (simp_all add: VerifyChain_def)
  have one: "hashed example_hashing ?rs \<union> hashed example_hashing ?rs' = {GenesisHash @ ''{}''}"
    using rs by (simp add: hashed_def example_hashing_def)
  have "GenesisHash \<noteq> replicate 32 (CHR ''h'')" by (simp add: GenesisHash_def HashSize_def char_of_def)
  with audit_log_tamper_evident [OF ok] rs one ok show ?thesis by (simp add: tip_def example_hashing_def)
qed

theorem archived_tenant_is_blocked_witness:
  "fst (audit_Create example_hashing (\<lambda>_. None) None (Some example_log)
     (drop_partition 0 5000 (create_all example_hashing example_calls empty_log))) = Inl ErrPreviousRecordNotFound"
proof -
  let ?d = "drop_partition 0 5000 (create_all example_hashing example_calls empty_log)"
  have rows: "tenant_rows (log_tenant None example_log) (create_all example_hashing example_calls empty_log) \<noteq> []"
      "tenant_rows (log_tenant None example_log) ?d = []"
    by (simp_all add: example_audit log_tenant_def tenant_rows_def drop_partition_def example_log_def)
  have "acquireNextSequence (\<lambda>_. None) 1 ?d = (Inr 2, ?d\<lparr> ad_next := [1 \<mapsto> 3] \<rparr>)"
    by (simp add: acquireNextSequence_def abind_def acheck_def audit_fault_def example_audit drop_partition_def)
  then have "fst (audit_Create example_hashing (\<lambda>_. None) None (Some example_log) ?d) \<noteq> Inl (AuditInfra ''bigint out of range'')"
    by (simp add: audit_Create_def in_tx_def audit_fault_def audit_executeCreate_def Let_def abind_def getPreviousHash_def acheck_def
        example_log_def example_audit drop_partition_def)
  with archived_tenant_is_blocked [OF example_sha refl rows, of "\<lambda>_. None"] show ?thesis
    by (auto simp: wp_def on_ok_def split: prod.splits sum.splits)
qed

end
