(* ===== verification/Spec2Isabelle.thy ===== *)
theory Spec2Isabelle
  imports Fee_Rules Engine Exception_System Audit_Chain
begin

text \<open>
  \<^bold>\<open>Verification of the matcher.\<close> The repository is a reconciliation service written in Go. It compares the
  transactions of two sides under configured rules and proposes matches, it computes the fees
  that explain a difference, it turns what does not match into exceptions, and it lets people and
  external systems resolve these exceptions with a complete audit trail. All paths below are under
  \<^verbatim>\<open>src/internal\<close>; names of definitions are the names of the source, with a prefix or a suffix
  where two of them would clash. Fields of records carry a short prefix per type.

  \<^bold>\<open>Conventions.\<close>
  \<^item> A Go string is a list of bytes (\<open>string\<close>), a UUID a 128 bit word, an instant the nanoseconds since 1970. A
    \<^verbatim>\<open>time.Duration\<close> saturates like an int64, a confidence score is computed in rounded binary64.
  \<^item> A call that returns an error is a sum with the error on the left. A nil pointer is \<open>None\<close>.
  \<^item> The clock and fresh UUIDs are arguments, or fields of the environment of a command.
  \<^item> The decimal, UUID and case-mapping libraries are the record \<open>ext\<close>; the locale \<open>externals\<close> states what
    their documentation promises, and \<open>rat_ext\<close> on the rationals satisfies it. SHA-256, the JSON
    encoding, URL parsing and time formatting are parameters as well.

  \<^bold>\<open>Foundations.\<close> \<open>Prelude\<close> holds strings with \<^verbatim>\<open>strings.TrimSpace\<close>, times and results. \<open>Go_Sort\<close> states the contract of
  \<^verbatim>\<open>sort.SliceStable\<close> as the locale \<open>strict_weak_order\<close>, which every comparator of the sources
  interprets. \<open>Externals\<close> holds the libraries. \<open>Lifecycle\<close> is the interface of an entity with a status: what a table of
  transitions, an invariant, final states and a way to finish give for every history of calls.
  \<open>Transactions\<close> holds actions on a state that can fail, database transactions, and weakest preconditions.

  \<^bold>\<open>Fees\<close> (\<^verbatim>\<open>shared/domain/fee\<close>).
  \<^item> \<open>Fee_Structure\<close>: \<^verbatim>\<open>money.go\<close>, \<^verbatim>\<open>fee_structure.go\<close>. Flat, percentage and tiered fees; the tier loop is the marginal fee,
    and every validated fee is monotone and grows no faster than the amount.
  \<^item> \<open>Fee_Schedule\<close>: \<^verbatim>\<open>fee_schedule.go\<close>, \<^verbatim>\<open>schedule_calculator.go\<close>, \<^verbatim>\<open>normalization.go\<close>. Parallel and cascading application,
    which always succeeds on a well-formed schedule, and the fixed-point iteration from net to gross, which returns a gross that
    reproduces the net and converges for flat fees. The iteration has the bound of the source and no other fuel.
  \<^item> \<open>Fee_Rules\<close>: \<^verbatim>\<open>field_predicate.go\<close>, \<^verbatim>\<open>fee_rule.go\<close>, \<^verbatim>\<open>fee_rule_resolver.go\<close>, \<^verbatim>\<open>verifier.go\<close>. The first applicable rule by
    priority decides; an update that fails half way leaves a well-formed rule.

  \<^bold>\<open>Matching\<close> (\<^verbatim>\<open>matching/domain/services\<close>).
  \<^item> \<open>Matching_Types\<close>: rules, transactions, day arithmetic and the deterministic sorts.
  \<^item> \<open>Evaluators\<close>: the exact, tolerance and date-lag evaluators, with their meaning, their symmetry, and
    that an exact match is a tolerance match.
  \<^item> \<open>Confidence\<close>: \<^verbatim>\<open>confidence_scorer.go\<close>; the float computation is the decimal one, and which scores matches have.
  \<^item> \<open>Allocation\<close>: \<^verbatim>\<open>allocation*.go\<close>; soundness of an allocation and independence of the order of candidates.
  \<^item> \<open>Engine\<close>: \<^verbatim>\<open>engine.go\<close>; one-to-one matching is the greedy selection, proposals are sound and deterministic, grouped proposals
    use no transaction twice, and a counterexample to that for reversed one-to-many rules.

  \<^bold>\<open>Exceptions\<close> (\<^verbatim>\<open>exception\<close>).
  \<^item> \<open>Triage\<close>: severity, service levels and routing as ordered rules. \<open>Exceptions\<close> and \<open>Disputes\<close>: the entities and their
    status machines, both interpretations of \<open>lifecycle_live\<close>.
  \<^item> \<open>Exception_Store\<close>: the world of the commands. It has the database (exceptions, disputes, comments, audit events, outbox), the event stream,
    the calls of the ledger gateway, the requests sent out and the idempotency keys. An \<open>env\<close> gives the actor, the clock, which calls fail, what the
    replica shows, and what other processes do to the database before each transaction.
  \<^item> \<open>Store_Protocol\<close>: the contract \<open>follows\<close> between states of the database and the invariant \<open>db_ok\<close>; the versioned update is a
    compare-and-swap. \<open>serves\<close> says that the replica is an earlier state and that the others keep the contract.
  \<^item> \<open>Resolution_Commands\<close>, \<open>Resolution_Properties\<close>: ForceMatch, AdjustEntry, BulkAssign, BulkResolve. Every command keeps the contract, a gateway call
    is exclusive per version of an exception, and the outcome is known for every pattern of failures.
  \<^item> \<open>Callback_Commands\<close>: callbacks with their idempotency keys, applied at most once.
  \<^item> \<open>Dispute_Commands\<close>: OpenDispute, CloseDispute, SubmitEvidence, AddComment, DeleteComment with their repositories.
  \<^item> \<open>Connector\<close>, \<open>Dispatch_Commands\<close>: the HTTP connector with its retry loop (bounded by the configured number of attempts), Dispatch and BulkDispatch.
  \<^item> \<open>Exception_Creator\<close>: the upsert with which a match run records its exceptions; it only ever escalates.
  \<^item> \<open>Exception_System\<close>: all writers together. \<open>commits\<close> is every interleaving of their transactions, and the contract holds between
    any two states of it. It also has the properties of the dispute and comment commands.

  \<^bold>\<open>Audit trail\<close> (\<^verbatim>\<open>governance\<close>). \<open>Audit_Chain\<close>: the hash chain, the audit log and the repository that appends to it. Every history of appends
  verifies when it is read back, the last hash commits to the whole log, and a tenant whose records were all archived cannot write any more.

  \<^bold>\<open>Not modelled.\<close>
  \<^item> HTTP handlers, authentication, bootstrap, telemetry, brokers and object storage: input and output around the commands. The
    actor and the tenant they produce are arguments.
  \<^item> The services of \<^verbatim>\<open>matching/services\<close> that load transactions, run the engine and store its groups, and the decoding of rules from JSON: the decoded
    rules and loaded transactions are the input of \<open>Engine\<close>.
  \<^item> Ingestion parsers, configuration storage, reporting, discovery, and the archival worker of governance apart from dropping a partition.
  \<^item> Queries and listings of the exception repositories, which change nothing.
  \<^item> Expiry of idempotency keys, time-outs and the length of waits between attempts, the validation of connector URLs, and the text of wrapped errors.
  \<^item> Locks appear through their effect: a row lock lets the transactions of a tenant's audit chain, or of a dispute, run one after the other.
\<close>

end
